(* ===== verification/Prelude.thy ===== *)
theory Prelude
  imports Main "HOL-Library.AList" "HOL-Library.Char_ord" "HOL-Library.Sublist"
begin

text \<open>
  What every component shares: the model of Go's strings, maps, errors and decimal
  conversions, with the facts about them the component proofs rest on.

  A Go string is its bytes (\<^typ>\<open>string\<close>, a list of 8-bit characters). A Go map with
  string keys is an association list without repeated keys; \<open>nil\<close> maps, where the code can
  tell them from empty ones, are \<open>None\<close> of an option. Go leaves the iteration order of a map
  open: it is the order of the list here, and every theorem holds for all lists.
\<close>

named_theorems str_simps \<open>evaluation of the string operations of package strings\<close>
named_theorems gomap_simps \<open>lookup after the operations on Go maps\<close>
named_theorems err_simps \<open>error values and their chains\<close>

section \<open>Strings\<close>

type_synonym bytes = string

text \<open>\<open>strings.HasPrefix\<close>, \<open>HasSuffix\<close>, \<open>TrimPrefix\<close>, \<open>TrimSuffix\<close>: the trims remove one
  occurrence only.\<close>

definition has_prefix :: "string \<Rightarrow> string \<Rightarrow> bool" where
  "has_prefix p s \<longleftrightarrow> take (length p) s = p"

definition has_suffix :: "string \<Rightarrow> string \<Rightarrow> bool" where
  "has_suffix p s \<longleftrightarrow> length p \<le> length s \<and> drop (length s - length p) s = p"

definition trim_prefix :: "string \<Rightarrow> string \<Rightarrow> string" where
  "trim_prefix p s = (if has_prefix p s then drop (length p) s else s)"

definition trim_suffix :: "string \<Rightarrow> string \<Rightarrow> string" where
  "trim_suffix p s = (if has_suffix p s then take (length s - length p) s else s)"

text \<open>\<open>strings.Trim\<close> with a cutset of one byte: every leading and trailing occurrence.\<close>

definition trim_char :: "char \<Rightarrow> string \<Rightarrow> string" where
  "trim_char c s = rev (dropWhile (\<lambda>x. x = c) (rev (dropWhile (\<lambda>x. x = c) s)))"

text \<open>\<open>strings.Join\<close> and \<open>strings.Split\<close> with a separator of one byte, and \<open>SplitN\<close> with
  \<open>n = 2\<close>.\<close>

fun str_join :: "string \<Rightarrow> string list \<Rightarrow> string" where
  "str_join sep [] = []"
| "str_join sep [x] = x"
| "str_join sep (x # xs) = x @ sep @ str_join sep xs"

fun str_split :: "char \<Rightarrow> string \<Rightarrow> string list" where
  "str_split c [] = [[]]"
| "str_split c (x # xs) =
     (if x = c then [] # str_split c xs
      else (case str_split c xs of [] \<Rightarrow> [[x]] | p # ps \<Rightarrow> (x # p) # ps))"

definition str_split2 :: "char \<Rightarrow> string \<Rightarrow> string list" where
  "str_split2 c s =
     (if c \<in> set s
      then [takeWhile (\<lambda>x. x \<noteq> c) s, tl (dropWhile (\<lambda>x. x \<noteq> c) s)]
      else [s])"

text \<open>\<open>strings.TrimSpace\<close> on the ASCII white space bytes.\<close>

definition is_space :: "char \<Rightarrow> bool" where
  "is_space c \<longleftrightarrow> c \<in> {CHR 0x09, CHR 0x0A, CHR 0x0B, CHR 0x0C, CHR 0x0D, CHR '' ''}"

definition trim_space :: "string \<Rightarrow> string" where
  "trim_space s = rev (dropWhile is_space (rev (dropWhile is_space s)))"

lemma has_prefix_append [simp, str_simps]: "has_prefix p (p @ s)"
  by (simp add: has_prefix_def)

lemma has_prefix_iff: "has_prefix p s \<longleftrightarrow> (\<exists>t. s = p @ t)"
  unfolding has_prefix_def by (metis append_take_drop_id append_eq_conv_conj)

lemma has_suffix_iff: "has_suffix p s \<longleftrightarrow> (\<exists>t. s = t @ p)"
proof
  assume "has_suffix p s"
  then have "s = take (length s - length p) s @ p"
    unfolding has_suffix_def by (metis append_take_drop_id)
  then show "\<exists>t. s = t @ p" by blast
qed (auto simp: has_suffix_def)

lemma has_suffix_append [simp, str_simps]: "has_suffix p (s @ p)"
  by (auto simp: has_suffix_iff)

lemma trim_prefix_append [simp, str_simps]: "trim_prefix p (p @ s) = s"
  by (simp add: trim_prefix_def)

lemma trim_suffix_append [simp, str_simps]: "trim_suffix p (s @ p) = s"
  by (simp add: trim_suffix_def)

lemma trim_suffix_single: "s \<noteq> [] \<Longrightarrow> trim_suffix [c] s = (if last s = c then butlast s else s)"
  by (cases s rule: rev_cases) (auto simp: trim_suffix_def has_suffix_iff)

lemma trim_suffix_Nil [simp]: "p \<noteq> [] \<Longrightarrow> trim_suffix p [] = []"
  by (simp add: trim_suffix_def)

lemma trim_prefix_single:
  "trim_prefix [c] s = (case s of [] \<Rightarrow> [] | x # xs \<Rightarrow> if x = c then xs else s)"
  by (auto simp: trim_prefix_def has_prefix_iff split: list.splits)

lemma str_join_Cons: "xs \<noteq> [] \<Longrightarrow> str_join sep (x # xs) = x @ sep @ str_join sep xs"
  by (cases xs) simp_all

lemma str_split_not_Nil [simp]: "str_split c s \<noteq> []"
  by (induction c s rule: str_split.induct) (auto split: list.splits)

lemma str_join_split [simp]: "str_join [c] (str_split c s) = s"
proof (induction s)
  case (Cons x s)
  then show ?case
    by (cases "str_split c s"; cases "tl (str_split c s)") (auto simp: str_join_Cons)
qed simp

lemma str_split2_append:
  "c \<notin> set u \<Longrightarrow> str_split2 c (u @ c # v) = [u, v]"
  by (auto simp: str_split2_def takeWhile_append dropWhile_append)

section \<open>Maps with string keys\<close>

type_synonym 'v gomap = "(string \<times> 'v) list"

definition gomap_ok :: "'v gomap \<Rightarrow> bool" where
  "gomap_ok m \<longleftrightarrow> distinct (map fst m)"

abbreviation go_get :: "'v gomap \<Rightarrow> string \<Rightarrow> 'v option" where
  "go_get \<equiv> map_of"

definition go_put :: "string \<Rightarrow> 'v \<Rightarrow> 'v gomap \<Rightarrow> 'v gomap" where
  "go_put k v m = AList.update k v m"

definition go_delete :: "string \<Rightarrow> 'v gomap \<Rightarrow> 'v gomap" where
  "go_delete k m = AList.delete k m"

text \<open>\<open>for k, v := range src { dst[k] = v }\<close>\<close>

fun go_put_all :: "'v gomap \<Rightarrow> 'v gomap \<Rightarrow> 'v gomap" where
  "go_put_all [] dst = dst"
| "go_put_all ((k, v) # src) dst = go_put_all src (go_put k v dst)"

text \<open>Reading a map of strings at a missing key gives the zero value.\<close>

definition go_lookup :: "string gomap \<Rightarrow> string \<Rightarrow> string" where
  "go_lookup m k = (case go_get m k of None \<Rightarrow> [] | Some v \<Rightarrow> v)"

lemma go_get_put [simp, gomap_simps]: "go_get (go_put k v m) = (go_get m)(k \<mapsto> v)"
  by (simp add: go_put_def update_conv')

lemma go_put_not_Nil [simp]: "go_put k v m \<noteq> []"
  by (cases m) (auto simp: go_put_def)

lemma go_get_delete [simp, gomap_simps]: "go_get (go_delete k m) = (go_get m)(k := None)"
  by (simp add: go_delete_def delete_conv')

lemma gomap_ok_put [intro, simp]: "gomap_ok m \<Longrightarrow> gomap_ok (go_put k v m)"
  by (simp add: gomap_ok_def go_put_def distinct_update)

lemma gomap_ok_delete [intro, simp]: "gomap_ok m \<Longrightarrow> gomap_ok (go_delete k m)"
  by (simp add: gomap_ok_def go_delete_def distinct_delete)

lemma gomap_ok_Nil [simp]: "gomap_ok []"
  by (simp add: gomap_ok_def)

lemma gomap_ok_put_all [intro, simp]: "gomap_ok dst \<Longrightarrow> gomap_ok (go_put_all src dst)"
  by (induction src dst rule: go_put_all.induct) auto

lemma go_get_put_all:
  "gomap_ok src \<Longrightarrow> go_get (go_put_all src dst) = go_get dst ++ go_get src"
proof (induction src dst rule: go_put_all.induct)
  case (2 k v src dst)
  then have "k \<notin> dom (go_get src)" and "gomap_ok src"
    by (auto simp: gomap_ok_def dom_map_of_conv_image_fst)
  with 2 show ?case
    by (auto simp: fun_eq_iff map_add_def split: option.splits)
qed simp

lemma go_lookup_put [simp, gomap_simps]:
  "go_lookup (go_put k v m) k' = (if k' = k then v else go_lookup m k')"
  by (simp add: go_lookup_def)

lemma find_append:
  "find P (xs @ ys) = (case find P xs of Some x \<Rightarrow> Some x | None \<Rightarrow> find P ys)"
  by (induction xs) auto

section \<open>Errors\<close>

text \<open>
  \<open>errors.New\<close> gives a value identified by the variable that holds it (\<open>ErrNew\<close>, the
  variable's name and the message); \<open>fmt.Errorf\<close> with \<open>%w\<close> adds a prefix and keeps the cause
  (\<open>ErrWrap\<close>, a colon between them, or \<open>ErrPrefix\<close>, none), and without it a plain text (\<open>ErrText\<close>).
  \<open>errors.Is\<close> walks the chain.
\<close>

datatype error = ErrNew string string | ErrText string | ErrWrap string error | ErrPrefix string error

fun error_msg :: "error \<Rightarrow> string" where
  "error_msg (ErrNew _ m) = m"
| "error_msg (ErrText m) = m"
| "error_msg (ErrWrap p e) = p @ '': '' @ error_msg e"
| "error_msg (ErrPrefix p e) = p @ error_msg e"

fun errors_is :: "error \<Rightarrow> error \<Rightarrow> bool" where
  "errors_is (ErrWrap p e) t \<longleftrightarrow> ErrWrap p e = t \<or> errors_is e t"
| "errors_is (ErrPrefix p e) t \<longleftrightarrow> ErrPrefix p e = t \<or> errors_is e t"
| "errors_is e t \<longleftrightarrow> e = t"

lemma errors_is_refl [simp, err_simps]: "errors_is e e"
  by (cases e) simp_all

type_synonym 'a result = "error + 'a"

text \<open>A call that may end in a \<open>panic\<close>, with the value passed to it, instead of returning.\<close>

datatype 'a run = Panics error | Returns 'a

section \<open>Decimal conversions (package strconv)\<close>

definition digit_char :: "nat \<Rightarrow> char" where
  "digit_char d = char_of (48 + d)"

definition is_digit :: "char \<Rightarrow> bool" where
  "is_digit c \<longleftrightarrow> 48 \<le> (of_char c :: nat) \<and> (of_char c :: nat) \<le> 57"

definition digit_val :: "char \<Rightarrow> nat" where
  "digit_val c = of_char c - 48"

fun nat_dec :: "nat \<Rightarrow> string" where
  "nat_dec n = (if n < 10 then [digit_char n] else nat_dec (n div 10) @ [digit_char (n mod 10)])"

declare nat_dec.simps [simp del]

text \<open>\<open>strconv.Itoa\<close>, \<open>fmt.Sprintf("%d", i)\<close>\<close>

definition itoa :: "int \<Rightarrow> string" where
  "itoa i = (if i < 0 then CHR ''-'' # nat_dec (nat (- i)) else nat_dec (nat i))"

definition dec_val :: "string \<Rightarrow> nat" where
  "dec_val s = foldl (\<lambda>a c. 10 * a + digit_val c) 0 s"

definition dec_nat :: "string \<Rightarrow> nat option" where
  "dec_nat s = (if s = [] \<or> \<not> list_all is_digit s then None else Some (dec_val s))"

text \<open>\<open>strconv.ParseUint(s, 10, bits)\<close> and \<open>strconv.ParseInt(s, 10, bits)\<close>; \<open>None\<close> is a syntax
  or range error. \<open>strconv.Atoi\<close> is \<open>ParseInt(s, 10, 0)\<close>, 64 bits wide here.\<close>

definition parse_uint :: "nat \<Rightarrow> string \<Rightarrow> nat option" where
  "parse_uint bits s =
     (case dec_nat s of None \<Rightarrow> None | Some n \<Rightarrow> if n < 2 ^ bits then Some n else None)"

definition parse_int :: "nat \<Rightarrow> string \<Rightarrow> int option" where
  "parse_int bits s =
     (let neg = has_prefix ''-'' s;
          digits = (if neg \<or> has_prefix ''+'' s then tl s else s)
      in case dec_nat digits of
           None \<Rightarrow> None
         | Some n \<Rightarrow>
             if neg then (if n \<le> 2 ^ (bits - 1) then Some (- int n) else None)
             else (if n < 2 ^ (bits - 1) then Some (int n) else None))"

definition atoi :: "string \<Rightarrow> int option" where
  "atoi s = parse_int 64 s"

lemma digit_char_props [simp]:
  assumes "d < 10"
  shows "is_digit (digit_char d)" and "digit_val (digit_char d) = d"
  using assms by (simp_all add: is_digit_def digit_val_def digit_char_def)

lemma nat_dec_not_Nil [simp]: "nat_dec n \<noteq> []"
  by (subst nat_dec.simps) simp

lemma nat_dec_digits [simp]: "list_all is_digit (nat_dec n)"
proof (induction n rule: nat_dec.induct)
  case (1 n)
  then show ?case by (subst nat_dec.simps) auto
qed

lemma dec_val_snoc [simp]: "dec_val [] = 0" "dec_val (s @ [c]) = 10 * dec_val s + digit_val c"
  by (simp_all add: dec_val_def)

lemma dec_val_nat_dec [simp]: "dec_val (nat_dec n) = n"
proof (induction n rule: nat_dec.induct)
  case (1 n)
  show ?case
  proof (cases "n < 10")
    case True
    then show ?thesis using dec_val_snoc(2) [of "[]"] by (subst nat_dec.simps) simp
  next
    case False
    with 1 show ?thesis by (subst nat_dec.simps) simp
  qed
qed

lemma dec_nat_nat_dec [simp]: "dec_nat (nat_dec n) = Some n"
  by (simp add: dec_nat_def)

lemma nat_dec_no_sign: "\<not> has_prefix ''-'' (nat_dec n)" "\<not> has_prefix ''+'' (nat_dec n)"
proof -
  obtain c cs where c: "nat_dec n = c # cs" by (cases "nat_dec n") auto
  with nat_dec_digits [of n] have "is_digit c" by simp
  then show "\<not> has_prefix ''-'' (nat_dec n)" "\<not> has_prefix ''+'' (nat_dec n)"
    by (auto simp: c has_prefix_def is_digit_def)
qed

lemma parse_int_itoa:
  assumes "- (2 ^ (bits - 1)) \<le> i" and "i < 2 ^ (bits - 1)"
  shows "parse_int bits (itoa i) = Some i"
proof (cases "i < 0")
  case True
  with assms(1) have "nat (- i) \<le> 2 ^ (bits - 1)"
    by (simp add: nat_le_iff)
  with True show ?thesis by (simp add: itoa_def parse_int_def has_prefix_def)
next
  case False
  with assms(2) have "nat i < 2 ^ (bits - 1)"
    by (simp add: nat_less_iff)
  with False show ?thesis by (simp add: itoa_def parse_int_def nat_dec_no_sign)
qed

lemma atoi_itoa: "- (2 ^ 63) \<le> i \<Longrightarrow> i < 2 ^ 63 \<Longrightarrow> atoi (itoa i) = Some i"
  by (simp add: atoi_def parse_int_itoa)

lemma parse_int_range:
  assumes "parse_int bits s = Some i"
  shows "- (2 ^ (bits - 1)) \<le> i \<and> i < 2 ^ (bits - 1)"
proof -
  have "int n \<le> 2 ^ k" if "n \<le> 2 ^ k" for n k
    using that by (metis of_nat_le_iff of_nat_numeral of_nat_power)
  moreover have "int n < 2 ^ k" if "n < 2 ^ k" for n k
    using that by (metis of_nat_less_iff of_nat_numeral of_nat_power)
  moreover have "- (2 ^ k) \<le> int n" and "- int n < 2 ^ k" for k n
    by (auto intro: order_trans [of _ 0] order_le_less_trans [of _ 0])
  ultimately show ?thesis
    using assms by (auto simp: parse_int_def Let_def split: option.splits if_splits)
qed

lemma parse_uint_range: "parse_uint bits s = Some n \<Longrightarrow> n < 2 ^ bits"
  by (auto simp: parse_uint_def split: option.splits if_splits)

lemma parse_uint_nat_dec: "n < 2 ^ bits \<Longrightarrow> parse_uint bits (nat_dec n) = Some n"
  by (simp add: parse_uint_def)

end
