(* ===== verification/Json.thy ===== *)
theory Json
  imports Prelude
begin

text \<open>
  The part of Go's \<open>encoding/json\<close> the program uses: JSON values, the compact text that
  \<open>Marshal\<close> writes, the text \<open>Unmarshal\<close> and \<open>Decoder.Decode\<close> read, and how a value is read
  into strings, integers, maps and structs. Strings are taken to be valid UTF-8: bytes above
  127 are copied both ways, where Go writes the characters U+2028 and U+2029 as escapes that read
  back the same. Number literals are kept as written, so the rounding of
  \<open>float64\<close> inside \<open>any\<close> values is not modelled, nor is the nesting limit of the decoder.
\<close>

section \<open>Values and their text\<close>

datatype json =
    JNull
  | JBool bool
  | JNum string
  | JStr string
  | JArr "json list"
  | JObj "(string \<times> json) list"

definition hex_char :: "nat \<Rightarrow> char" where
  "hex_char d = (if d < 10 then char_of (48 + d) else char_of (87 + d))"

definition esc_char :: "char \<Rightarrow> string" where
  "esc_char c =
     (if c = CHR 0x22 \<or> c = CHR 0x5C then [CHR 0x5C, c]
      else if c = CHR 0x08 then [CHR 0x5C, CHR ''b'']
      else if c = CHR 0x0C then [CHR 0x5C, CHR ''f'']
      else if c = CHR 0x0A then [CHR 0x5C, CHR ''n'']
      else if c = CHR 0x0D then [CHR 0x5C, CHR ''r'']
      else if c = CHR 0x09 then [CHR 0x5C, CHR ''t'']
      else if (of_char c :: nat) < 32 \<or> c \<in> {CHR ''<'', CHR ''>'', CHR ''&''}
      then [CHR 0x5C, CHR ''u'', CHR ''0'', CHR ''0'',
            hex_char (of_char c div 16), hex_char (of_char c mod 16)]
      else [c])"

definition quote :: "string \<Rightarrow> string" where
  "quote s = CHR 0x22 # concat (map esc_char s) @ [CHR 0x22]"

fun json_text :: "json \<Rightarrow> string" where
  "json_text JNull = ''null''"
| "json_text (JBool b) = (if b then ''true'' else ''false'')"
| "json_text (JNum lit) = lit"
| "json_text (JStr s) = quote s"
| "json_text (JArr xs) = CHR ''['' # str_join '','' (map json_text xs) @ '']''"
| "json_text (JObj ms) =
     CHR ''{'' # str_join '','' (map (\<lambda>(k, v). quote k @ '':'' @ json_text v) ms) @ ''}''"

section \<open>Reading text\<close>

definition json_space :: "char \<Rightarrow> bool" where
  "json_space c \<longleftrightarrow> c \<in> {CHR '' '', CHR 0x09, CHR 0x0A, CHR 0x0D}"

definition skip_ws :: "string \<Rightarrow> string" where
  "skip_ws = dropWhile json_space"

definition hex_val :: "char \<Rightarrow> nat option" where
  "hex_val c =
     (let n = of_char c :: nat in
      if 48 \<le> n \<and> n \<le> 57 then Some (n - 48)
      else if 97 \<le> n \<and> n \<le> 102 then Some (n - 87)
      else if 65 \<le> n \<and> n \<le> 70 then Some (n - 55)
      else None)"

definition hex4 :: "char \<Rightarrow> char \<Rightarrow> char \<Rightarrow> char \<Rightarrow> nat option" where
  "hex4 a b c d =
     (case (hex_val a, hex_val b, hex_val c, hex_val d) of
        (Some x, Some y, Some z, Some w) \<Rightarrow> Some (4096 * x + 256 * y + 16 * z + w)
      | _ \<Rightarrow> None)"

text \<open>The UTF-8 bytes of a code unit of a \<open>\u\<close> escape; a surrogate standing alone, or any
  surrogate here, reads as U+FFFD.\<close>

definition utf8 :: "nat \<Rightarrow> string" where
  "utf8 n =
     (if n < 128 then [char_of n]
      else if n < 2048 then [char_of (192 + n div 64), char_of (128 + n mod 64)]
      else if 55296 \<le> n \<and> n < 57344 then [CHR 0xEF, CHR 0xBF, CHR 0xBD]
      else [char_of (224 + n div 4096), char_of (128 + n div 64 mod 64),
            char_of (128 + n mod 64)])"

definition unescape :: "char \<Rightarrow> char option" where
  "unescape c =
     (if c \<in> {CHR 0x22, CHR 0x5C, CHR ''/''} then Some c
      else if c = CHR ''b'' then Some (CHR 0x08)
      else if c = CHR ''f'' then Some (CHR 0x0C)
      else if c = CHR ''n'' then Some (CHR 0x0A)
      else if c = CHR ''r'' then Some (CHR 0x0D)
      else if c = CHR ''t'' then Some (CHR 0x09)
      else None)"

text \<open>The rest of a string literal, after its opening quote.\<close>

definition cons_fst :: "string \<Rightarrow> (string \<times> string) option \<Rightarrow> (string \<times> string) option" where
  "cons_fst u r = map_option (\<lambda>(s, rest). (u @ s, rest)) r"

fun p_string :: "string \<Rightarrow> (string \<times> string) option" where
  "p_string [] = None"
| "p_string (c # r) =
     (if c = CHR 0x22 then Some ([], r)
      else if c = CHR 0x5C then
        (case r of
           [] \<Rightarrow> None
         | e # r1 \<Rightarrow>
             if e = CHR ''u'' then
               (case r1 of
                  h1 # h2 # h3 # h4 # r2 \<Rightarrow>
                    (case hex4 h1 h2 h3 h4 of
                       None \<Rightarrow> None
                     | Some n \<Rightarrow> cons_fst (utf8 n) (p_string r2))
                | _ \<Rightarrow> None)
             else (case unescape e of
                     None \<Rightarrow> None
                   | Some u \<Rightarrow> cons_fst [u] (p_string r1)))
      else if (of_char c :: nat) < 32 then None
      else cons_fst [c] (p_string r))"

definition num_char :: "char \<Rightarrow> bool" where
  "num_char c \<longleftrightarrow> is_digit c \<or> c \<in> {CHR ''-'', CHR ''+'', CHR ''.'', CHR ''e'', CHR ''E''}"

definition num_exp :: "string \<Rightarrow> bool" where
  "num_exp s \<longleftrightarrow>
     (case s of
        [] \<Rightarrow> True
      | c # r \<Rightarrow> c \<in> {CHR ''e'', CHR ''E''} \<and>
          (let d = (case r of [] \<Rightarrow> [] | x # y \<Rightarrow> if x \<in> {CHR ''-'', CHR ''+''} then y else r)
           in d \<noteq> [] \<and> list_all is_digit d))"

definition num_frac :: "string \<Rightarrow> bool" where
  "num_frac s \<longleftrightarrow>
     (case s of
        [] \<Rightarrow> True
      | c # r \<Rightarrow> if c = CHR ''.'' then takeWhile is_digit r \<noteq> [] \<and> num_exp (dropWhile is_digit r)
                 else num_exp s)"

definition num_ok :: "string \<Rightarrow> bool" where
  "num_ok s \<longleftrightarrow>
     (let u = trim_prefix ''-'' s; i = takeWhile is_digit u
      in i \<noteq> [] \<and> (hd i = CHR ''0'' \<longrightarrow> length i = 1) \<and> num_frac (dropWhile is_digit u))"

definition p_number :: "string \<Rightarrow> (json \<times> string) option" where
  "p_number s =
     (let lit = takeWhile num_char s
      in if num_ok lit then Some (JNum lit, dropWhile num_char s) else None)"

definition p_keyword :: "string \<Rightarrow> json \<Rightarrow> string \<Rightarrow> (json \<times> string) option" where
  "p_keyword w v s = (if has_prefix w s then Some (v, drop (length w) s) else None)"

text \<open>
  The recursive descent of the decoder; the fuel bounds the calls, and the length of the text
  is enough (\<open>parse_text\<close> below).
\<close>

fun p_value :: "nat \<Rightarrow> string \<Rightarrow> (json \<times> string) option"
and p_elems :: "nat \<Rightarrow> string \<Rightarrow> (json list \<times> string) option"
and p_members :: "nat \<Rightarrow> string \<Rightarrow> ((string \<times> json) list \<times> string) option"
where
  "p_value 0 s = None"
| "p_value (Suc n) s =
     (case skip_ws s of
        [] \<Rightarrow> None
      | c # r \<Rightarrow>
          if c = CHR ''{'' then
            (case skip_ws r of
               [] \<Rightarrow> None
             | x # r1 \<Rightarrow> if x = CHR ''}'' then Some (JObj [], r1)
                         else map_option (\<lambda>(ms, rest). (JObj ms, rest)) (p_members n r))
          else if c = CHR ''['' then
            (case skip_ws r of
               [] \<Rightarrow> None
             | x # r1 \<Rightarrow> if x = CHR '']'' then Some (JArr [], r1)
                         else map_option (\<lambda>(xs, rest). (JArr xs, rest)) (p_elems n r))
          else if c = CHR 0x22 then map_option (\<lambda>(t, rest). (JStr t, rest)) (p_string r)
          else if c = CHR ''n'' then p_keyword ''null'' JNull (c # r)
          else if c = CHR ''t'' then p_keyword ''true'' (JBool True) (c # r)
          else if c = CHR ''f'' then p_keyword ''false'' (JBool False) (c # r)
          else p_number (c # r))"
| "p_elems 0 s = None"
| "p_elems (Suc n) s =
     (case p_value n s of
        None \<Rightarrow> None
      | Some (v, r) \<Rightarrow>
          (case skip_ws r of
             [] \<Rightarrow> None
           | c # r1 \<Rightarrow>
               if c = CHR '']'' then Some ([v], r1)
               else if c = CHR '','' then map_option (\<lambda>(xs, rest). (v # xs, rest)) (p_elems n r1)
               else None))"
| "p_members 0 s = None"
| "p_members (Suc n) s =
     (case skip_ws s of
        [] \<Rightarrow> None
      | q # r0 \<Rightarrow>
          if q \<noteq> CHR 0x22 then None
          else (case p_string r0 of
            None \<Rightarrow> None
          | Some (k, r1) \<Rightarrow>
              (case skip_ws r1 of
                 [] \<Rightarrow> None
               | c # r2 \<Rightarrow>
                   if c \<noteq> CHR '':'' then None
                   else (case p_value n r2 of
                     None \<Rightarrow> None
                   | Some (v, r3) \<Rightarrow>
                       (case skip_ws r3 of
                          [] \<Rightarrow> None
                        | d # r4 \<Rightarrow>
                            if d = CHR ''}'' then Some ([(k, v)], r4)
                            else if d = CHR '','' then
                              map_option (\<lambda>(ms, rest). ((k, v) # ms, rest)) (p_members n r4)
                            else None)))))"

text \<open>\<open>Unmarshal\<close> reads the whole text, \<open>Decoder.Decode\<close> the first value of it.\<close>

definition json_parse :: "string \<Rightarrow> json option" where
  "json_parse s =
     (case p_value (Suc (length s)) s of
        Some (v, rest) \<Rightarrow> if skip_ws rest = [] then Some v else None
      | None \<Rightarrow> None)"

definition json_decode :: "string \<Rightarrow> json option" where
  "json_decode s = map_option fst (p_value (Suc (length s)) s)"

section \<open>Text read back\<close>

fun json_wf :: "json \<Rightarrow> bool" where
  "json_wf (JNum lit) \<longleftrightarrow> num_ok lit \<and> list_all num_char lit"
| "json_wf (JArr xs) \<longleftrightarrow> list_all json_wf xs"
| "json_wf (JObj ms) \<longleftrightarrow> list_all (\<lambda>(k, v). json_wf v) ms"
| "json_wf _ \<longleftrightarrow> True"

lemma hex4_code:
  "n < 256 \<Longrightarrow> hex4 (CHR ''0'') (CHR ''0'') (hex_char (n div 16)) (hex_char (n mod 16)) = Some n"
proof -
  assume n: "n < 256"
  have h: "hex_val (hex_char d) = Some d" if "d < 16" for d
    using that by (auto simp: hex_val_def hex_char_def)
  have z: "hex_val (CHR ''0'') = Some 0" by (simp add: hex_val_def)
  from n have "n div 16 < 16" by auto
  then show ?thesis by (simp add: hex4_def h z)
qed

lemma p_string_esc: "p_string (esc_char c @ r) = cons_fst [c] (p_string r)"
proof (cases "(of_char c :: nat) < 32 \<or> c \<in> {CHR ''<'', CHR ''>'', CHR ''&''}")
  case True
  then have "(of_char c :: nat) < 128" by auto
  then have "utf8 (of_char c) = [c]" by (simp add: utf8_def)
  with True show ?thesis
    by (auto simp: esc_char_def unescape_def hex4_code)
next
  case False
  then show ?thesis by (auto simp: esc_char_def unescape_def)
qed

lemma p_string_quoted: "p_string (concat (map esc_char s) @ CHR 0x22 # rest) = Some (s, rest)"
  by (induction s) (simp_all add: p_string_esc cons_fst_def del: p_string.simps, simp)

lemma skip_ws_id [simp]: "s \<noteq> [] \<Longrightarrow> \<not> json_space (hd s) \<Longrightarrow> skip_ws s = s"
  by (cases s) (auto simp: skip_ws_def)

lemma quote_Cons: "quote s @ rest = CHR 0x22 # (concat (map esc_char s) @ CHR 0x22 # rest)"
  by (simp add: quote_def)

lemma skip_ws_Cons [simp]: "\<not> json_space c \<Longrightarrow> skip_ws (c # s) = c # s"
  by (simp add: skip_ws_def)

lemma json_space_simps [simp]:
  "\<not> json_space (CHR 0x22)" "\<not> json_space (CHR ''{'')" "\<not> json_space (CHR ''}'')"
  "\<not> json_space (CHR ''['')" "\<not> json_space (CHR '']'')" "\<not> json_space (CHR '','')"
  "\<not> json_space (CHR '':'')" "\<not> json_space (CHR ''n'')" "\<not> json_space (CHR ''t'')"
  "\<not> json_space (CHR ''f'')"
  by (simp_all add: json_space_def)

lemma num_char_not_struct:
  "num_char c \<Longrightarrow> c \<notin> {CHR 0x22, CHR ''{'', CHR ''}'', CHR ''['', CHR '']'', CHR '','', CHR '':'',
     CHR ''n'', CHR ''t'', CHR ''f''} \<and> \<not> json_space c"
  by (auto simp: num_char_def is_digit_def json_space_def)

lemma json_text_first:
  assumes "json_wf j"
  obtains c r where "json_text j = c # r" and "\<not> json_space c" and "c \<noteq> CHR '']''" and "c \<noteq> CHR ''}''"
proof (cases j)
  case (JNum lit)
  with assms have "lit \<noteq> []" and "list_all num_char lit"
    by (auto simp: num_ok_def trim_prefix_def Let_def)
  with JNum that num_char_not_struct show ?thesis by (cases lit) auto
next
  case (JBool b)
  with that show ?thesis by (cases b) auto
qed (use that in \<open>auto simp: quote_def\<close>)

lemma json_text_not_Nil: "json_wf j \<Longrightarrow> json_text j \<noteq> []"
  by (metis json_text_first list.distinct(1))

definition value_end :: "string \<Rightarrow> bool" where
  "value_end rest \<longleftrightarrow> rest = [] \<or> \<not> num_char (hd rest)"

lemma value_end_simps [simp]:
  "value_end []" "value_end (CHR '','' # r)" "value_end (CHR '']'' # r)" "value_end (CHR ''}'' # r)"
  by (auto simp: value_end_def num_char_def is_digit_def)

lemma p_number_text:
  assumes "num_ok lit" and "list_all num_char lit" and "value_end rest"
  shows "p_number (lit @ rest) = Some (JNum lit, rest)"
proof -
  have "takeWhile num_char rest = []" and "dropWhile num_char rest = rest"
    using assms(3) by (cases rest; simp add: value_end_def)+
  moreover have "\<And>x. x \<in> set lit \<Longrightarrow> num_char x"
    using assms(2) by (simp add: list_all_iff)
  ultimately show ?thesis
    using assms(1) by (simp add: p_number_def takeWhile_append2 dropWhile_append2)
qed

lemma p_value_num:
  assumes "num_ok lit" and "list_all num_char lit" and "value_end rest" and "lit \<noteq> []"
  shows "p_value (Suc n) (lit @ rest) = Some (JNum lit, rest)"
proof -
  obtain c r where lit: "lit = c # r" using assms(4) by (cases lit) auto
  with assms(2) have "num_char c" by simp
  from num_char_not_struct [OF this] have "p_value (Suc n) (lit @ rest) = p_number (lit @ rest)"
    by (simp add: lit)
  with assms(1-3) show ?thesis by (simp add: p_number_text)
qed

abbreviation reads_back :: "json \<Rightarrow> bool" where
  "reads_back j \<equiv> (\<forall>n rest. length (json_text j) \<le> n \<longrightarrow> value_end rest \<longrightarrow>
     p_value n (json_text j @ rest) = Some (j, rest))"

lemma p_elems_text:
  assumes "xs \<noteq> []" and "\<And>x. x \<in> set xs \<Longrightarrow> reads_back x"
    and "length (str_join '','' (map json_text xs)) < n"
  shows "p_elems n (str_join '','' (map json_text xs) @ CHR '']'' # rest) = Some (xs, rest)"
  using assms
proof (induction xs arbitrary: n)
  case (Cons x xs)
  from Cons.prems(3) obtain m where n: "n = Suc m" by (cases n) auto
  have x: "reads_back x" using Cons.prems(2) by simp
  show ?case
  proof (cases "xs = []")
    case True
    with Cons.prems(3) x n show ?thesis by simp
  next
    case False
    with Cons.prems have "p_elems m (str_join '','' (map json_text xs) @ CHR '']'' # rest) = Some (xs, rest)"
      by (intro Cons.IH) (auto simp: n str_join_Cons)
    with False Cons.prems(3) x show ?thesis by (simp add: n str_join_Cons)
  qed
qed simp

lemma p_members_text:
  assumes "ms \<noteq> []" and "\<And>k v. (k, v) \<in> set ms \<Longrightarrow> reads_back v"
    and "length (str_join '','' (map (\<lambda>(k, v). quote k @ '':'' @ json_text v) ms)) < n"
  shows "p_members n (str_join '','' (map (\<lambda>(k, v). quote k @ '':'' @ json_text v) ms) @ CHR ''}'' # rest)
      = Some (ms, rest)"
  using assms
proof (induction ms arbitrary: n)
  case (Cons p ms)
  obtain k v where p: "p = (k, v)" by (cases p)
  from Cons.prems(3) obtain m where n: "n = Suc m" by (cases n) auto
  have v: "reads_back v" using Cons.prems(2) [of k v] p by auto
  show ?case
  proof (cases "ms = []")
    case True
    with Cons.prems(3) v show ?thesis
      by (simp add: n p quote_def p_string_quoted)
  next
    case False
    with Cons.prems have "p_members m (str_join '','' (map (\<lambda>(k, v). quote k @ '':'' @ json_text v) ms)
        @ CHR ''}'' # rest) = Some (ms, rest)"
      by (intro Cons.IH) (auto simp: n str_join_Cons)
    with False Cons.prems(3) v show ?thesis
      by (simp add: n p quote_def p_string_quoted str_join_Cons)
  qed
qed simp

lemma str_join_hd:
  assumes "xs \<noteq> []" and "f (hd xs) = c # r"
  obtains t where "str_join sep (map f xs) @ rest = c # t"
  using assms by (cases xs; cases "tl xs") auto

theorem p_value_text: "json_wf j \<Longrightarrow> reads_back j"
proof (induction j)
  case (JArr xs)
  have el: "\<And>x. x \<in> set xs \<Longrightarrow> reads_back x"
    using JArr by (auto simp: list_all_iff)
  show ?case
  proof (intro allI impI)
    fix n rest assume len: "length (json_text (JArr xs)) \<le> n" and "value_end rest"
    then obtain m where n: "n = Suc m" by (cases n) auto
    show "p_value n (json_text (JArr xs) @ rest) = Some (JArr xs, rest)"
    proof (cases "xs = []")
      case False
      with JArr.prems have "json_wf (hd xs)" by (auto simp: list_all_iff)
      then obtain c r where c: "json_text (hd xs) = c # r" "\<not> json_space c" "c \<noteq> CHR '']''"
        by (rule json_text_first)
      obtain t where t: "str_join '','' (map json_text xs) @ CHR '']'' # rest = c # t"
        using str_join_hd [OF False, of json_text, OF c(1)] by metis
      have "p_elems m (c # t) = Some (xs, rest)"
        using p_elems_text [where n = m and rest = rest, OF False el] len by (simp add: n flip: t)
      with c show ?thesis by (simp add: n t del: p_elems.simps)
    qed (simp add: n)
  qed
next
  case (JObj ms)
  have el: "\<And>k v. (k, v) \<in> set ms \<Longrightarrow> reads_back v"
    using JObj by (fastforce simp: list_all_iff)
  show ?case
  proof (intro allI impI)
    fix n rest assume len: "length (json_text (JObj ms)) \<le> n" and "value_end rest"
    then obtain m where n: "n = Suc m" by (cases n) auto
    show "p_value n (json_text (JObj ms) @ rest) = Some (JObj ms, rest)"
    proof (cases "ms = []")
      case False
      let ?f = "\<lambda>(k, v). quote k @ CHR '':'' # json_text v"
      obtain r where "?f (hd ms) = CHR 0x22 # r"
        by (cases "hd ms") (simp add: quote_def)
      then obtain t where t: "str_join '','' (map ?f ms) @ CHR ''}'' # rest = CHR 0x22 # t"
        using str_join_hd [OF False, of ?f] by metis
      have "p_members m (CHR 0x22 # t) = Some (ms, rest)"
        using p_members_text [where n = m and rest = rest, OF False el] len by (simp add: n flip: t)
      then show ?thesis by (simp add: n t del: p_members.simps)
    qed (simp add: n)
  qed
next
  case (JNum lit)
  then have "lit \<noteq> []" "num_ok lit" "list_all num_char lit"
    using json_text_not_Nil [OF JNum] by auto
  note num = this
  show ?case
  proof (intro allI impI)
    fix n rest assume "length (json_text (JNum lit)) \<le> n" and rest: "value_end rest"
    with num(1) obtain m where "n = Suc m" by (cases n) auto
    with num rest show "p_value n (json_text (JNum lit) @ rest) = Some (JNum lit, rest)"
      by (simp add: p_value_num del: p_value.simps)
  qed
next
  case (JStr s)
  show ?case
    by (auto simp: quote_def Suc_le_eq p_string_quoted dest!: less_imp_Suc_add)
qed (auto simp: p_keyword_def has_prefix_def Suc_le_eq dest!: less_imp_Suc_add)

lemma p_value_whole:
  assumes "json_wf j"
  shows "p_value (Suc (length (json_text j))) (json_text j) = Some (j, [])"
proof -
  have "value_end [] \<longrightarrow>
      p_value (Suc (length (json_text j))) (json_text j @ []) = Some (j, [])"
    using p_value_text [OF assms] le_SucI [OF le_refl] by blast
  then show ?thesis by (simp only: value_end_simps append_Nil2 simp_thms)
qed

lemma parse_text: "json_wf j \<Longrightarrow> json_parse (json_text j) = Some j"
  by (simp add: json_parse_def skip_ws_def p_value_whole del: p_value.simps)

lemma decode_text: "json_wf j \<Longrightarrow> json_decode (json_text j) = Some j"
  by (simp add: json_decode_def p_value_whole del: p_value.simps)

section \<open>Only well-formed values are read\<close>

lemma p_number_wf: "p_number s = Some (v, r) \<Longrightarrow> json_wf v"
  by (auto simp: p_number_def Let_def list_all_iff dest: set_takeWhileD split: if_splits)

lemma p_wf:
  "(\<forall>s v r. p_value n s = Some (v, r) \<longrightarrow> json_wf v) \<and>
   (\<forall>s vs r. p_elems n s = Some (vs, r) \<longrightarrow> list_all json_wf vs) \<and>
   (\<forall>s ms r. p_members n s = Some (ms, r) \<longrightarrow> list_all (\<lambda>(k, v). json_wf v) ms)"
proof (induction n)
  case (Suc n)
  have v: "json_wf v" if "p_value (Suc n) s = Some (v, r)" for s v r
    using that Suc
    by (fastforce simp: p_keyword_def dest: p_number_wf split: list.splits if_splits)
  moreover have "list_all json_wf vs" if "p_elems (Suc n) s = Some (vs, r)" for s vs r
    using that Suc by (fastforce split: option.splits list.splits if_splits)
  moreover have "list_all (\<lambda>(k, v). json_wf v) ms" if "p_members (Suc n) s = Some (ms, r)" for s ms r
    using that Suc by (fastforce split: option.splits list.splits if_splits)
  ultimately show ?case by blast
qed simp

lemma parse_wf: "json_parse s = Some j \<Longrightarrow> json_wf j"
  using p_wf by (fastforce simp: json_parse_def simp del: p_value.simps split: option.splits if_splits)

lemma decode_wf: "json_decode s = Some j \<Longrightarrow> json_wf j"
  using p_wf by (fastforce simp: json_decode_def simp del: p_value.simps)

end
