(* ===== verification/JsonStruct.thy ===== *)
theory JsonStruct
  imports Json
begin

text \<open>
  How \<open>encoding/json\<close> reads a value into Go data. A decoder takes the value the variable holds
  and the JSON value, and gives what the variable holds afterwards together with the error: as in
  Go, the first mismatch is remembered, the rest is still read, and the error is returned at the
  end. \<open>null\<close> leaves strings, numbers and structs alone and sets maps and slices to
  \<open>nil\<close>. The texts of the type errors are not modelled.
\<close>

named_theorems json_simps \<open>encoders and decoders of the program's structs\<close>

type_synonym 'a decoder = "'a \<Rightarrow> json \<Rightarrow> 'a \<times> error option"

definition type_error :: error where
  "type_error = ErrText ''json: cannot unmarshal''"

definition syntax_error :: error where
  "syntax_error = ErrText ''invalid character''"

definition first_err :: "error option \<Rightarrow> error option \<Rightarrow> error option" where
  "first_err a b = (case a of None \<Rightarrow> b | Some e \<Rightarrow> Some e)"

lemma first_err_simps [simp, json_simps]:
  "first_err None b = b" "first_err (Some e) b = Some e" "first_err a None = a"
  by (simp_all add: first_err_def split: option.splits)

text \<open>An error other than a type error (one of an \<open>UnmarshalJSON\<close> method) ends the decoding at
  once, and is the one reported.\<close>

definition fatal :: "error option \<Rightarrow> bool" where
  "fatal e \<longleftrightarrow> e \<noteq> None \<and> e \<noteq> Some type_error"

definition join_err :: "error option \<Rightarrow> error option \<Rightarrow> error option" where
  "join_err a b = (if fatal b then b else first_err a b)"

lemma fatal_simps [simp, json_simps]: "\<not> fatal None" "\<not> fatal (Some type_error)"
  "join_err None b = b"
  by (simp_all add: fatal_def join_err_def)

definition into_string :: "string decoder" where
  "into_string old j =
     (case j of JStr s \<Rightarrow> (s, None) | JNull \<Rightarrow> (old, None) | _ \<Rightarrow> (old, Some type_error))"

definition into_bool :: "bool decoder" where
  "into_bool old j =
     (case j of JBool b \<Rightarrow> (b, None) | JNull \<Rightarrow> (old, None) | _ \<Rightarrow> (old, Some type_error))"

text \<open>\<open>int\<close> and \<open>int64\<close> are 64 bits wide; the literal must be an integer in range.\<close>

definition into_int64 :: "int decoder" where
  "into_int64 old j =
     (case j of
        JNum lit \<Rightarrow> (case parse_int 64 lit of Some i \<Rightarrow> (i, None) | None \<Rightarrow> (old, Some type_error))
      | JNull \<Rightarrow> (old, None)
      | _ \<Rightarrow> (old, Some type_error))"

text \<open>Values of type \<open>any\<close>: objects become maps, where the last of repeated keys wins.\<close>

fun into_any :: "json \<Rightarrow> json" where
  "into_any (JArr xs) = JArr (map into_any xs)"
| "into_any (JObj ms) = JObj (go_put_all (map (\<lambda>(k, v). (k, into_any v)) ms) [])"
| "into_any j = j"

text \<open>A map: the entries are added to the map the variable holds; an entry of the wrong type is
  stored as the zero value.\<close>

fun put_members :: "'a decoder \<Rightarrow> 'a \<Rightarrow> (string \<times> json) list \<Rightarrow> 'a gomap \<Rightarrow> 'a gomap \<times> error option" where
  "put_members d zero [] m = (m, None)"
| "put_members d zero ((k, j) # ms) m =
     (let (v, e1) = d zero j
      in if fatal e1 then (m, e1)
         else let (m', e2) = put_members d zero ms (go_put k v m) in (m', join_err e1 e2))"

definition into_map :: "'a decoder \<Rightarrow> 'a \<Rightarrow> 'a gomap option decoder" where
  "into_map d zero old j =
     (case j of
        JObj ms \<Rightarrow> (let (m, e) = put_members d zero ms (case old of None \<Rightarrow> [] | Some m \<Rightarrow> m)
                    in (Some m, e))
      | JNull \<Rightarrow> (None, None)
      | _ \<Rightarrow> (old, Some type_error))"

definition into_strmap :: "string gomap option decoder" where
  "into_strmap = into_map into_string []"

definition into_anymap :: "json gomap option decoder" where
  "into_anymap = into_map (\<lambda>_ j. (into_any j, None)) JNull"

text \<open>A slice: every element is read into a zero element.\<close>

fun read_elems :: "'a decoder \<Rightarrow> 'a \<Rightarrow> json list \<Rightarrow> 'a list \<times> error option" where
  "read_elems d zero [] = ([], None)"
| "read_elems d zero (j # js) =
     (let (x, e1) = d zero j
      in if fatal e1 then ([x], e1)
         else let (xs, e2) = read_elems d zero js in (x # xs, join_err e1 e2))"

definition into_slice :: "'a decoder \<Rightarrow> 'a \<Rightarrow> 'a list option decoder" where
  "into_slice d zero old j =
     (case j of
        JArr js \<Rightarrow> (let (xs, e) = read_elems d zero js in (Some xs, e))
      | JNull \<Rightarrow> (None, None)
      | _ \<Rightarrow> (old, Some type_error))"

text \<open>A struct: each member goes to the field whose name it matches, ignoring case; members that
  match no field are skipped. The field function gives \<open>None\<close> for no match.\<close>

definition lower_char :: "char \<Rightarrow> char" where
  "lower_char c = (if 65 \<le> (of_char c :: nat) \<and> (of_char c :: nat) \<le> 90
     then char_of (of_char c + 32 :: nat) else c)"

definition fold_eq :: "string \<Rightarrow> string \<Rightarrow> bool" where
  "fold_eq a b \<longleftrightarrow> map lower_char a = map lower_char b"

fun read_fields :: "('a \<Rightarrow> string \<Rightarrow> json \<Rightarrow> ('a \<times> error option)) \<Rightarrow> 'a \<Rightarrow> (string \<times> json) list
    \<Rightarrow> 'a \<times> error option" where
  "read_fields f r [] = (r, None)"
| "read_fields f r ((k, j) # ms) =
     (let (r1, e1) = f r k j
      in if fatal e1 then (r1, e1)
         else let (r2, e2) = read_fields f r1 ms in (r2, join_err e1 e2))"

definition into_struct :: "('a \<Rightarrow> string \<Rightarrow> json \<Rightarrow> ('a \<times> error option)) \<Rightarrow> 'a decoder" where
  "into_struct f old j =
     (case j of
        JObj ms \<Rightarrow> read_fields f old ms
      | JNull \<Rightarrow> (old, None)
      | _ \<Rightarrow> (old, Some type_error))"

text \<open>\<open>json.Unmarshal(b, &x)\<close> and \<open>json.NewDecoder(r).Decode(&x)\<close> with \<open>x\<close> holding \<open>old\<close>.\<close>

definition unmarshal :: "'a decoder \<Rightarrow> 'a \<Rightarrow> bytes \<Rightarrow> 'a \<times> error option" where
  "unmarshal d old b =
     (case json_parse b of None \<Rightarrow> (old, Some syntax_error) | Some j \<Rightarrow> d old j)"

definition decode :: "'a decoder \<Rightarrow> 'a \<Rightarrow> bytes \<Rightarrow> 'a \<times> error option" where
  "decode d old b =
     (case json_decode b of None \<Rightarrow> (old, Some syntax_error) | Some j \<Rightarrow> d old j)"

section \<open>Encoders of Go data\<close>

text \<open>\<open>nil\<close> maps and slices are written as \<open>null\<close>.\<close>

definition enc_strmap :: "string gomap option \<Rightarrow> json" where
  "enc_strmap m = (case m of None \<Rightarrow> JNull | Some m \<Rightarrow> JObj (map (\<lambda>(k, v). (k, JStr v)) m))"

definition enc_anymap :: "json gomap option \<Rightarrow> json" where
  "enc_anymap m = (case m of None \<Rightarrow> JNull | Some m \<Rightarrow> JObj m)"

definition enc_int :: "int \<Rightarrow> json" where
  "enc_int i = JNum (itoa i)"

definition enc_slice :: "('a \<Rightarrow> json) \<Rightarrow> 'a list option \<Rightarrow> json" where
  "enc_slice f xs = (case xs of None \<Rightarrow> JNull | Some xs \<Rightarrow> JArr (map f xs))"

section \<open>Reading back what was written\<close>

lemma into_string_JStr [simp, json_simps]: "into_string old (JStr s) = (s, None)"
  by (simp add: into_string_def)

lemma into_int64_enc_int [simp, json_simps]:
  "- (2 ^ 63) \<le> i \<Longrightarrow> i < 2 ^ 63 \<Longrightarrow> into_int64 old (enc_int i) = (i, None)"
  by (simp add: into_int64_def enc_int_def parse_int_itoa)

lemma put_fresh: "k \<notin> set (map fst m) \<Longrightarrow> go_put k v m = m @ [(k, v)]"
  unfolding go_put_def by (induction m) auto

lemma put_members_append:
  assumes "gomap_ok (m @ ms)" and "\<And>k v. (k, v) \<in> set ms \<Longrightarrow> d zero (f v) = (v, None)"
  shows "put_members d zero (map (\<lambda>(k, v). (k, f v)) ms) m = (m @ ms, None)"
  using assms
proof (induction ms arbitrary: m)
  case (Cons p ms)
  obtain k v where p: "p = (k, v)" by (cases p)
  with Cons.prems(1) have "k \<notin> set (map fst m)" by (auto simp: gomap_ok_def)
  moreover have "d zero (f v) = (v, None)" using Cons.prems(2) [of k v] p by simp
  moreover have "put_members d zero (map (\<lambda>(k, v). (k, f v)) ms) (m @ [p]) = ((m @ [p]) @ ms, None)"
    using Cons.prems by (intro Cons.IH) auto
  ultimately show ?case by (simp add: p put_fresh)
qed simp

definition strmap_ok :: "string gomap option \<Rightarrow> bool" where
  "strmap_ok m \<longleftrightarrow> (case m of None \<Rightarrow> True | Some m \<Rightarrow> gomap_ok m)"

lemma into_strmap_enc_strmap [simp, json_simps]:
  assumes "strmap_ok m"
  shows "into_strmap None (enc_strmap m) = (m, None)"
proof (cases m)
  case (Some ms)
  with assms have "put_members into_string [] (map (\<lambda>(k, v). (k, JStr v)) ms) [] = ([] @ ms, None)"
    by (intro put_members_append) (simp_all add: strmap_ok_def)
  with Some show ?thesis by (simp add: into_strmap_def into_map_def enc_strmap_def)
qed (simp add: into_strmap_def into_map_def enc_strmap_def)

text \<open>An \<open>any\<close> value is plain when no object in it repeats a key: what decoding produces.\<close>

fun any_ok :: "json \<Rightarrow> bool" where
  "any_ok (JArr xs) \<longleftrightarrow> list_all any_ok xs"
| "any_ok (JObj ms) \<longleftrightarrow> gomap_ok ms \<and> list_all (\<lambda>(k, v). any_ok v) ms"
| "any_ok j \<longleftrightarrow> True"

lemma go_put_all_fresh: "gomap_ok (m @ ms) \<Longrightarrow> go_put_all ms m = m @ ms"
proof (induction ms arbitrary: m)
  case (Cons p ms)
  obtain k v where p: "p = (k, v)" by (cases p)
  from Cons.prems p have "k \<notin> set (map fst m)" by (auto simp: gomap_ok_def)
  moreover have "go_put_all ms (m @ [p]) = (m @ [p]) @ ms" using Cons by simp
  ultimately show ?case by (simp add: p put_fresh)
qed simp

lemma into_any_id: "any_ok j \<Longrightarrow> into_any j = j"
proof (induction j)
  case (JArr xs)
  then show ?case by (auto simp: list_all_iff intro: map_idI)
next
  case (JObj ms)
  then have "map (\<lambda>(k, v). (k, into_any v)) ms = ms"
    by (intro map_idI) (fastforce simp: list_all_iff)
  with JObj.prems show ?case by (simp add: go_put_all_fresh)
qed simp_all

definition anymap_ok :: "json gomap option \<Rightarrow> bool" where
  "anymap_ok m \<longleftrightarrow> (case m of None \<Rightarrow> True | Some m \<Rightarrow> any_ok (JObj m))"

lemma into_anymap_enc_anymap [simp, json_simps]:
  assumes "anymap_ok m"
  shows "into_anymap None (enc_anymap m) = (m, None)"
proof (cases m)
  case (Some ms)
  with assms have "put_members (\<lambda>_ j. (into_any j, None)) JNull (map (\<lambda>(k, v). (k, id v)) ms) [] = ([] @ ms, None)"
    by (intro put_members_append) (auto simp: anymap_ok_def list_all_iff into_any_id)
  with Some show ?thesis by (simp add: into_anymap_def into_map_def enc_anymap_def)
qed (simp add: into_anymap_def into_map_def enc_anymap_def)

lemma read_elems_map:
  "(\<And>x. x \<in> set xs \<Longrightarrow> d zero (f x) = (x, None)) \<Longrightarrow> read_elems d zero (map f xs) = (xs, None)"
  by (induction xs) simp_all

lemma into_slice_enc_slice [json_simps]:
  "(\<And>x. x \<in> set (case xs of None \<Rightarrow> [] | Some ys \<Rightarrow> ys) \<Longrightarrow> d zero (f x) = (x, None)) \<Longrightarrow>
   into_slice d zero None (enc_slice f xs) = (xs, None)"
  by (cases xs) (simp_all add: into_slice_def enc_slice_def read_elems_map)

lemma decode_json_text [json_simps]: "json_wf j \<Longrightarrow> decode d old (json_text j) = d old j"
  by (simp add: decode_def decode_text)

lemma unmarshal_text [json_simps]: "json_wf j \<Longrightarrow> unmarshal d old (json_text j) = d old j"
  by (simp add: unmarshal_def parse_text)

section \<open>Written values are well formed\<close>

lemma list_all_digit_num_char: "list_all is_digit s \<Longrightarrow> list_all num_char s"
  by (auto simp: list_all_iff num_char_def)

lemma digit_char_zero: "d < 10 \<Longrightarrow> digit_char d = CHR ''0'' \<Longrightarrow> d = 0"
  using digit_char_props(2) [of d] by (simp add: digit_val_def)

lemma nat_dec_hd: "hd (nat_dec n) = CHR ''0'' \<longrightarrow> length (nat_dec n) = 1"
proof (induction n rule: nat_dec.induct)
  case (1 n)
  show ?case
  proof (cases "n < 10")
    case False
    have "hd (nat_dec m) \<noteq> CHR ''0''" if "0 < m" for m
      using that
    proof (induction m rule: nat_dec.induct)
      case (1 m)
      then show ?case
        by (subst nat_dec.simps)
          (auto simp: hd_append dest: digit_char_zero)
    qed
    from this [of n] False show ?thesis by simp
  qed (subst nat_dec.simps, simp add: nat_dec.simps)
qed

lemma num_ok_nat_dec: "num_ok (nat_dec n)"
proof -
  have all: "takeWhile is_digit (nat_dec n) = nat_dec n" "dropWhile is_digit (nat_dec n) = []"
    using nat_dec_digits [of n] by (simp_all add: takeWhile_eq_all_conv list_all_iff)
  have "trim_prefix ''-'' (nat_dec n) = nat_dec n"
    using nat_dec_no_sign(1) [of n] by (simp add: trim_prefix_def)
  with nat_dec_hd [of n] show ?thesis by (simp add: num_ok_def num_frac_def Let_def all)
qed

lemma num_ok_itoa: "num_ok (itoa i)"
proof (cases "i < 0")
  case True
  let ?d = "nat_dec (nat (- i))"
  have "trim_prefix ''-'' (itoa i) = ?d" using True by (simp add: itoa_def trim_prefix_single)
  moreover have "trim_prefix ''-'' ?d = ?d"
    using nat_dec_no_sign(1) by (simp add: trim_prefix_def)
  ultimately show ?thesis
    using num_ok_nat_dec [of "nat (- i)"] by (simp add: num_ok_def)
qed (simp add: itoa_def num_ok_nat_dec)

lemma json_wf_enc_int [simp]: "json_wf (enc_int i)"
proof -
  have "list_all num_char (itoa i)"
    using list_all_digit_num_char [OF nat_dec_digits] by (simp add: itoa_def num_char_def)
  then show ?thesis by (simp add: enc_int_def num_ok_itoa)
qed

lemma json_wf_enc_strmap [simp]: "json_wf (enc_strmap m)"
  by (cases m) (auto simp: enc_strmap_def list_all_iff)

lemma json_wf_enc_slice [intro]:
  "(\<And>x. x \<in> set (case xs of None \<Rightarrow> [] | Some ys \<Rightarrow> ys) \<Longrightarrow> json_wf (f x)) \<Longrightarrow> json_wf (enc_slice f xs)"
  by (cases xs) (auto simp: enc_slice_def list_all_iff)

lemma json_wf_enc_anymap [simp]:
  "json_wf (enc_anymap m) \<longleftrightarrow> (case m of None \<Rightarrow> True | Some ms \<Rightarrow> json_wf (JObj ms))"
  by (cases m) (auto simp: enc_anymap_def)

section \<open>What decoding keeps\<close>

lemma list_all_go_put: "list_all (\<lambda>(k, v). P v) m \<Longrightarrow> P v \<Longrightarrow> list_all (\<lambda>(k, v). P v) (go_put k v m)"
  unfolding go_put_def by (induction m) auto

lemma list_all_go_put_all:
  "list_all (\<lambda>(k, v). P v) src \<Longrightarrow> list_all (\<lambda>(k, v). P v) dst \<Longrightarrow> list_all (\<lambda>(k, v). P v) (go_put_all src dst)"
  by (induction src dst rule: go_put_all.induct) (auto intro: list_all_go_put)

lemma into_any_wf: "json_wf j \<Longrightarrow> json_wf (into_any j)"
proof (induction j)
  case (JObj ms)
  then have "list_all (\<lambda>(k, v). json_wf v) (map (\<lambda>(k, v). (k, into_any v)) ms)"
    by (fastforce simp: list_all_iff)
  then show ?case by (simp add: list_all_go_put_all)
qed (auto simp: list_all_iff)

lemma into_any_plain: "any_ok (into_any j)"
proof (induction j)
  case (JObj ms)
  then have "list_all (\<lambda>(k, v). any_ok v) (map (\<lambda>(k, v). (k, into_any v)) ms)"
    by (fastforce simp: list_all_iff)
  then show ?case by (simp add: list_all_go_put_all)
qed (auto simp: list_all_iff)

definition anymap_wf :: "json gomap option \<Rightarrow> bool" where
  "anymap_wf m \<longleftrightarrow> anymap_ok m \<and> json_wf (enc_anymap m)"

lemma put_members_keeps:
  assumes "gomap_ok m" and "list_all (\<lambda>(k, v). P v) m" and "\<And>k j. (k, j) \<in> set ms \<Longrightarrow> P (fst (d zero j))"
  shows "gomap_ok (fst (put_members d zero ms m)) \<and> list_all (\<lambda>(k, v). P v) (fst (put_members d zero ms m))"
  using assms
proof (induction ms arbitrary: m)
  case (Cons p ms)
  obtain k j where p: "p = (k, j)" by (cases p)
  obtain v e where v: "d zero j = (v, e)" by (cases "d zero j")
  have "P v" using Cons.prems(3) [of k j] p v by simp
  then have "gomap_ok (fst (put_members d zero ms (go_put k v m))) \<and>
      list_all (\<lambda>(k, v). P v) (fst (put_members d zero ms (go_put k v m)))"
    using Cons.prems by (intro Cons.IH) (auto intro: list_all_go_put)
  with Cons.prems(1,2) show ?case by (auto simp: p v Let_def split: prod.split)
qed simp

lemma into_strmap_keeps: "strmap_ok old \<Longrightarrow> strmap_ok (fst (into_strmap old j))"
  using put_members_keeps [where P = "\<lambda>_. True" and m = "case old of None \<Rightarrow> [] | Some m \<Rightarrow> m"]
  by (auto simp: into_strmap_def into_map_def strmap_ok_def case_prod_beta list_all_iff split: json.split option.splits)

lemma into_anymap_keeps: 
  assumes "anymap_wf old" "json_wf j"
  shows "anymap_wf (fst (into_anymap old j))"
proof (cases j)
  case (JObj ms)
  let ?m = "case old of None \<Rightarrow> [] | Some m \<Rightarrow> m"
  let ?r = "fst (put_members (\<lambda>_ j. (into_any j, None)) JNull ms ?m)"
  have m: "gomap_ok ?m" "list_all (\<lambda>(k, v). any_ok v \<and> json_wf v) ?m"
    using assms(1) by (auto simp: anymap_wf_def anymap_ok_def enc_anymap_def list_all_iff split: option.splits)
  have "any_ok (into_any j) \<and> json_wf (into_any j)" if "(k, j) \<in> set ms" for k j
    using that assms(2) JObj by (auto simp: list_all_iff intro: into_any_plain into_any_wf)
  from put_members_keeps [OF m, where d = "\<lambda>_ j. (into_any j, None)" and zero = JNull and ms = ms] this
  have "gomap_ok ?r \<and> list_all (\<lambda>(k, v). any_ok v \<and> json_wf v) ?r" by simp
  then show ?thesis
    by (auto simp: JObj into_anymap_def into_map_def anymap_wf_def anymap_ok_def enc_anymap_def
        case_prod_beta list_all_iff)
qed (use assms in \<open>simp_all add: into_anymap_def into_map_def anymap_wf_def anymap_ok_def enc_anymap_def\<close>)

lemma read_fields_keeps:
  assumes "\<And>r k j. json_wf j \<Longrightarrow> I r \<Longrightarrow> I (fst (f r k j))" and "I r" and "list_all (\<lambda>(k, v). json_wf v) ms"
  shows "I (fst (read_fields f r ms))"
  using assms(2,3)
proof (induction ms arbitrary: r)
  case (Cons p ms)
  obtain k j where p: "p = (k, j)" by (cases p)
  have "I (fst (f r k j))" using assms(1) Cons.prems p by simp
  then show ?case using Cons by (simp add: p case_prod_beta Let_def)
qed simp

lemma into_struct_keeps:
  assumes "\<And>r k j. json_wf j \<Longrightarrow> I r \<Longrightarrow> I (fst (f r k j))" and "I r" and "json_wf j"
  shows "I (fst (into_struct f r j))"
  using assms(2,3) read_fields_keeps [of I f, OF assms(1)]
  by (auto simp: into_struct_def split: json.split)

lemma decode_keeps:
  assumes "\<And>j. json_wf j \<Longrightarrow> I (fst (d old j))" and "I old"
  shows "I (fst (decode d old b))"
  using assms decode_wf by (auto simp: decode_def split: option.split)

lemma read_elems_all: "(\<And>j. j \<in> set js \<Longrightarrow> P (fst (d zero j))) \<Longrightarrow> list_all P (fst (read_elems d zero js))"
  by (induction js) (simp_all add: case_prod_beta Let_def)

lemma into_slice_all:
  assumes "list_all P (case old of None \<Rightarrow> [] | Some l \<Rightarrow> l)" and "\<And>j. json_wf j \<Longrightarrow> P (fst (d zero j))" and "json_wf j"
  shows "list_all P (case fst (into_slice d zero old j) of None \<Rightarrow> [] | Some l \<Rightarrow> l)"
proof (cases j)
  case (JArr js)
  with assms(2,3) have "list_all P (fst (read_elems d zero js))"
    by (intro read_elems_all) (auto simp: list_all_iff)
  with JArr show ?thesis by (simp add: into_slice_def case_prod_beta)
qed (use assms(1) in \<open>simp_all add: into_slice_def\<close>)

end
