(* ===== verification/Http.thy ===== *)
theory Http
  imports Prelude
begin

text \<open>
  What the program uses of \<open>net/http\<close>: header maps with canonical keys, and the response a
  handler writes through \<open>http.ResponseWriter\<close>. The first \<open>WriteHeader\<close> (or \<open>Write\<close>) fixes
  the status and the headers; later ones change neither.
\<close>

named_theorems http_simps \<open>evaluation of response writers\<close>

section \<open>Headers\<close>

type_synonym header = "string list gomap"

definition token_char :: "char \<Rightarrow> bool" where
  "token_char c \<longleftrightarrow>
     (let n = of_char c :: nat
      in 48 \<le> n \<and> n \<le> 57 \<or> 65 \<le> n \<and> n \<le> 90 \<or> 97 \<le> n \<and> n \<le> 122 \<or>
         n \<in> {33, 35, 36, 37, 38, 39, 42, 43, 45, 46, 94, 95, 96, 124, 126})"

definition ascii_lower :: "char \<Rightarrow> char" where
  "ascii_lower c = (let n = of_char c :: nat in if 65 \<le> n \<and> n \<le> 90 then char_of (n + 32) else c)"

definition ascii_upper :: "char \<Rightarrow> char" where
  "ascii_upper c = (let n = of_char c :: nat in if 97 \<le> n \<and> n \<le> 122 then char_of (n - 32) else c)"

fun canon_words :: "bool \<Rightarrow> string \<Rightarrow> string" where
  "canon_words up [] = []"
| "canon_words up (c # s) =
     (if up then ascii_upper c else ascii_lower c) # canon_words (c = CHR ''-'') s"

text \<open>\<open>textproto.CanonicalMIMEHeaderKey\<close>: a key with a byte no header field may hold is kept.\<close>

definition canonical_key :: "string \<Rightarrow> string" where
  "canonical_key k = (if list_all token_char k then canon_words True k else k)"

definition header_set :: "string \<Rightarrow> string \<Rightarrow> header \<Rightarrow> header" where
  "header_set k v h = go_put (canonical_key k) [v] h"

definition header_get :: "header \<Rightarrow> string \<Rightarrow> string" where
  "header_get h k =
     (case go_get h (canonical_key k) of Some (v # _) \<Rightarrow> v | _ \<Rightarrow> [])"

definition header_del :: "string \<Rightarrow> header \<Rightarrow> header" where
  "header_del k h = go_delete (canonical_key k) h"

lemma header_get_set [simp, http_simps]:
  "header_get (header_set k v h) k' = (if canonical_key k' = canonical_key k then v else header_get h k')"
  by (simp add: header_get_def header_set_def)

section \<open>Responses\<close>

text \<open>\<open>hdr\<close> is the live header map, \<open>committed\<close> the status and headers sent, \<open>body\<close> the bytes and
  \<open>explicit\<close> the codes of all calls of \<open>WriteHeader\<close>, those without effect included: a writer that
  wraps this one sees them, but not the implicit 200 of a \<open>Write\<close>.\<close>

record response =
  hdr :: header
  committed :: "(nat \<times> header) option"
  body :: bytes
  explicit :: "nat list"

definition new_response :: response where
  "new_response = \<lparr>hdr = [], committed = None, body = [], explicit = []\<rparr>"

definition set_header :: "string \<Rightarrow> string \<Rightarrow> response \<Rightarrow> response" where
  "set_header k v r = r\<lparr>hdr := header_set k v (hdr r)\<rparr>"

definition commit :: "nat \<Rightarrow> response \<Rightarrow> response" where
  "commit code r =
     (case committed r of None \<Rightarrow> r\<lparr>committed := Some (code, hdr r)\<rparr> | Some _ \<Rightarrow> r)"

definition write_header :: "nat \<Rightarrow> response \<Rightarrow> response" where
  "write_header code r = (let r' = commit code r in r'\<lparr>explicit := explicit r' @ [code]\<rparr>)"

definition write_body :: "bytes \<Rightarrow> response \<Rightarrow> response" where
  "write_body b r = (let r' = commit 200 r in r'\<lparr>body := body r' @ b\<rparr>)"

text \<open>\<open>http.Error\<close>\<close>

definition http_error :: "string \<Rightarrow> nat \<Rightarrow> response \<Rightarrow> response" where
  "http_error msg code r =
     write_body (msg @ [CHR 0x0A])
       (write_header code
         (r\<lparr>hdr := header_set ''X-Content-Type-Options'' ''nosniff''
                   (header_set ''Content-Type'' ''text/plain; charset=utf-8''
                     (header_del ''Content-Length'' (hdr r)))\<rparr>))"

text \<open>What the server sends when the handler has returned.\<close>

definition status_of :: "response \<Rightarrow> nat" where
  "status_of r = (case committed r of None \<Rightarrow> 200 | Some (code, _) \<Rightarrow> code)"

lemma committed_new [simp, http_simps]:
  "committed new_response = None" "body new_response = []" "hdr new_response = []"
  "explicit new_response = []"
  by (simp_all add: new_response_def)

lemma set_header_simps [simp, http_simps]:
  "committed (set_header k v r) = committed r" "body (set_header k v r) = body r"
  "status_of (set_header k v r) = status_of r" "explicit (set_header k v r) = explicit r"
  by (simp_all add: set_header_def status_of_def)

lemma commit_simps [simp, http_simps]:
  "committed r = None \<Longrightarrow> committed (commit code r) = Some (code, hdr r)"
  "committed r = Some c \<Longrightarrow> commit code r = r"
  "status_of (commit code r) = (if committed r = None then code else status_of r)"
  "body (commit code r) = body r" "explicit (commit code r) = explicit r" "hdr (commit code r) = hdr r"
  by (simp_all add: commit_def status_of_def split: option.splits)

lemma write_header_simps [simp, http_simps]:
  "committed r = None \<Longrightarrow> committed (write_header code r) = Some (code, hdr r)"
  "committed r = Some c \<Longrightarrow> committed (write_header code r) = Some c"
  "status_of (write_header code r) = (if committed r = None then code else status_of r)"
  "body (write_header code r) = body r" "explicit (write_header code r) = explicit r @ [code]"
  "hdr (write_header code r) = hdr r"
  by (simp_all add: write_header_def Let_def status_of_def commit_def split: option.splits)

lemma write_body_simps [simp, http_simps]:
  "status_of (write_body b r) = (if committed r = None then 200 else status_of r)"
  "committed r = Some c \<Longrightarrow> committed (write_body b r) = Some c"
  "body (write_body b r) = body r @ b" "explicit (write_body b r) = explicit r"
  by (simp_all add: write_body_def Let_def status_of_def commit_def split: option.splits)

lemma committed_write_header: "committed (write_header code r) \<noteq> None"
  by (simp add: write_header_def Let_def commit_def split: option.splits)

lemma committed_http_error:
  "committed (http_error msg code r) \<noteq> None"
proof -
  have "committed (write_body b r') \<noteq> None" if "committed r' \<noteq> None" for b r'
    using that by (cases "committed r'") simp_all
  from this [OF committed_write_header] show ?thesis unfolding http_error_def .
qed

lemma http_error_simps [simp, http_simps]:
  "status_of (http_error msg code r) = (if committed r = None then code else status_of r)"
  "body (http_error msg code r) = body r @ msg @ [CHR 0x0A]"
  "explicit (http_error msg code r) = explicit r @ [code]"
proof -
  let ?r = "write_header code (r\<lparr>hdr := header_set ''X-Content-Type-Options'' ''nosniff''
      (header_set ''Content-Type'' ''text/plain; charset=utf-8'' (header_del ''Content-Length'' (hdr r)))\<rparr>)"
  have e: "http_error msg code r = write_body (msg @ [CHR 0x0A]) ?r" by (simp only: http_error_def)
  have c: "committed ?r \<noteq> None" by (rule committed_write_header)
  have s: "status_of (r\<lparr>hdr := h\<rparr>) = status_of r" for h by (simp add: status_of_def)
  show "status_of (http_error msg code r) = (if committed r = None then code else status_of r)"
    unfolding e write_body_simps(1) if_not_P [OF c] by (simp add: s)
  show "body (http_error msg code r) = body r @ msg @ [CHR 0x0A]"
    "explicit (http_error msg code r) = explicit r @ [code]"
    unfolding e by simp_all
qed

section \<open>A writer that remembers the status\<close>

text \<open>The code a wrapping writer has kept: the one of the last call, 200 when there was none. It is
  the status that was sent when the handler calls \<open>WriteHeader\<close> at most once, and before the body.\<close>

definition recorded :: "response \<Rightarrow> nat" where
  "recorded r = (if explicit r = [] then 200 else last (explicit r))"

lemma recorded_simps [simp, http_simps]:
  "recorded new_response = 200" "recorded (write_header code r) = code" "recorded (http_error msg code r) = code"
  "recorded (write_body b r) = recorded r" "recorded (set_header k v r) = recorded r"
  by (simp_all add: recorded_def)

end
