(* ===== verification/Topicutils.thy ===== *)
theory Topicutils
  imports Prelude
begin

text \<open>
  \<open>pkg/topicutils/sanitize.go\<close>: topic and subscription names made to follow the naming rules of
  Google Cloud Pub/Sub. The regular expressions are modelled on bytes: a character outside
  ASCII is several bytes, each replaced by a hyphen, and the next step collapses the hyphens,
  so the result is that of the code, which replaces the character as one.
\<close>

definition is_upper :: "char \<Rightarrow> bool" where
  "is_upper c \<longleftrightarrow> 65 \<le> (of_char c :: nat) \<and> (of_char c :: nat) \<le> 90"

definition is_lower :: "char \<Rightarrow> bool" where
  "is_lower c \<longleftrightarrow> 97 \<le> (of_char c :: nat) \<and> (of_char c :: nat) \<le> 122"

text \<open>\<open>unicode.IsLetter\<close> on a byte: the ASCII letters, and the letters among U+0080 to U+00FF.\<close>

definition is_letter :: "char \<Rightarrow> bool" where
  "is_letter c \<longleftrightarrow> is_upper c \<or> is_lower c \<or>
     (let n = of_char c :: nat in n \<in> {170, 181, 186} \<or> 192 \<le> n \<and> n \<noteq> 215 \<and> n \<noteq> 247)"

definition valid_char :: "char \<Rightarrow> bool" where
  "valid_char c \<longleftrightarrow> is_upper c \<or> is_lower c \<or> is_digit c \<or> c = CHR ''-'' \<or> c = CHR ''_''"

text \<open>\<open>invalidCharsRegex.ReplaceAllString(name, "-")\<close> and
  \<open>consecutiveHyphensRegex.ReplaceAllString(s, "-")\<close>.\<close>

definition replace_invalid :: "string \<Rightarrow> string" where
  "replace_invalid s = map (\<lambda>c. if valid_char c then c else CHR ''-'') s"

fun collapse_hyphens :: "string \<Rightarrow> string" where
  "collapse_hyphens (x # y # s) =
     (if x = CHR ''-'' \<and> y = CHR ''-'' then collapse_hyphens (y # s)
      else x # collapse_hyphens (y # s))"
| "collapse_hyphens s = s"

definition SanitizeTopicName :: "string \<Rightarrow> string" where
  "SanitizeTopicName name =
     (let s1 = replace_invalid name;
          s2 = collapse_hyphens s1;
          s3 = trim_char (CHR ''-'') s2
      in if s3 = [] then ''topic''
         else
           let s4 = (if \<not> is_letter (hd s3) then ''topic-'' @ s3 else s3);
               s5 = (if length s4 < 3 then ''topic-'' @ s4 else s4);
               s6 = (if length s5 > 255 then take 255 s5 else s5)
           in trim_suffix ''-'' s6)"

definition BuildTopicName :: "string \<Rightarrow> string \<Rightarrow> string" where
  "BuildTopicName projectID event = SanitizeTopicName (projectID @ ''-'' @ event)"

definition BuildSubscriptionName :: "string \<Rightarrow> string" where
  "BuildSubscriptionName topicName =
     (if topicName = [] then ''topic-subscription''
      else SanitizeTopicName (topicName @ ''-subscription''))"

section \<open>The naming rules\<close>

text \<open>A name the service accepts: 3 to 255 bytes of the allowed characters, the first a letter.
  The code also promises no repeated hyphen and none at the end.\<close>

fun no_double_hyphen :: "string \<Rightarrow> bool" where
  "no_double_hyphen (x # y # s) \<longleftrightarrow> \<not> (x = CHR ''-'' \<and> y = CHR ''-'') \<and> no_double_hyphen (y # s)"
| "no_double_hyphen _ \<longleftrightarrow> True"

definition topic_ok :: "string \<Rightarrow> bool" where
  "topic_ok s \<longleftrightarrow>
     3 \<le> length s \<and> length s \<le> 255 \<and> list_all valid_char s \<and>
     (is_upper (hd s) \<or> is_lower (hd s)) \<and> no_double_hyphen s \<and> last s \<noteq> CHR ''-''"

lemma list_all_replace_invalid [simp]: "list_all valid_char (replace_invalid s)"
  by (auto simp: replace_invalid_def list_all_iff valid_char_def)

lemma set_collapse: "set (collapse_hyphens s) \<subseteq> set s"
  by (induction s rule: collapse_hyphens.induct) auto

lemma collapse_hd: "s \<noteq> [] \<Longrightarrow> collapse_hyphens s \<noteq> [] \<and> hd (collapse_hyphens s) = hd s"
  by (induction s rule: collapse_hyphens.induct) auto

lemma no_double_Cons:
  "no_double_hyphen (x # s) \<longleftrightarrow> (s = [] \<or> \<not> (x = CHR ''-'' \<and> hd s = CHR ''-'')) \<and> no_double_hyphen s"
  by (cases s) auto

lemma no_double_collapse: "no_double_hyphen (collapse_hyphens s)"
proof (induction s rule: collapse_hyphens.induct)
  case (1 x y s)
  then show ?case using collapse_hd [of "y # s"] by (auto simp: no_double_Cons)
qed auto

lemma collapse_id: "no_double_hyphen s \<Longrightarrow> collapse_hyphens s = s"
  by (induction s rule: collapse_hyphens.induct) auto

lemma no_double_append:
  "no_double_hyphen (xs @ ys) \<longleftrightarrow> no_double_hyphen xs \<and> no_double_hyphen ys \<and>
     (xs = [] \<or> ys = [] \<or> \<not> (last xs = CHR ''-'' \<and> hd ys = CHR ''-''))"
  by (induction xs) (auto simp: no_double_Cons)

lemma no_double_take: "no_double_hyphen s \<Longrightarrow> no_double_hyphen (take n s)"
  by (metis append_take_drop_id no_double_append)

lemma no_double_drop: "no_double_hyphen s \<Longrightarrow> no_double_hyphen (drop n s)"
  by (metis append_take_drop_id no_double_append)

lemma trim_char_decomp:
  obtains a b where "s = a @ trim_char c s @ b" and "set a \<subseteq> {c}" and "set b \<subseteq> {c}"
proof -
  let ?P = "\<lambda>x. x = c"
  let ?d = "dropWhile ?P s"
  have set: "set (takeWhile ?P xs) \<subseteq> {c}" for xs by (auto dest: set_takeWhileD)
  have "s = takeWhile ?P s @ ?d" by simp
  also have "?d = trim_char c s @ rev (takeWhile ?P (rev ?d))"
    unfolding trim_char_def by (metis rev_append rev_rev_ident takeWhile_dropWhile_id)
  finally show ?thesis
    by (rule that [of "takeWhile ?P s" "rev (takeWhile ?P (rev ?d))"]) (simp_all only: set set_rev)
qed

lemma trim_char_ends:
  assumes "trim_char c s \<noteq> []"
  shows "hd (trim_char c s) \<noteq> c" and "last (trim_char c s) \<noteq> c"
proof -
  let ?P = "\<lambda>x. x = c"
  let ?d = "dropWhile ?P s"
  from assms have d: "dropWhile ?P (rev ?d) \<noteq> []" by (simp add: trim_char_def)
  then show "last (trim_char c s) \<noteq> c"
    using hd_dropWhile [OF d] by (simp add: trim_char_def last_rev)
  have "xs \<noteq> []" if "dropWhile ?P (rev xs) \<noteq> []" for xs using that by auto
  from this [OF d] have "hd ?d \<noteq> c" by (rule hd_dropWhile)
  moreover have "hd (trim_char c s) = hd ?d"
  proof -
    have "?d = trim_char c s @ rev (takeWhile ?P (rev ?d))"
      unfolding trim_char_def by (metis rev_append rev_rev_ident takeWhile_dropWhile_id)
    with assms show ?thesis by (metis hd_append2)
  qed
  ultimately show "hd (trim_char c s) \<noteq> c" by simp
qed

lemma trim_char_id:
  assumes "s \<noteq> []" and "hd s \<noteq> c" and "last s \<noteq> c"
  shows "trim_char c s = s"
proof -
  have "dropWhile (\<lambda>x. x = c) s = s" and "dropWhile (\<lambda>x. x = c) (rev s) = rev s"
    using assms by (simp_all only: dropWhile_eq_self_iff hd_rev not_False_eq_True simp_thms)
  then show ?thesis by (simp add: trim_char_def)
qed

text \<open>The text after the first three steps, when it is not empty.\<close>

lemma cleaned_ok:
  fixes name :: string
  defines "s \<equiv> trim_char (CHR ''-'') (collapse_hyphens (replace_invalid name))"
  assumes "s \<noteq> []"
  shows "list_all valid_char s" and "no_double_hyphen s" and "hd s \<noteq> CHR ''-''" and "last s \<noteq> CHR ''-''"
proof -
  let ?c = "collapse_hyphens (replace_invalid name)"
  obtain a b where dec: "?c = a @ s @ b"
    unfolding s_def by (rule trim_char_decomp [of ?c "CHR ''-''"])
  have "set s \<subseteq> set ?c" by (subst dec) auto
  then have "set s \<subseteq> set (replace_invalid name)"
    using set_collapse by fast
  then show "list_all valid_char s"
    using list_all_replace_invalid [of name] by (auto simp: list_all_iff)
  have "no_double_hyphen (a @ s @ b)"
    by (simp only: dec [symmetric] no_double_collapse)
  then show "no_double_hyphen s" by (simp add: no_double_append)
  show "hd s \<noteq> CHR ''-''" "last s \<noteq> CHR ''-''"
    using assms(2) unfolding s_def by (rule trim_char_ends)+
qed

lemma valid_letter:
  "valid_char c \<Longrightarrow> is_letter c \<longleftrightarrow> is_upper c \<or> is_lower c"
  by (auto simp: valid_char_def is_letter_def is_upper_def is_lower_def is_digit_def Let_def)

text \<open>Prefixing, truncating and the last trim keep the rules.\<close>

lemma finish_ok:
  assumes "list_all valid_char s" and "no_double_hyphen s" and "last s \<noteq> CHR ''-''"
    and "is_upper (hd s) \<or> is_lower (hd s)" and "3 \<le> length s"
  shows "topic_ok (trim_suffix ''-'' (if length s > 255 then take 255 s else s))"
proof (cases "length s > 255")
  case False
  moreover have "s \<noteq> []" using assms(5) by auto
  ultimately show ?thesis using assms by (simp add: topic_ok_def trim_suffix_single)
next
  case True
  let ?t = "take 255 s"
  have t: "list_all valid_char ?t" "no_double_hyphen ?t" "length ?t = 255" "hd ?t = hd s"
    using assms True by (auto simp: list_all_iff no_double_take dest: in_set_takeD)
  show ?thesis
  proof (cases "last ?t = CHR ''-''")
    case False
    moreover have "?t \<noteq> []" using t(3) by auto
    ultimately have "trim_suffix ''-'' ?t = ?t" by (simp add: trim_suffix_single del: take_eq_Nil)
    with True t assms(4) False show ?thesis by (simp add: topic_ok_def)
  next
    case hy: True
    obtain u where u: "?t = u @ [CHR ''-'']"
      using t(3) hy by (metis append_butlast_last_id list.size(3) zero_neq_numeral)
    have "length (u @ [CHR ''-'']) = 255" using t(3) by (simp only: u)
    then have len: "length u = 254" by simp
    then have "u \<noteq> []" by auto
    with t assms(4) have hd: "is_upper (hd u) \<or> is_lower (hd u)" by (simp add: u)
    have "no_double_hyphen (u @ [CHR ''-''])" and "list_all valid_char (u @ [CHR ''-''])"
      using t(1,2) by (simp_all only: u)
    with len hd \<open>u \<noteq> []\<close> have "topic_ok u"
      by (simp add: topic_ok_def no_double_append)
    moreover have "trim_suffix ''-'' ?t = u" by (simp add: u)
    ultimately show ?thesis using True by simp
  qed
qed

section \<open>Properties\<close>

lemma sanitize_unfold:
  fixes name :: string
  defines "s \<equiv> trim_char (CHR ''-'') (collapse_hyphens (replace_invalid name))"
  defines "t \<equiv> (if \<not> is_letter (hd s) then ''topic-'' @ s else s)"
  defines "u \<equiv> (if length t < 3 then ''topic-'' @ t else t)"
  shows "SanitizeTopicName name =
    (if s = [] then ''topic'' else trim_suffix ''-'' (if length u > 255 then take 255 u else u))"
  unfolding SanitizeTopicName_def Let_def s_def t_def u_def by (rule refl)

lemma topic_prefix_ok:
  assumes "list_all valid_char s" and "no_double_hyphen s" and "hd s \<noteq> CHR ''-''"
    and "last s \<noteq> CHR ''-''" and "s \<noteq> []"
  shows "list_all valid_char (''topic-'' @ s)" and "no_double_hyphen (''topic-'' @ s)"
    and "last (''topic-'' @ s) \<noteq> CHR ''-''" and "is_lower (hd (''topic-'' @ s))"
    and "3 \<le> length (''topic-'' @ s)" and "hd (''topic-'' @ s) \<noteq> CHR ''-''"
  using assms by (auto simp: valid_char_def is_lower_def no_double_Cons)

lemma sanitize_ok: "topic_ok (SanitizeTopicName name)"
proof -
  define s where "s = trim_char (CHR ''-'') (collapse_hyphens (replace_invalid name))"
  define t where "t = (if \<not> is_letter (hd s) then ''topic-'' @ s else s)"
  define u where "u = (if length t < 3 then ''topic-'' @ t else t)"
  have unf: "SanitizeTopicName name =
      (if s = [] then ''topic'' else trim_suffix ''-'' (if length u > 255 then take 255 u else u))"
    unfolding s_def t_def u_def by (rule sanitize_unfold)
  show ?thesis
  proof (cases "s = []")
    case True
    then have "SanitizeTopicName name = ''topic''" using unf by simp
    then show ?thesis
      by (simp add: topic_ok_def valid_char_def is_lower_def)
  next
    case False
    note s = cleaned_ok [of name, folded s_def, OF False]
    have t: "list_all valid_char t" "no_double_hyphen t" "hd t \<noteq> CHR ''-''" "last t \<noteq> CHR ''-''"
        "is_upper (hd t) \<or> is_lower (hd t)" "t \<noteq> []"
    proof -
      have "valid_char (hd s)" using s(1) False by (cases s) auto
      then show "list_all valid_char t" "no_double_hyphen t" "hd t \<noteq> CHR ''-''" "last t \<noteq> CHR ''-''"
          "is_upper (hd t) \<or> is_lower (hd t)" "t \<noteq> []"
        using s False topic_prefix_ok [OF s False] valid_letter [of "hd s"]
        by (auto simp: t_def)
    qed
    have u: "list_all valid_char u" "no_double_hyphen u" "last u \<noteq> CHR ''-''"
        "is_upper (hd u) \<or> is_lower (hd u)" "3 \<le> length u"
      using t topic_prefix_ok [OF t(1-4) t(6)] by (auto simp: u_def)
    from finish_ok [OF u] False show ?thesis by (simp only: unf if_False)
  qed
qed


lemma sanitize_fixed:
  assumes ok: "topic_ok s"
  shows "SanitizeTopicName s = s"
proof -
  have ne: "s \<noteq> []" and valid: "list_all valid_char s" and nd: "no_double_hyphen s"
    and len: "3 \<le> length s" "length s \<le> 255"
    and hd: "is_upper (hd s) \<or> is_lower (hd s)" and last: "last s \<noteq> CHR ''-''"
    using ok by (auto simp: topic_ok_def)
  have 1: "replace_invalid s = s"
    using valid by (auto simp: replace_invalid_def list_all_iff intro: map_idI)
  have "hd s \<noteq> CHR ''-''" using hd by (auto simp: is_upper_def is_lower_def)
  with ne last have 2: "trim_char (CHR ''-'') s = s" by (simp add: trim_char_id)
  have 3: "is_letter (hd s)" using hd by (auto simp: is_letter_def)
  have 4: "trim_suffix ''-'' s = s" using ne last by (simp add: trim_suffix_single)
  show ?thesis
    using ne len by (simp add: SanitizeTopicName_def 1 2 3 4 collapse_id [OF nd])
qed

text \<open>Sanitizing is idempotent: a name already sanitized is left as it is, so the
  publisher and the consumer, which both build the name, agree on it.\<close>

lemma SanitizeTopicName_idem:
  "SanitizeTopicName (SanitizeTopicName name) = SanitizeTopicName name"
  using sanitize_ok by (rule sanitize_fixed)

lemma topic_ok_BuildTopicName [simp]: "topic_ok (BuildTopicName p e)"
  by (simp add: BuildTopicName_def sanitize_ok)

lemma subscription_name:
  assumes "topic_ok t" and "length t \<le> 242"
  shows "BuildSubscriptionName t = t @ ''-subscription''"
proof -
  have "topic_ok (t @ ''-subscription'')"
  proof -
    have "t \<noteq> []" using assms(1) by (auto simp: topic_ok_def)
    then have "hd (t @ ''-subscription'') = hd t" by simp
    moreover have "list_all valid_char ''-subscription''"
      by (simp add: valid_char_def is_lower_def)
    ultimately show ?thesis
      using assms by (auto simp: topic_ok_def no_double_append)
  qed
  then show ?thesis
    using assms(1) by (auto simp: BuildSubscriptionName_def topic_ok_def sanitize_fixed)
qed

text \<open>Claim C26: topics of up to 242 bytes get a subscription of their own: the name is the topic's
  with the suffix, so different topics never share a subscription.\<close>

theorem BuildSubscriptionName_inj:
  assumes "topic_ok t" and "topic_ok t'" and "length t \<le> 242" and "length t' \<le> 242"
    and "BuildSubscriptionName t = BuildSubscriptionName t'"
  shows "t = t'"
  using assms by (simp add: subscription_name)

theorem BuildSubscriptionName_inj_witness:
  "BuildSubscriptionName ''abc'' \<noteq> BuildSubscriptionName ''abd''"
proof
  assume same: "BuildSubscriptionName ''abc'' = BuildSubscriptionName ''abd''"
  have ok: "topic_ok ''abc''" "topic_ok ''abd''"
    by (simp_all add: topic_ok_def valid_char_def is_lower_def)
  have len: "length ''abc'' \<le> 242" "length ''abd'' \<le> 242" by simp_all
  have "''abc'' = ''abd''" by (rule BuildSubscriptionName_inj [OF ok len same])
  then show False by simp
qed

end
