(* ===== verification/Environment.thy ===== *)
theory Environment
  imports Prelude
begin

text \<open>
  The outside world as the program sees it. Everything that is not under src/ (the clock, the
  Pub/Sub and asynq clients, Redis, the database driver, the HTTP client, the OpenTelemetry
  meter, UUIDs) is reached by a \<^emph>\<open>call\<close>, and the world answers with a \<^emph>\<open>reply\<close>. The world
  keeps the history of calls and replies; how it answers is a parameter, an arbitrary function
  of the history and the call, so every theorem holds for every behaviour of these services.
  No reply is assumed unless a theorem says so.
\<close>

named_theorems env_simps \<open>effect of calls on the history of the world\<close>

section \<open>Vocabulary of the services\<close>

datatype attr = AStr string | ABool bool | AInt int

type_synonym attrs = "(string \<times> attr) list"

datatype instrument = Int64Counter | Int64UpDownCounter | Float64Histogram

text \<open>The options of \<open>github.com/hibiken/asynq\<close> the program builds; durations and times are in
  nanoseconds.\<close>

datatype asynq_option =
    Queue string | MaxRetry int | Retention int | Deadline int | Unique int | ProcessIn int

datatype call =
    Now
  | NewUUID
  | NewInstrument instrument string string
  | Measure instrument string int attrs
  | AsynqEnqueue string bytes "asynq_option list"
  | PubSubPublish string bytes "string gomap"
  | HttpNewClient "(string \<times> int) list"
  | HttpPost string bytes "string list gomap"
  | RedisGet string
  | RedisSet string bytes int
  | RedisDel string
  | RedisHGet string string
  | RedisSAdd string string
  | RedisSMembers string
  | RedisZAdd string int bytes
  | RedisZRange string
  | RedisZRem string "string list"
  | RedisExpire string int
  | RedisPing
  | SqlExec string
  | SqlQuery string
  | Other string "string list"

datatype reply = Failed error | Done | GotInt int | GotText string | GotTexts "string list"

record world =
  history :: "(call \<times> reply) list"
  answer :: "(call \<times> reply) list \<Rightarrow> call \<Rightarrow> reply"

definition ask :: "call \<Rightarrow> 'a world_scheme \<Rightarrow> reply \<times> 'a world_scheme" where
  "ask c w = (let r = answer w (history w) c in (r, w\<lparr>history := history w @ [(c, r)]\<rparr>))"

definition tell :: "call \<Rightarrow> 'a world_scheme \<Rightarrow> 'a world_scheme" where
  "tell c w = snd (ask c w)"

definition err_of :: "reply \<Rightarrow> error option" where
  "err_of r = (case r of Failed e \<Rightarrow> Some e | _ \<Rightarrow> None)"

definition ask_err :: "call \<Rightarrow> 'a world_scheme \<Rightarrow> error option \<times> 'a world_scheme" where
  "ask_err c w = (case ask c w of (r, w') \<Rightarrow> (err_of r, w'))"

text \<open>\<open>time.Now()\<close> in nanoseconds since the Unix epoch.\<close>

definition time_now :: "'a world_scheme \<Rightarrow> int \<times> 'a world_scheme" where
  "time_now w = (case ask Now w of (r, w') \<Rightarrow> (case r of GotInt t \<Rightarrow> t | _ \<Rightarrow> 0, w'))"

text \<open>\<open>finished.Sub(started).Milliseconds()\<close> and \<open>t.UnixMilli()\<close>: Go's integer division
  truncates towards zero.\<close>

definition trunc_div :: "int \<Rightarrow> int \<Rightarrow> int" where
  "trunc_div a b = sgn a * sgn b * (\<bar>a\<bar> div \<bar>b\<bar>)"

definition milliseconds :: "int \<Rightarrow> int" where
  "milliseconds ns = trunc_div ns 1000000"

section \<open>History\<close>

definition calls :: "'a world_scheme \<Rightarrow> call list" where
  "calls w = map fst (history w)"

definition accepted :: "'a world_scheme \<Rightarrow> call list" where
  "accepted w = map fst (filter (\<lambda>(c, r). err_of r = None) (history w))"

lemma ask_history [env_simps]:
  "history (snd (ask c w)) = history w @ [(c, fst (ask c w))]"
  by (simp add: ask_def Let_def)

lemma ask_answer [simp, env_simps]: "answer (snd (ask c w)) = answer w"
  by (simp add: ask_def Let_def)

lemma ask_calls [simp, env_simps]: "calls (snd (ask c w)) = calls w @ [c]"
  by (simp add: calls_def ask_history)

lemma ask_accepted [env_simps]:
  "accepted (snd (ask c w)) = accepted w @ (if err_of (fst (ask c w)) = None then [c] else [])"
  by (simp add: accepted_def ask_history)

lemma ask_err_simps [env_simps]:
  "fst (ask_err c w) = err_of (fst (ask c w))" "snd (ask_err c w) = snd (ask c w)"
  by (simp_all add: ask_err_def case_prod_beta)

lemma ask_errD: "ask_err c w = (e, w') \<Longrightarrow> w' = snd (ask c w) \<and> e = err_of (fst (ask c w))"
  by (metis ask_err_simps fst_conv snd_conv)

lemma ask_err_accepted [env_simps]:
  "ask_err c w = (e, w') \<Longrightarrow> accepted w' = accepted w @ (if e = None then [c] else [])"
  using ask_accepted [of c w] by (auto simp: ask_err_def split: prod.splits)

lemma ask_err_calls [env_simps]: "ask_err c w = (e, w') \<Longrightarrow> calls w' = calls w @ [c]"
  by (metis ask_err_simps(2) ask_calls snd_conv)

lemma tell_calls [simp, env_simps]: "calls (tell c w) = calls w @ [c]"
  by (simp add: tell_def)

lemma tell_answer [simp, env_simps]: "answer (tell c w) = answer w"
  by (simp add: tell_def)

lemma tell_accepted [env_simps]:
  "accepted (tell c w) = accepted w @ (if err_of (fst (ask c w)) = None then [c] else [])"
  by (simp add: tell_def ask_accepted)

lemma time_now_calls [env_simps]: "calls (snd (time_now w)) = calls w @ [Now]"
  by (simp add: time_now_def case_prod_beta)

text \<open>Restricting the accepted calls to those of one kind: what a component's effect is
  judged by. Calls of other kinds leave it as it is.\<close>

definition accepted_of :: "(call \<Rightarrow> bool) \<Rightarrow> 'a world_scheme \<Rightarrow> call list" where
  "accepted_of P w = filter P (accepted w)"

lemma accepted_of_ask [env_simps]:
  "accepted_of P (snd (ask c w)) =
     accepted_of P w @ (if P c \<and> err_of (fst (ask c w)) = None then [c] else [])"
  by (simp add: accepted_of_def ask_accepted)

lemma accepted_of_ask_other [simp, env_simps]:
  "\<not> P c \<Longrightarrow> accepted_of P (snd (ask c w)) = accepted_of P w"
  by (simp add: accepted_of_ask)

lemma accepted_of_tell_other [simp, env_simps]:
  "\<not> P c \<Longrightarrow> accepted_of P (tell c w) = accepted_of P w"
  by (simp add: tell_def)

lemma accepted_of_now [simp, env_simps]:
  "\<not> P Now \<Longrightarrow> accepted_of P (snd (time_now w)) = accepted_of P w"
  by (simp add: time_now_def case_prod_beta)

lemma accepted_of_ask_err [env_simps]:
  "ask_err c w = (e, w') \<Longrightarrow>
     accepted_of P w' = accepted_of P w @ (if P c \<and> e = None then [c] else [])"
  by (simp add: accepted_of_def ask_err_accepted)

text \<open>A world that answers every call with \<open>Done\<close>, for concrete runs.\<close>

definition calm_world :: world where
  "calm_world = \<lparr>history = [], answer = (\<lambda>_ _. Done)\<rparr>"

definition all_done :: "'a world_scheme \<Rightarrow> bool" where
  "all_done w \<longleftrightarrow> answer w = (\<lambda>_ _. Done)"

lemma all_done_calm [simp]: "all_done calm_world"
  by (simp add: all_done_def calm_world_def)

lemma calm_ask_err: "all_done w \<Longrightarrow> \<exists>w'. ask_err c w = (None, w') \<and> all_done w'"
  by (simp add: all_done_def ask_err_def ask_def err_of_def)

lemma accepted_of_calm [simp]: "accepted_of P calm_world = []"
  by (simp add: accepted_of_def accepted_def calm_world_def)

end
