(* ===== verification/Telemetry.thy ===== *)
theory Telemetry
  imports Environment
begin

text \<open>
  \<open>pkg/telemetry\<close>: the metrics the program records (\<open>metrics.go\<close>) and the provider that is set
  up once (\<open>telemetry.go\<close>). The meter taken from the context is the world's: creating an
  instrument is a call that may fail, and only a created instrument records.
\<close>

section \<open>Metrics\<close>

record Metric =
  Name :: string
  Description :: string

definition MemStoreEventNotFound :: Metric where
  "MemStoreEventNotFound = \<lparr>Name = ''mem_store_event_not_found_total'',
     Description = ''Total of events not found in the memory store''\<rparr>"

definition MemActivityDuration :: Metric where
  "MemActivityDuration = \<lparr>Name = ''mem_store_activity_duration'',
     Description = ''Activity of the memory store''\<rparr>"

definition HTTPServerRequests :: Metric where
  "HTTPServerRequests = \<lparr>Name = ''http_server_requests_total'',
     Description = ''Total of requests to the HTTP server''\<rparr>"

definition HTTPServerRequestDuration :: Metric where
  "HTTPServerRequestDuration = \<lparr>Name = ''http_server_request_duration_seconds'',
     Description = ''Duration of requests to the HTTP server''\<rparr>"

definition HTTPClientRequests :: Metric where
  "HTTPClientRequests = \<lparr>Name = ''http_client_requests_total'',
     Description = ''Total of requests to the HTTP client''\<rparr>"

definition HTTPClientRequestDuration :: Metric where
  "HTTPClientRequestDuration = \<lparr>Name = ''http_client_request_duration_seconds'',
     Description = ''Duration of requests to the HTTP client''\<rparr>"

definition PubSubPublisherRequests :: Metric where
  "PubSubPublisherRequests = \<lparr>Name = ''pubsub_publisher_requests_total'',
     Description = ''Total of requests to the pubsub publisher''\<rparr>"

definition PubSubConsumerRetries :: Metric where
  "PubSubConsumerRetries = \<lparr>Name = ''pubsub_consumer_retries_total'',
     Description = ''Total of retries for a consumer''\<rparr>"

definition PubSubConsumerDlq :: Metric where
  "PubSubConsumerDlq = \<lparr>Name = ''pubsub_consumer_dlq_total'',
     Description = ''Total of archived messages for a consumer''\<rparr>"

definition PubSubConsumerDuration :: Metric where
  "PubSubConsumerDuration = \<lparr>Name = ''pubsub_consumer_duration_seconds'',
     Description = ''Duration of a consumer''\<rparr>"

definition PubSubConsumerLagSeconds :: Metric where
  "PubSubConsumerLagSeconds = \<lparr>Name = ''pubsub_consumer_lag_seconds'',
     Description = ''Time in seconds between message publish and consumer processing start''\<rparr>"

definition TaskPublisherRequests :: Metric where
  "TaskPublisherRequests = \<lparr>Name = ''task_publisher_requests_total'',
     Description = ''Total of requests to the task publisher''\<rparr>"

definition TaskConsumerRetries :: Metric where
  "TaskConsumerRetries = \<lparr>Name = ''task_consumer_retries_total'',
     Description = ''Total of retries for a consumer''\<rparr>"

definition TaskConsumerArchived :: Metric where
  "TaskConsumerArchived = \<lparr>Name = ''task_consumer_archived_total'',
     Description = ''Total of archived messages for a consumer''\<rparr>"

definition TaskConsumerLagSeconds :: Metric where
  "TaskConsumerLagSeconds = \<lparr>Name = ''task_consumer_lag_seconds'',
     Description = ''Time in seconds between message publish and consumer processing start''\<rparr>"

definition TaskConsumerDuration :: Metric where
  "TaskConsumerDuration = \<lparr>Name = ''task_consumer_duration_seconds'',
     Description = ''Duration of a consumer''\<rparr>"

definition TaskConsumerTotalProcessing :: Metric where
  "TaskConsumerTotalProcessing = \<lparr>Name = ''task_consumer_total_processing'',
     Description = ''Total of tasks being consumed''\<rparr>"

definition TaskConsumerTotalFailure :: Metric where
  "TaskConsumerTotalFailure = \<lparr>Name = ''task_consumer_total_failure'',
     Description = ''Total of tasks being consumed with failure''\<rparr>"

definition TaskConsumerTotalSuccess :: Metric where
  "TaskConsumerTotalSuccess = \<lparr>Name = ''task_consumer_total_success'',
     Description = ''Total of tasks being consumed with success''\<rparr>"

text \<open>Every method creates its instrument and, when that succeeds, records on it. The value of
  a histogram is a duration, in nanoseconds here and in seconds in the code.\<close>

definition on_instrument :: "instrument \<Rightarrow> Metric \<Rightarrow> int \<Rightarrow> attrs \<Rightarrow> 'a world_scheme \<Rightarrow> 'a world_scheme" where
  "on_instrument k m v as w =
     (case ask_err (NewInstrument k (Name m) (Description m)) w of
        (Some _, w') \<Rightarrow> w'
      | (None, w') \<Rightarrow> tell (Measure k (Name m) v as) w')"

definition Metric_Count :: "Metric \<Rightarrow> int \<Rightarrow> attrs \<Rightarrow> 'a world_scheme \<Rightarrow> 'a world_scheme" where
  "Metric_Count m v as w = on_instrument Int64Counter m v as w"

definition Metric_Increment :: "Metric \<Rightarrow> attrs \<Rightarrow> 'a world_scheme \<Rightarrow> 'a world_scheme" where
  "Metric_Increment m as w = on_instrument Int64UpDownCounter m 1 as w"

definition Metric_Decrement :: "Metric \<Rightarrow> attrs \<Rightarrow> 'a world_scheme \<Rightarrow> 'a world_scheme" where
  "Metric_Decrement m as w = on_instrument Int64UpDownCounter m (- 1) as w"

definition Metric_Record :: "Metric \<Rightarrow> int \<Rightarrow> attrs \<Rightarrow> 'a world_scheme \<Rightarrow> 'a world_scheme" where
  "Metric_Record m ns as w = on_instrument Float64Histogram m ns as w"

lemma on_instrument_eq:
  "on_instrument k m v as w =
     (let (r, w1) = ask (NewInstrument k (Name m) (Description m)) w
      in if err_of r = None then snd (ask (Measure k (Name m) v as) w1) else w1)"
  by (auto simp: on_instrument_def ask_err_def tell_def split: prod.splits option.splits)

lemma metric_answer [simp, env_simps]:
  "answer (Metric_Increment m as w) = answer w" "answer (Metric_Record m v as w) = answer w"
  by (simp_all add: Metric_Increment_def Metric_Record_def on_instrument_eq Let_def case_prod_beta)

fun is_telemetry :: "call \<Rightarrow> bool" where
  "is_telemetry (NewInstrument _ _ _) \<longleftrightarrow> True"
| "is_telemetry (Measure _ _ _ _) \<longleftrightarrow> True"
| "is_telemetry _ \<longleftrightarrow> False"

definition no_telemetry :: "(call \<Rightarrow> bool) \<Rightarrow> bool" where
  "no_telemetry P \<longleftrightarrow> (\<forall>c. is_telemetry c \<longrightarrow> \<not> P c)"

text \<open>Recording a metric changes nothing else: the other accepted calls are those before.\<close>

lemma accepted_of_instrument [env_simps]:
  "no_telemetry P \<Longrightarrow> accepted_of P (on_instrument k m v as w) = accepted_of P w"
  by (auto simp: on_instrument_def no_telemetry_def accepted_of_ask_err split: prod.splits option.splits)

lemma accepted_of_metric [simp, env_simps]:
  assumes "no_telemetry P"
  shows "accepted_of P (Metric_Count m v as w) = accepted_of P w"
    and "accepted_of P (Metric_Increment m as w) = accepted_of P w"
    and "accepted_of P (Metric_Decrement m as w) = accepted_of P w"
    and "accepted_of P (Metric_Record m v as w) = accepted_of P w"
  using assms by (simp_all add: Metric_Count_def Metric_Increment_def Metric_Decrement_def
      Metric_Record_def accepted_of_instrument)

section \<open>The provider, set up once\<close>

datatype metrics_handler = NotInitialized | MetricsDisabled | Prometheus

record telemetry_state =
  once_done :: bool
  provider :: bool
  metrics_handler :: metrics_handler
  initErr :: "error option"

text \<open>\<open>init()\<close>\<close>

definition telemetry_init :: telemetry_state where
  "telemetry_init = \<lparr>once_done = False, provider = False, metrics_handler = NotInitialized,
     initErr = None\<rparr>"

text \<open>\<open>New\<close>: \<open>exporter\<close> is the error of \<open>otelprom.New\<close>, if any.\<close>

definition telemetry_New :: "bool \<Rightarrow> error option \<Rightarrow> telemetry_state
    \<Rightarrow> metrics_handler result \<times> telemetry_state" where
  "telemetry_New enabled exporter st =
     (let st' =
        (if once_done st then st
         else if \<not> enabled then
           \<lparr>once_done = True, provider = True, metrics_handler = MetricsDisabled, initErr = None\<rparr>
         else (case exporter of
             Some e \<Rightarrow> \<lparr>once_done = True, provider = False, metrics_handler = metrics_handler st,
                        initErr = Some e\<rparr>
           | None \<Rightarrow> \<lparr>once_done = True, provider = True, metrics_handler = Prometheus, initErr = None\<rparr>))
      in (case initErr st' of Some e \<Rightarrow> (Inl e, st') | None \<Rightarrow> (Inr (metrics_handler st'), st')))"

text \<open>\<open>Shutdown\<close>: the provider's own shutdown answers for it when there is one.\<close>

definition telemetry_Shutdown :: "error option \<Rightarrow> telemetry_state \<Rightarrow> error option" where
  "telemetry_Shutdown provider_shutdown st = (if \<not> provider st then None else provider_shutdown)"

definition telemetry_Handler :: "telemetry_state \<Rightarrow> metrics_handler" where
  "telemetry_Handler st = metrics_handler st"

text \<open>\<open>Meter\<close>: the meters of the program's own provider, or those of the library's global one.\<close>

datatype meter = GlobalMeter string | ProviderMeter string

definition telemetry_Meter :: "string \<Rightarrow> telemetry_state \<Rightarrow> meter" where
  "telemetry_Meter name st = (if \<not> provider st then GlobalMeter name else ProviderMeter name)"

text \<open>The meters and the shutdown are those of the provider exactly from the first \<open>New\<close> on that
  finds no error.\<close>

lemma telemetry_New_meter:
  assumes "telemetry_New en ex telemetry_init = (r, st)"
  shows "telemetry_Meter name st = (case r of Inl _ \<Rightarrow> GlobalMeter name | Inr _ \<Rightarrow> ProviderMeter name)"
    and "telemetry_Shutdown e st = (case r of Inl _ \<Rightarrow> None | Inr _ \<Rightarrow> e)"
  using assms
  by (auto simp: telemetry_New_def telemetry_init_def telemetry_Meter_def telemetry_Shutdown_def Let_def
      split: option.splits if_splits)

text \<open>After the first \<open>New\<close>, every later call, with whatever configuration and exporter,
  returns the result of the first one and changes nothing.\<close>

lemma telemetry_New_once:
  assumes "telemetry_New en ex st = (r, st')"
  shows "telemetry_New en' ex' st' = (r, st')"
  using assms
  by (auto simp: telemetry_New_def Let_def split: if_splits option.splits)

end
