(* ===== verification/Intertime.thy ===== *)
theory Intertime
  imports JsonStruct
begin

text \<open>
  \<open>pkg/intertime/duration.go\<close>: durations written in JSON as strings such as \<open>1h30m0s\<close>. A
  duration is its number of nanoseconds, 64 bits signed. \<open>Duration_String\<close> is
  \<open>time.Duration.String\<close> and \<open>ParseDuration\<close> is \<open>time.ParseDuration\<close>, whose fractions are
  computed exactly here: the code's use of \<open>float64\<close> differs only for fractions finer than the
  unit.
\<close>

section \<open>Printing\<close>

text \<open>The \<open>p\<close> decimals of a fraction, and the same without trailing zeros (\<open>fmtFrac\<close>).\<close>

fun pad_digits :: "nat \<Rightarrow> nat \<Rightarrow> string" where
  "pad_digits 0 v = []"
| "pad_digits (Suc p) v = pad_digits p (v div 10) @ [digit_char (v mod 10)]"

fun frac_digits :: "nat \<Rightarrow> nat \<Rightarrow> string" where
  "frac_digits 0 v = []"
| "frac_digits (Suc p) v =
     (if v mod 10 = 0 then frac_digits p (v div 10) else pad_digits (Suc p) v)"

definition frac_text :: "nat \<Rightarrow> nat \<Rightarrow> string" where
  "frac_text p v = (let ds = frac_digits p v in if ds = [] then [] else CHR ''.'' # ds)"

definition micro_unit :: string where
  "micro_unit = [CHR 0xC2, CHR 0xB5, CHR ''s'']"

definition abs_duration_text :: "nat \<Rightarrow> string" where
  "abs_duration_text u =
     (if u < 1000000000 then
        (if u = 0 then ''0s''
         else if u < 1000 then nat_dec u @ ''ns''
         else if u < 1000000 then nat_dec (u div 1000) @ frac_text 3 u @ micro_unit
         else nat_dec (u div 1000000) @ frac_text 6 u @ ''ms'')
      else
        let secs = u div 1000000000; mins = secs div 60; hours = mins div 60;
            s = nat_dec (secs mod 60) @ frac_text 9 u @ ''s'';
            m = (if mins > 0 then nat_dec (mins mod 60) @ ''m'' else []);
            h = (if hours > 0 then nat_dec hours @ ''h'' else [])
        in h @ m @ s)"

definition Duration_String :: "int \<Rightarrow> string" where
  "Duration_String d =
     (if d < 0 then CHR ''-'' # abs_duration_text (nat (- d)) else abs_duration_text (nat d))"

section \<open>Parsing\<close>

definition unit_of :: "string \<Rightarrow> nat option" where
  "unit_of u =
     map_of [(''ns'', 1), (''us'', 1000), (micro_unit, 1000),
             ([CHR 0xCE, CHR 0xBC, CHR ''s''], 1000), (''ms'', 1000000), (''s'', 1000000000),
             (''m'', 60000000000), (''h'', 3600000000000)] u"

definition unit_char :: "char \<Rightarrow> bool" where
  "unit_char c \<longleftrightarrow> \<not> (c = CHR ''.'' \<or> is_digit c)"

function duration_loop :: "string \<Rightarrow> nat \<Rightarrow> nat option" where
  "duration_loop s d =
     (if s = [] then Some d
      else
        let ds = takeWhile is_digit s; r1 = dropWhile is_digit s;
            dot = has_prefix ''.'' r1;
            fs = (if dot then takeWhile is_digit (tl r1) else []);
            r2 = (if dot then dropWhile is_digit (tl r1) else r1);
            u = takeWhile unit_char r2; r3 = dropWhile unit_char r2
        in if ds = [] \<and> fs = [] \<or> u = [] then None
           else (case unit_of u of
                   None \<Rightarrow> None
                 | Some unit \<Rightarrow>
                     let v = dec_val ds * unit + dec_val fs * unit div 10 ^ length fs
                     in if dec_val ds > 2 ^ 63 div unit \<or> v > 2 ^ 63 \<or> d + v > 2 ^ 63 then None
                        else duration_loop r3 (d + v)))"
  by pat_completeness auto

lemma dropWhile_shorter: "takeWhile P s \<noteq> [] \<Longrightarrow> length (dropWhile P s) < length s"
  by (cases s) (auto simp: le_imp_less_Suc length_dropWhile_le split: if_splits)

lemma duration_rest_shorter:
  assumes "takeWhile unit_char r2 \<noteq> []"
    and "r2 = (if dot then dropWhile is_digit (tl (dropWhile is_digit s)) else dropWhile is_digit s)"
  shows "length (dropWhile unit_char r2) < length s"
proof -
  have "length r2 \<le> length s"
    using assms(2) length_dropWhile_le [of is_digit s]
      length_dropWhile_le [of is_digit "tl (dropWhile is_digit s)"]
    by (auto simp: le_diff_conv)
  with dropWhile_shorter [OF assms(1)] show ?thesis by linarith
qed

termination duration_loop
  by (relation "measure (\<lambda>(s, d). length s)") (auto intro: duration_rest_shorter)

declare duration_loop.simps [simp del]

definition ParseDuration :: "string \<Rightarrow> int option" where
  "ParseDuration orig =
     (let neg = has_prefix ''-'' orig;
          s = (if neg \<or> has_prefix ''+'' orig then tl orig else orig)
      in if s = ''0'' then Some 0
         else if s = [] then None
         else (case duration_loop s 0 of
                 None \<Rightarrow> None
               | Some d \<Rightarrow> if neg then Some (- int d)
                           else if d > 2 ^ 63 - 1 then None else Some (int d)))"

section \<open>JSON\<close>

text \<open>\<open>MarshalJSON\<close> and \<open>UnmarshalJSON\<close>: the latter reads a string first, so \<open>null\<close> leaves it
  empty and the empty string does not parse. \<open>encoding/json\<close> does not call it for \<open>null\<close> on a
  field that is not a pointer only when the decoder handles \<open>null\<close> itself; for a type with the
  method it is called.\<close>

definition Duration_MarshalJSON :: "int \<Rightarrow> json" where
  "Duration_MarshalJSON d = JStr (Duration_String d)"

definition duration_error :: error where
  "duration_error = ErrText ''time: invalid duration''"

definition Duration_UnmarshalJSON :: "int decoder" where
  "Duration_UnmarshalJSON old j =
     (case into_string [] j of
        (_, Some e) \<Rightarrow> (old, Some (ErrWrap ''intertime.Duration'' e))
      | (s, None) \<Rightarrow> (case ParseDuration s of
                        None \<Rightarrow> (old, Some duration_error)
                      | Some d \<Rightarrow> (d, None)))"

section \<open>What is printed is parsed back\<close>

lemma pad_digits_props [simp]:
  "length (pad_digits p v) = p" "list_all is_digit (pad_digits p v)"
  "dec_val (pad_digits p v) = v mod 10 ^ p"
proof (induction p arbitrary: v)
  case (Suc p)
  { case 3
    show ?case
      by (simp add: Suc(3)) (metis add.commute mod_mult2_eq power_Suc)
  }
qed simp_all

lemma frac_digits_props:
  "length (frac_digits p v) \<le> p \<and> list_all is_digit (frac_digits p v) \<and>
   dec_val (frac_digits p v) * 10 ^ (p - length (frac_digits p v)) = v mod 10 ^ p"
proof (induction p arbitrary: v)
  case (Suc p)
  show ?case
  proof (cases "v mod 10 = 0")
    case True
    note IH = Suc.IH [of "v div 10"]
    have "v mod 10 ^ Suc p = 10 * (v div 10 mod 10 ^ p)"
      using True by (metis add_0_right mod_mult2_eq power_Suc)
    with True IH show ?thesis by (simp add: Suc_diff_le)
  next
    case False
    have "list_all is_digit (pad_digits (Suc p) v)" by (rule pad_digits_props)
    with False show ?thesis
      using pad_digits_props(1) [of "Suc p" v] pad_digits_props(3) [of "Suc p" v] by simp
  qed
qed simp

lemma frac_digits_exact:
  "dec_val (frac_digits p v) * 10 ^ p div 10 ^ length (frac_digits p v) = v mod 10 ^ p"
proof -
  let ?n = "length (frac_digits p v)"
  have "10 ^ p = (10::nat) ^ (p - ?n) * 10 ^ ?n"
    using frac_digits_props [of p v] by (metis le_add_diff_inverse2 power_add)
  then have "dec_val (frac_digits p v) * 10 ^ p = (dec_val (frac_digits p v) * 10 ^ (p - ?n)) * 10 ^ ?n"
    by simp
  then show ?thesis using frac_digits_props [of p v] by simp
qed

text \<open>One number with its unit is consumed by one turn of the loop.\<close>

definition starts_number :: "string \<Rightarrow> bool" where
  "starts_number s \<longleftrightarrow> s = [] \<or> is_digit (hd s)"

lemma takeWhile_digits:
  assumes "list_all is_digit ds" and "r = [] \<or> \<not> is_digit (hd r)"
  shows "takeWhile is_digit (ds @ r) = ds" and "dropWhile is_digit (ds @ r) = r"
  using assms by (induction ds) (cases r; simp)+

lemma takeWhile_unit:
  assumes "list_all unit_char u" and "starts_number rest"
  shows "takeWhile unit_char (u @ rest) = u" and "dropWhile unit_char (u @ rest) = rest"
  using assms by (induction u) (cases rest; simp add: starts_number_def unit_char_def)+

lemma duration_step:
  fixes v k p :: nat
  defines "fs \<equiv> frac_digits p v"
  assumes u: "unit_of u = Some unit" "list_all unit_char u" "u \<noteq> []" and unit: "unit = 10 ^ p * m"
    and m: "p = 0 \<or> m = 1" and rest: "starts_number rest"
    and total: "d + (k * unit + v mod 10 ^ p) \<le> 2 ^ 63"
  shows "duration_loop (nat_dec k @ frac_text p v @ u @ rest) d
       = duration_loop rest (d + (k * unit + v mod 10 ^ p))"
proof -
  let ?s = "nat_dec k @ frac_text p v @ u @ rest"
  have u_hd: "\<not> is_digit (hd u)" "hd u \<noteq> CHR ''.''" using u(2,3) by (cases u; simp add: unit_char_def)+
  have fs: "list_all is_digit fs" using frac_digits_props [of p v] by (simp add: fs_def)
  have "frac_text p v @ u @ rest = [] \<or> \<not> is_digit (hd (frac_text p v @ u @ rest))"
    using u_hd u(3) by (auto simp: frac_text_def Let_def is_digit_def)
  note tk = takeWhile_digits [OF nat_dec_digits this, of k]
  have dot: "has_prefix ''.'' (frac_text p v @ u @ rest) \<longleftrightarrow> fs \<noteq> []"
    using u_hd u(3) by (cases u) (auto simp: frac_text_def Let_def has_prefix_def fs_def)
  have ur: "u @ rest = [] \<or> \<not> is_digit (hd (u @ rest))" using u_hd u(3) by simp
  have f1: "(if fs \<noteq> [] then takeWhile is_digit (tl (frac_text p v @ u @ rest)) else []) = fs"
    using takeWhile_digits(1) [OF fs ur] by (simp add: frac_text_def Let_def fs_def)
  have f2: "(if fs \<noteq> [] then dropWhile is_digit (tl (frac_text p v @ u @ rest))
      else frac_text p v @ u @ rest) = u @ rest"
    using takeWhile_digits(2) [OF fs ur] by (auto simp: frac_text_def Let_def fs_def)
  note un = takeWhile_unit [OF u(2) rest]
  have val: "dec_val fs * unit div 10 ^ length fs = v mod 10 ^ p"
  proof (cases "p = 0")
    case False
    with m unit have "unit = 10 ^ p" by simp
    then show ?thesis using frac_digits_exact [of p v] by (simp add: fs_def)
  qed (simp add: fs_def)
  have "0 < unit" using u(1) by (auto simp: unit_of_def split: if_splits)
  have "k * unit \<le> 2 ^ 63" using total by linarith
  then have k: "k \<le> 2 ^ 63 div unit"
    using \<open>0 < unit\<close> by (metis div_le_mono nonzero_mult_div_cancel_right not_gr_zero)
  have "?s \<noteq> []" by simp
  then show ?thesis
    using k total u(3)
    by (subst duration_loop.simps) (simp add: Let_def tk dot f1 f2 un u(1) val del: append_assoc)
qed

lemma unit_props [simp]:
  "unit_of ''ns'' = Some 1" "unit_of micro_unit = Some 1000" "unit_of ''ms'' = Some 1000000"
  "unit_of ''s'' = Some 1000000000" "unit_of ''m'' = Some 60000000000"
  "unit_of ''h'' = Some 3600000000000"
  "list_all unit_char micro_unit" "unit_char (CHR ''n'')" "unit_char (CHR ''s'')"
  "unit_char (CHR ''m'')" "unit_char (CHR ''h'')"
  "micro_unit \<noteq> []"
  by (simp_all add: unit_of_def micro_unit_def unit_char_def is_digit_def)

lemma starts_number_nat_dec [simp]: "starts_number (nat_dec n @ r)"
  using nat_dec_digits [of n] by (cases "nat_dec n") (simp_all add: starts_number_def)

lemma starts_number_Nil [simp]: "starts_number []"
  by (simp add: starts_number_def)

lemma frac_text_zero [simp]: "frac_text 0 v = []"
  by (simp add: frac_text_def)

lemmas duration_whole = duration_step [where p = 0 and v = 0, simplified]
lemmas duration_frac = duration_step [where m = 1, simplified]

lemma duration_loop_Nil [simp]: "duration_loop [] d = Some d"
  by (subst duration_loop.simps) simp

lemma duration_seconds:
  assumes "d + u mod 60000000000 \<le> 2 ^ 63"
  shows "duration_loop (nat_dec (u div 1000000000 mod 60) @ frac_text 9 u @ ''s'') d
       = Some (d + u mod 60000000000)"
proof -
  have split: "u div 1000000000 mod 60 * 1000000000 + u mod 1000000000 = u mod 60000000000"
    using mod_mult2_eq [of u 1000000000 60] by simp
  have "duration_loop (nat_dec (u div 1000000000 mod 60) @ frac_text 9 u @ ''s'' @ []) d
      = duration_loop [] (d + (u div 1000000000 mod 60 * 1000000000 + u mod 10 ^ 9))"
    by (rule duration_step [where m = 1]) (use assms split in simp_all)
  then show ?thesis by (simp add: split)
qed

lemma duration_small:
  assumes "u < 1000000000"
  shows "duration_loop (nat_dec u @ frac_text 0 0 @ ''ns'' @ []) 0 = Some u"
    and "duration_loop (nat_dec (u div 1000) @ frac_text 3 u @ micro_unit @ []) 0 = Some u"
    and "duration_loop (nat_dec (u div 1000000) @ frac_text 6 u @ ''ms'' @ []) 0 = Some u"
proof -
  have "duration_loop (nat_dec u @ frac_text 0 0 @ ''ns'' @ []) 0
      = duration_loop [] (0 + (u * 1 + 0 mod 10 ^ 0))"
    by (rule duration_step [where m = 1]) (use assms in simp_all)
  then show "duration_loop (nat_dec u @ frac_text 0 0 @ ''ns'' @ []) 0 = Some u" by simp
  have split: "u div 1000 * 1000 + u mod 1000 = u" "u div 1000000 * 1000000 + u mod 1000000 = u"
    by simp_all
  have "duration_loop (nat_dec (u div 1000) @ frac_text 3 u @ micro_unit @ []) 0
      = duration_loop [] (0 + (u div 1000 * 1000 + u mod 10 ^ 3))"
    by (rule duration_step [where m = 1]) (use assms in simp_all)
  then show "duration_loop (nat_dec (u div 1000) @ frac_text 3 u @ micro_unit @ []) 0 = Some u"
    by (simp add: split)
  have "duration_loop (nat_dec (u div 1000000) @ frac_text 6 u @ ''ms'' @ []) 0
      = duration_loop [] (0 + (u div 1000000 * 1000000 + u mod 10 ^ 6))"
    by (rule duration_step [where m = 1]) (use assms in simp_all)
  then show "duration_loop (nat_dec (u div 1000000) @ frac_text 6 u @ ''ms'' @ []) 0 = Some u"
    by (simp add: split)
qed

lemma abs_duration_small:
  assumes "u < 1000000000"
  shows "abs_duration_text u =
     (if u = 0 then ''0s''
      else if u < 1000 then nat_dec u @ frac_text 0 0 @ ''ns'' @ []
      else if u < 1000000 then nat_dec (u div 1000) @ frac_text 3 u @ micro_unit @ []
      else nat_dec (u div 1000000) @ frac_text 6 u @ ''ms'' @ [])"
  using assms by (simp add: abs_duration_text_def)

lemma abs_duration_large:
  assumes "\<not> u < 1000000000"
  shows "abs_duration_text u =
     (let mins = u div 1000000000 div 60
      in (if mins div 60 > 0 then nat_dec (mins div 60) @ ''h'' else []) @
         (if mins > 0 then nat_dec (mins mod 60) @ ''m'' else []) @
         nat_dec (u div 1000000000 mod 60) @ frac_text 9 u @ ''s'')"
  unfolding abs_duration_text_def Let_def if_not_P [OF assms] by (rule refl)

lemma duration_zero: "duration_loop ''0s'' 0 = Some 0"
proof -
  have "nat_dec 0 = ''0''" and "frac_text 9 0 = []" by code_simp+
  with duration_seconds [of 0 0] show ?thesis by simp
qed

lemma duration_loop_abs:
  assumes "u \<le> 2 ^ 63"
  shows "duration_loop (abs_duration_text u) 0 = Some u"
proof (cases "u < 1000000000")
  case True
  show ?thesis
    unfolding abs_duration_small [OF True]
    by (simp only: duration_small [OF True] duration_zero if_cancel split: if_split) simp
next
  case False
  define mins where "mins = u div 1000000000 div 60"
  define st where "st = nat_dec (u div 1000000000 mod 60) @ frac_text 9 u @ ''s''"
  have shape: "abs_duration_text u = (if mins div 60 > 0 then nat_dec (mins div 60) @ ''h'' else []) @
      (if mins > 0 then nat_dec (mins mod 60) @ ''m'' else []) @ st"
    unfolding abs_duration_large [OF False] Let_def mins_def st_def by (rule refl)
  have total: "mins * 60000000000 + u mod 60000000000 = u"
    by (simp add: mins_def div_mult2_eq [symmetric])
  have hm: "mins div 60 * 60 + mins mod 60 = mins" by simp
  have st: "starts_number st" by (simp add: st_def)
  have secs: "duration_loop st d = Some (d + u mod 60000000000)"
    if "d + u mod 60000000000 \<le> 2 ^ 63" for d
    unfolding st_def using that by (rule duration_seconds)
  have mm: "duration_loop (nat_dec (mins mod 60) @ ''m'' @ st) d
      = Some (d + mins mod 60 * 60000000000 + u mod 60000000000)"
    if "d + mins mod 60 * 60000000000 + u mod 60000000000 \<le> 2 ^ 63" for d
    using duration_step [of "''m''" 60000000000 0 60000000000 st d "mins mod 60" 0] st that secs
    by (simp add: add.assoc)
  show ?thesis
  proof (cases "mins = 0")
    case True
    then show ?thesis
      using secs [of 0] total assms by (simp add: shape)
  next
    case m: False
    show ?thesis
    proof (cases "mins div 60 = 0")
      case True
      then have "mins mod 60 = mins" using hm by simp
      with True m show ?thesis
        using mm [of 0] total assms by (simp add: shape)
    next
      case h: False
      have sum: "mins div 60 * 3600000000000 + mins mod 60 * 60000000000 + u mod 60000000000 = u"
        using total hm by linarith
      have "starts_number (nat_dec (mins mod 60) @ ''m'' @ st)" by simp
      with sum assms have "duration_loop (nat_dec (mins div 60) @ ''h'' @ nat_dec (mins mod 60) @ ''m'' @ st) 0
          = duration_loop (nat_dec (mins mod 60) @ ''m'' @ st) (mins div 60 * 3600000000000)"
        using duration_step [of "''h''" 3600000000000 0 3600000000000
            "nat_dec (mins mod 60) @ ''m'' @ st" 0 "mins div 60" 0] by simp
      also have "\<dots> = Some u" using mm [of "mins div 60 * 3600000000000"] sum assms by simp
      finally show ?thesis
        using m h by (simp add: shape)
    qed
  qed
qed

lemma abs_duration_first: "starts_number (abs_duration_text u) \<and> abs_duration_text u \<noteq> []"
proof (cases "u < 1000000000")
  case True
  then show ?thesis
    unfolding abs_duration_small [OF True] by (simp add: starts_number_def [of "''0s''"] is_digit_def)
next
  case False
  show ?thesis unfolding abs_duration_large [OF False] by (simp add: Let_def)
qed

lemma abs_duration_last: "last (abs_duration_text u) = CHR ''s''"
proof (cases "u < 1000000000")
  case True
  then show ?thesis unfolding abs_duration_small [OF True] by (simp add: micro_unit_def)
next
  case False
  show ?thesis unfolding abs_duration_large [OF False] by (simp add: Let_def)
qed

lemma parse_duration_text:
  assumes "- (2 ^ 63) \<le> d" and "d < 2 ^ 63"
  shows "ParseDuration (Duration_String d) = Some d"
proof -
  let ?t = "abs_duration_text (nat \<bar>d\<bar>)"
  have bound: "nat \<bar>d\<bar> \<le> 2 ^ 63" using assms by (simp add: nat_le_iff)
  have ne: "?t \<noteq> []" "?t \<noteq> ''0''"
    using abs_duration_first [of "nat \<bar>d\<bar>"] abs_duration_last [of "nat \<bar>d\<bar>"] by auto
  have sign: "\<not> has_prefix ''-'' ?t" "\<not> has_prefix ''+'' ?t"
    using abs_duration_first [of "nat \<bar>d\<bar>"]
    by (auto simp: has_prefix_iff starts_number_def is_digit_def)
  note loop = duration_loop_abs [OF bound]
  show ?thesis
  proof (cases "d < 0")
    case True
    then have "nat \<bar>d\<bar> = nat (- d)" by simp
    with True ne loop show ?thesis
      by (simp add: Duration_String_def ParseDuration_def has_prefix_def)
  next
    case False
    then have "nat \<bar>d\<bar> = nat d" by simp
    moreover have "nat d \<le> 2 ^ 63 - 1" using False assms(2) by simp
    ultimately show ?thesis
      using False ne sign loop by (simp add: Duration_String_def ParseDuration_def Let_def)
  qed
qed

definition int64_ok :: "int \<Rightarrow> bool" where
  "int64_ok i \<longleftrightarrow> - (2 ^ 63) \<le> i \<and> i < 2 ^ 63"

lemma Duration_json [simp, json_simps]:
  "int64_ok d \<Longrightarrow> Duration_UnmarshalJSON old (Duration_MarshalJSON d) = (d, None)"
  by (simp add: Duration_UnmarshalJSON_def Duration_MarshalJSON_def int64_ok_def parse_duration_text)

text \<open>Every duration survives JSON: the string \<open>MarshalJSON\<close> writes, such as
  \<open>1h30m0s\<close>, is read back by \<open>UnmarshalJSON\<close> as the same number of nanoseconds, over the whole
  64-bit range.\<close>

lemma Duration_roundtrip:
  assumes "- (2 ^ 63) \<le> d" and "d < 2 ^ 63"
  shows "unmarshal Duration_UnmarshalJSON old (json_text (Duration_MarshalJSON d)) = (d, None)"
proof -
  have "json_wf (Duration_MarshalJSON d)" by (simp add: Duration_MarshalJSON_def)
  with assms show ?thesis by (simp only: unmarshal_text Duration_json int64_ok_def simp_thms)
qed

section \<open>Only 64-bit durations are read\<close>

lemma duration_loop_bound: "duration_loop s d = Some v \<Longrightarrow> d \<le> 2 ^ 63 \<Longrightarrow> v \<le> 2 ^ 63"
proof (induction s d rule: duration_loop.induct)
  case (1 s d)
  then show ?case
    by (subst (asm) (2) duration_loop.simps) (auto simp: Let_def split: if_splits option.splits)
qed

lemma ParseDuration_range:
  assumes "ParseDuration s = Some i"
  shows "int64_ok i"
proof -
  have big: "int d \<le> 2 ^ 63" if "d \<le> 2 ^ 63" for d
    using that by (metis of_nat_le_iff of_nat_numeral of_nat_power)
  have "d \<le> 2 ^ 63" if "duration_loop t 0 = Some d" for t d
    using duration_loop_bound [OF that] by simp
  with big assms show ?thesis
    unfolding int64_ok_def ParseDuration_def Let_def
    by (fastforce split: if_splits option.splits)
qed

lemma Duration_UnmarshalJSON_range: "int64_ok old \<Longrightarrow> int64_ok (fst (Duration_UnmarshalJSON old j))"
  using ParseDuration_range by (auto simp: Duration_UnmarshalJSON_def split: prod.splits option.splits)

lemma into_int64_range: "int64_ok old \<Longrightarrow> int64_ok (fst (into_int64 old j))"
  using parse_int_range [of 64] by (auto simp: into_int64_def int64_ok_def split: json.splits option.splits)

end
