(* ===== verification/Gotime.thy ===== *)
theory Gotime
  imports Intertime
begin

text \<open>
  \<open>time.Time\<close> as the program uses it: an instant (nanoseconds since the Unix epoch) with the
  offset of its zone in minutes, its civil date, and the text \<open>encoding/json\<close> writes and reads
  (RFC 3339 with up to nine decimals). Years are those the text can hold, 0 to 9999.
\<close>

record Time =
  unix_nano :: int
  zone_min :: int

text \<open>The zero \<open>time.Time\<close>, the first of January of the year 1.\<close>

definition zero_Time :: Time where
  "zero_Time = \<lparr>unix_nano = - 62135596800000000000, zone_min = 0\<rparr>"

section \<open>The civil calendar\<close>

text \<open>Days before the first of January of a year, counted from 0000-01-01; \<open>multiples k y\<close> is
  the number of multiples of \<open>k\<close> below \<open>y\<close>.\<close>

definition multiples :: "nat \<Rightarrow> nat \<Rightarrow> nat" where
  "multiples k y = (y + (k - 1)) div k"

definition year_start :: "nat \<Rightarrow> nat" where
  "year_start y = 365 * y + multiples 4 y - multiples 100 y + multiples 400 y"

definition leap :: "nat \<Rightarrow> bool" where
  "leap y \<longleftrightarrow> y mod 4 = 0 \<and> (y mod 100 \<noteq> 0 \<or> y mod 400 = 0)"

definition month_lengths :: "nat \<Rightarrow> nat list" where
  "month_lengths y = [31, if leap y then 29 else 28, 31, 30, 31, 30, 31, 31, 30, 31, 30, 31]"

fun split_month :: "nat list \<Rightarrow> nat \<Rightarrow> nat \<Rightarrow> nat \<times> nat" where
  "split_month [] m d = (m, d)"
| "split_month (l # ls) m d = (if d < l then (m, d) else split_month ls (Suc m) (d - l))"

definition month_start :: "nat \<Rightarrow> nat \<Rightarrow> nat" where
  "month_start y m = sum_list (take (m - 1) (month_lengths y))"

definition year_of :: "nat \<Rightarrow> nat" where
  "year_of d =
     (let y = d * 400 div 146097
      in if year_start (y + 1) \<le> d then y + 1 else if d < year_start y then y - 1 else y)"

text \<open>Year, month from 1 and day from 1.\<close>

definition civil :: "nat \<Rightarrow> nat \<times> nat \<times> nat" where
  "civil d =
     (let y = year_of d; (m, r) = split_month (month_lengths y) 1 (d - year_start y)
      in (y, m, r + 1))"

definition day_number :: "nat \<Rightarrow> nat \<Rightarrow> nat \<Rightarrow> nat" where
  "day_number y m d = year_start y + month_start y m + (d - 1)"

lemma multiples_Suc:
  assumes "0 < k"
  shows "multiples k (Suc y) = multiples k y + (if y mod k = 0 then 1 else 0)"
proof -
  obtain q r where y: "y = r + q * k" and r: "r < k" by (metis assms mod_div_decomp mod_less_divisor add.commute)
  have shift: "multiples k (z + q * k) = q + multiples k z" for z
  proof -
    have "z + q * k + (k - 1) = (z + (k - 1)) + q * k" by simp
    then show ?thesis unfolding multiples_def using assms by (metis div_mult_self1 mult.commute not_gr_zero)
  qed
  have small: "multiples k z = (if z = 0 then 0 else 1)" if "z \<le> k" for z
  proof (cases z)
    case (Suc x)
    with that have "z + (k - 1) = x + k" "x div k = 0" by simp_all
    then show ?thesis using Suc assms by (simp add: multiples_def div_add_self2)
  qed (simp add: multiples_def assms)
  have "y mod k = r" using y r by simp
  moreover have "Suc y = Suc r + q * k" using y by simp
  ultimately show ?thesis
    using y r shift [of r] shift [of "Suc r"] small [of r] small [of "Suc r"] by simp
qed

lemma multiples_0 [simp]: "0 < k \<Longrightarrow> multiples k 0 = 0"
  by (simp add: multiples_def)

lemma multiples_bounds:
  assumes "0 < k"
  shows "y \<le> k * multiples k y \<and> k * multiples k y < y + k"
proof -
  let ?n = "y + (k - 1)"
  have "?n = k * (?n div k) + ?n mod k" and "?n mod k < k" using assms by simp_all
  then show ?thesis unfolding multiples_def using assms by linarith
qed

lemma multiples_le: "multiples 100 y \<le> y"
  by (induction y) (simp_all add: multiples_Suc)

lemma year_start_Suc: "year_start (Suc y) = year_start y + (if leap y then 366 else 365)"
proof -
  have m: "y mod 100 = 0 \<Longrightarrow> y mod 4 = 0" "y mod 400 = 0 \<Longrightarrow> y mod 100 = 0"
    by presburger+
  have le: "multiples 100 y \<le> y" by (rule multiples_le)
  have step: "multiples 4 (Suc y) = multiples 4 y + (if y mod 4 = 0 then 1 else 0)"
    "multiples 100 (Suc y) = multiples 100 y + (if y mod 100 = 0 then 1 else 0)"
    "multiples 400 (Suc y) = multiples 400 y + (if y mod 400 = 0 then 1 else 0)"
    by (simp_all only: multiples_Suc zero_less_numeral)
  consider "y mod 4 \<noteq> 0" | "y mod 4 = 0" "y mod 100 \<noteq> 0"
    | "y mod 100 = 0" "y mod 400 \<noteq> 0" | "y mod 400 = 0" by blast
  then show ?thesis
    using m le by cases (auto simp: year_start_def step leap_def)
qed

lemma year_start_mono: "x \<le> y \<Longrightarrow> year_start x \<le> year_start y"
  by (induction y rule: dec_induct) (auto simp: year_start_Suc)

lemma year_start_bounds:
  "146097 * y \<le> 400 * year_start y + 396" "400 * year_start y \<le> 146097 * y + 699"
proof -
  have "year_start y + multiples 100 y = 365 * y + multiples 4 y + multiples 400 y"
    using multiples_le [of y] by (simp add: year_start_def)
  moreover have "y \<le> 4 * multiples 4 y" "4 * multiples 4 y < y + 4"
    "y \<le> 100 * multiples 100 y" "100 * multiples 100 y < y + 100"
    "y \<le> 400 * multiples 400 y" "400 * multiples 400 y < y + 400"
    using multiples_bounds [of _ y] by simp_all
  ultimately show "146097 * y \<le> 400 * year_start y + 396"
    "400 * year_start y \<le> 146097 * y + 699"
    by linarith+
qed

lemma year_of_year:
  assumes "year_start y \<le> d" and "d < year_start (Suc y)"
  shows "year_of d = y"
proof -
  obtain e r where e: "d * 400 div 146097 = e" and de: "d * 400 = e * 146097 + r" and r: "r < 146097"
    using div_mult_mod_eq [of "d * 400" 146097] mod_less_divisor [of 146097 "d * 400"]
    by (metis zero_less_numeral)
  obtain s where s: "year_start (Suc y) = s" by simp
  have "400 * s \<le> 146097 * y + 146796" using year_start_bounds(2) [of "Suc y"] s by simp
  with assms(2) de r s have e2: "e \<le> y + 1" by linarith
  have e1: "y \<le> e + 1" using assms(1) year_start_bounds(1) [of y] de r by linarith
  have mono: "year_start (Suc y) \<le> year_start (Suc (Suc y))" by (rule year_start_mono) simp
  consider "e + 1 = y" | "e = y" | "e = y + 1" using e1 e2 by linarith
  then show ?thesis
    using assms mono by cases (simp_all add: year_of_def Let_def e)
qed

lemma split_month_props:
  assumes "d < sum_list ls" and "split_month ls m d = (m', r)"
  shows "m \<le> m' \<and> m' < m + length ls \<and> r < ls ! (m' - m) \<and> sum_list (take (m' - m) ls) + r = d"
  using assms
proof (induction ls m d rule: split_month.induct)
  case (2 l ls m d)
  show ?case
  proof (cases "d < l")
    case False
    with 2 have "Suc m \<le> m' \<and> m' < Suc m + length ls \<and> r < ls ! (m' - Suc m) \<and>
        sum_list (take (m' - Suc m) ls) + r = d - l" by simp
    moreover from this have "m' - m = Suc (m' - Suc m)" by arith
    ultimately show ?thesis using False by auto
  qed (use 2 in simp)
qed simp

lemma year_length: "sum_list (month_lengths y) = (if leap y then 366 else 365)"
  by (simp add: month_lengths_def)

lemma year_of_bounds: "year_start (year_of d) \<le> d \<and> d < year_start (Suc (year_of d))"
proof -
  have unbounded: "\<exists>y. d < year_start (Suc y)" for d
  proof
    show "d < year_start (Suc d)" using year_start_bounds(1) [of "Suc d"] by simp
  qed
  define y where "y = (LEAST y. d < year_start (Suc y))"
  have hi: "d < year_start (Suc y)" unfolding y_def by (rule LeastI_ex) (rule unbounded)
  have lo: "year_start y \<le> d"
  proof (cases y)
    case (Suc z)
    then have "\<not> d < year_start (Suc z)" unfolding y_def by (metis not_less_Least lessI)
    with Suc show ?thesis by simp
  qed (simp add: year_start_def)
  from year_of_year [OF lo hi] lo hi show ?thesis by simp
qed

text \<open>The civil date of a day names that day, and is a date of the calendar.\<close>

lemma civil_day:
  assumes "civil d = (y, m, dd)"
  shows "day_number y m dd = d" and "1 \<le> m" and "m \<le> 12" and "1 \<le> dd"
    and "dd \<le> month_lengths y ! (m - 1)" and "y = year_of d"
proof -
  obtain r where s: "split_month (month_lengths y) 1 (d - year_start y) = (m, r)" and dd: "dd = r + 1"
    and y: "y = year_of d"
    using assms by (auto simp: civil_def Let_def split: prod.splits)
  note b = year_of_bounds [of d, folded y]
  have "d - year_start y < sum_list (month_lengths y)"
    using b by (cases "leap y") (auto simp: year_length year_start_Suc)
  note p = split_month_props [OF this s]
  have "length (month_lengths y) = 12" by (simp add: month_lengths_def)
  with p b dd y show "day_number y m dd = d" "1 \<le> m" "m \<le> 12" "1 \<le> dd"
    "dd \<le> month_lengths y ! (m - 1)" "y = year_of d"
    by (auto simp: day_number_def month_start_def)
qed

section \<open>The text\<close>

text \<open>Nanoseconds of the wall clock of the zone since 0000-01-01T00:00:00.\<close>

definition epoch_days :: nat where "epoch_days = 719528"

definition wall_clock :: "Time \<Rightarrow> int" where
  "wall_clock t = unix_nano t + zone_min t * 60000000000 + int epoch_days * 86400000000000"

definition zone_text :: "int \<Rightarrow> string" where
  "zone_text z =
     (if z = 0 then ''Z''
      else (if z < 0 then CHR ''-'' else CHR ''+'') #
        pad_digits 2 (nat \<bar>z\<bar> div 60) @ '':'' @ pad_digits 2 (nat \<bar>z\<bar> mod 60))"

definition clock_text :: "nat \<Rightarrow> string" where
  "clock_text w =
     (let s = w div 1000000000; sd = s mod 86400; (y, m, d) = civil (s div 86400)
      in pad_digits 4 y @ ''-'' @ pad_digits 2 m @ ''-'' @ pad_digits 2 d @ ''T'' @
         pad_digits 2 (sd div 3600) @ '':'' @ pad_digits 2 (sd div 60 mod 60) @ '':'' @
         pad_digits 2 (sd mod 60) @ frac_text 9 w)"

text \<open>\<open>MarshalJSON\<close> refuses a year that does not have four digits and an offset of a day or
  more.\<close>

definition time_ok :: "Time \<Rightarrow> bool" where
  "time_ok t \<longleftrightarrow> 0 \<le> wall_clock t \<and> nat (wall_clock t) div 86400000000000 < year_start 10000 \<and>
     \<bar>zone_min t\<bar> < 1440"

definition Time_text :: "Time \<Rightarrow> string" where
  "Time_text t = clock_text (nat (wall_clock t)) @ zone_text (zone_min t)"

definition Time_MarshalJSON :: "Time \<Rightarrow> json result" where
  "Time_MarshalJSON t =
     (if time_ok t then Inr (JStr (Time_text t))
      else Inl (ErrText ''Time.MarshalJSON: year outside of range [0,9999]''))"

definition field_at :: "string \<Rightarrow> nat \<Rightarrow> nat \<Rightarrow> nat \<Rightarrow> nat \<Rightarrow> nat option" where
  "field_at s i n lo hi =
     (case dec_nat (take n (drop i s)) of
        None \<Rightarrow> None
      | Some v \<Rightarrow> if length (take n (drop i s)) = n \<and> lo \<le> v \<and> v \<le> hi then Some v else None)"

definition byte_at :: "string \<Rightarrow> nat \<Rightarrow> char \<Rightarrow> bool" where
  "byte_at s i c \<longleftrightarrow> take 1 (drop i s) = [c]"

text \<open>\<open>parseRFC3339\<close>: the offset of the zone in minutes.\<close>

definition parse_zone :: "string \<Rightarrow> int option" where
  "parse_zone s =
     (if s = ''Z'' then Some 0
      else if length s \<noteq> 6 \<or> \<not> byte_at s 3 (CHR '':'') then None
      else case (field_at s 1 2 0 23, field_at s 4 2 0 59) of
             (Some h, Some m) \<Rightarrow>
               (if hd s = CHR ''-'' then Some (- int (h * 60 + m))
                else if hd s = CHR ''+'' then Some (int (h * 60 + m)) else None)
           | _ \<Rightarrow> None)"

definition parse_nanos :: "string \<Rightarrow> nat" where
  "parse_nanos ds = dec_val (take 9 ds) * 10 ^ (9 - length (take 9 ds))"

definition parse_rfc3339 :: "string \<Rightarrow> Time option" where
  "parse_rfc3339 s =
     (case (field_at s 0 4 0 9999, field_at s 5 2 1 12, field_at s 11 2 0 23,
            field_at s 14 2 0 59, field_at s 17 2 0 59) of
        (Some y, Some mo, Some h, Some mi, Some sec) \<Rightarrow>
          (case field_at s 8 2 1 (month_lengths y ! (mo - 1)) of
             None \<Rightarrow> None
           | Some d \<Rightarrow>
               if \<not> (byte_at s 4 (CHR ''-'') \<and> byte_at s 7 (CHR ''-'') \<and> byte_at s 10 (CHR ''T'') \<and>
                    byte_at s 13 (CHR '':'') \<and> byte_at s 16 (CHR '':'')) then None
               else
                 let rest = drop 19 s;
                     dot = has_prefix ''.'' rest \<and> tl rest \<noteq> [] \<and> is_digit (hd (tl rest));
                     ns = (if dot then parse_nanos (takeWhile is_digit (tl rest)) else 0);
                     zone = (if dot then dropWhile is_digit (tl rest) else rest)
                 in (case parse_zone zone of
                       None \<Rightarrow> None
                     | Some z \<Rightarrow>
                         Some \<lparr>unix_nano =
                             (int (day_number y mo d * 86400 + h * 3600 + mi * 60 + sec) * 1000000000
                              + int ns) - int epoch_days * 86400000000000 - z * 60000000000,
                           zone_min = z\<rparr>))
      | _ \<Rightarrow> None)"

definition time_error :: error where
  "time_error = ErrText ''Time.UnmarshalJSON: input is not a JSON string''"

definition Time_UnmarshalJSON :: "Time decoder" where
  "Time_UnmarshalJSON old j =
     (case j of
        JNull \<Rightarrow> (old, None)
      | JStr s \<Rightarrow> (case parse_rfc3339 s of
                    Some t \<Rightarrow> (t, None) | None \<Rightarrow> (old, Some (ErrText ''parsing time'')))
      | _ \<Rightarrow> (old, Some time_error))"

lemma field_at_pad:
  assumes "drop i s = pad_digits n v @ r" and "v < 10 ^ n" and "lo \<le> v" and "v \<le> hi" and "0 < n"
  shows "field_at s i n lo hi = Some v"
proof -
  have "pad_digits n v \<noteq> []" using assms(5) by (metis length_0_conv not_gr_zero pad_digits_props(1))
  then have "dec_nat (pad_digits n v) = Some v" using assms(2) by (simp add: dec_nat_def)
  with assms show ?thesis by (simp add: field_at_def)
qed

lemma parse_zone_text:
  assumes "\<bar>z\<bar> < 1440"
  shows "parse_zone (zone_text z) = Some z"
proof (cases "z = 0")
  case False
  define u where "u = nat \<bar>z\<bar>"
  define sg where "sg = (if z < 0 then CHR ''-'' else CHR ''+'')"
  define s where "s = sg # pad_digits 2 (u div 60) @ '':'' @ pad_digits 2 (u mod 60)"
  have u: "u < 1440" using assms by (simp add: u_def)
  have z: "zone_text z = s" using False by (simp add: zone_text_def sg_def u_def s_def)
  have "field_at s 1 2 0 23 = Some (u div 60)" "field_at s 4 2 0 59 = Some (u mod 60)"
    by (rule field_at_pad; use u in \<open>simp add: s_def\<close>)+
  moreover have "byte_at s 3 (CHR '':'')" "length s = 6" "s \<noteq> ''Z''" "hd s = sg"
    by (simp_all add: byte_at_def s_def)
  moreover have "int (u div 60 * 60 + u mod 60) = \<bar>z\<bar>" by (simp add: u_def)
  ultimately show ?thesis
    using False unfolding z parse_zone_def by (simp add: sg_def del: One_nat_def)
qed (simp add: zone_text_def parse_zone_def)

lemma parse_nanos_frac: "parse_nanos (frac_digits 9 w) = w mod 1000000000"
  using frac_digits_props [of 9 w] by (simp add: parse_nanos_def)

lemma zone_text_first: "zone_text z \<noteq> [] \<and> \<not> is_digit (hd (zone_text z)) \<and> hd (zone_text z) \<noteq> CHR ''.''"
  by (simp add: zone_text_def is_digit_def)

lemma fraction_split:
  fixes w :: nat and z :: int
  defines "rest \<equiv> frac_text 9 w @ zone_text z"
  defines "dot \<equiv> has_prefix ''.'' rest \<and> tl rest \<noteq> [] \<and> is_digit (hd (tl rest))"
  shows "(if dot then parse_nanos (takeWhile is_digit (tl rest)) else 0) = w mod 1000000000"
    and "(if dot then dropWhile is_digit (tl rest) else rest) = zone_text z"
proof -
  let ?fs = "frac_digits 9 w"
  have fs: "list_all is_digit ?fs" using frac_digits_props [of 9 w] by simp
  have zr: "zone_text z = [] \<or> \<not> is_digit (hd (zone_text z))" using zone_text_first [of z] by simp
  have dot: "dot \<longleftrightarrow> ?fs \<noteq> []"
    using zone_text_first [of z] fs unfolding dot_def rest_def
    by (cases "zone_text z"; cases ?fs) (auto simp: frac_text_def Let_def has_prefix_def)
  have tl: "tl rest = ?fs @ zone_text z" if "?fs \<noteq> []"
    using that by (simp add: rest_def frac_text_def)
  have zero: "w mod 1000000000 = 0" if "?fs = []"
    using that parse_nanos_frac [of w] by (simp add: parse_nanos_def)
  show "(if dot then parse_nanos (takeWhile is_digit (tl rest)) else 0) = w mod 1000000000"
    using takeWhile_digits(1) [OF fs zr] zero by (simp add: dot tl parse_nanos_frac)
  show "(if dot then dropWhile is_digit (tl rest) else rest) = zone_text z"
    using takeWhile_digits(2) [OF fs zr] by (simp add: dot tl) (simp add: rest_def frac_text_def)
qed

lemma place_values:
  fixes w :: nat
  assumes "h * 60 + m = mm" and "mm * 60 + ss = sd" and "q * 86400 + sd = s" and "s * 1000000000 + n = w"
  shows "(q * 86400 + h * 3600 + m * 60 + ss) * 1000000000 + n = w"
  using assms by (auto simp: algebra_simps)

lemma clock_seconds:
  fixes w :: nat
  defines "s \<equiv> w div 1000000000"
  defines "sd \<equiv> s mod 86400"
  shows "(s div 86400 * 86400 + sd div 3600 * 3600 + sd div 60 mod 60 * 60 + sd mod 60) * 1000000000
      + w mod 1000000000 = w"
proof -
  have "sd div 3600 = sd div 60 div 60" by (simp add: div_mult2_eq [symmetric])
  then have "sd div 3600 * 60 + sd div 60 mod 60 = sd div 60" by simp
  then show ?thesis
    unfolding s_def sd_def
    by (rule place_values [OF _ div_mult_mod_eq div_mult_mod_eq div_mult_mod_eq])
qed

lemma wall_clock_parts:
  "int (a * 1000000000 + r) = wall_clock t \<Longrightarrow>
     (int a * 1000000000 + int r) - int epoch_days * 86400000000000 - zone_min t * 60000000000
     = unix_nano t"
  by (simp add: wall_clock_def)

lemma parse_Time_text:
  assumes "time_ok t"
  shows "parse_rfc3339 (Time_text t) = Some t"
proof -
  define w where "w = nat (wall_clock t)"
  define sd where "sd = w div 1000000000 mod 86400"
  obtain y mo d where c: "civil (w div 1000000000 div 86400) = (y, mo, d)" by (metis prod_cases3)
  note day = civil_day [OF c]
  define x where "x = Time_text t"
  have x: "x = pad_digits 4 y @ ''-'' @ pad_digits 2 mo @ ''-'' @ pad_digits 2 d @ ''T'' @
      pad_digits 2 (sd div 3600) @ '':'' @ pad_digits 2 (sd div 60 mod 60) @ '':'' @
      pad_digits 2 (sd mod 60) @ frac_text 9 w @ zone_text (zone_min t)"
    by (simp add: x_def Time_text_def clock_text_def Let_def c w_def [symmetric] sd_def [symmetric])
  have ok: "0 \<le> wall_clock t" "w div 86400000000000 < year_start 10000" "\<bar>zone_min t\<bar> < 1440"
    using assms by (simp_all add: time_ok_def w_def)
  have dw: "w div 1000000000 div 86400 = w div 86400000000000" by (simp add: div_mult2_eq [symmetric])
  have y: "y < 10000"
  proof (rule ccontr)
    assume "\<not> y < 10000"
    then have "year_start 10000 \<le> year_start y" by (intro year_start_mono) simp
    with ok(2) day(6) year_of_bounds [of "w div 1000000000 div 86400"] dw show False by simp
  qed
  have len: "month_lengths y ! (mo - 1) < 100"
  proof -
    have "mo - 1 < 12" using day(3) day(2) by simp
    then have "month_lengths y ! (mo - 1) \<in> set (month_lengths y)"
      by (intro nth_mem) (simp add: month_lengths_def)
    then show ?thesis by (auto simp: month_lengths_def split: if_splits)
  qed
  have "sd < 86400" by (simp add: sd_def)
  then have sd: "sd div 3600 \<le> 23" "sd div 3600 < 100" by simp_all
  have dd: "d < 100" "Suc 0 \<le> d" "d \<le> month_lengths y ! (mo - Suc 0)"
    using day(4,5) len by simp_all
  have bytes: "byte_at x 4 (CHR ''-'')" "byte_at x 7 (CHR ''-'')" "byte_at x 10 (CHR ''T'')"
    "byte_at x 13 (CHR '':'')" "byte_at x 16 (CHR '':'')"
    by (simp_all add: byte_at_def x)
  have fields: "field_at x 0 4 0 9999 = Some y" "field_at x 5 2 1 12 = Some mo"
    "field_at x 11 2 0 23 = Some (sd div 3600)" "field_at x 14 2 0 59 = Some (sd div 60 mod 60)"
    "field_at x 17 2 0 59 = Some (sd mod 60)"
    "field_at x 8 2 1 (month_lengths y ! (mo - 1)) = Some d"
    by (rule field_at_pad; use y day(2,3) sd dd in \<open>simp add: x\<close>)+
  have rest: "drop 19 x = frac_text 9 w @ zone_text (zone_min t)" by (simp add: x)
  have clock: "(day_number y mo d * 86400 + sd div 3600 * 3600 + sd div 60 mod 60 * 60 + sd mod 60)
      * 1000000000 + w mod 1000000000 = w"
    using clock_seconds [of w] by (simp only: day(1) sd_def)
  have "int w = wall_clock t" using ok(1) by (simp add: w_def)
  then have nano: "(int (day_number y mo d * 86400 + sd div 3600 * 3600 + sd div 60 mod 60 * 60 + sd mod 60)
      * 1000000000 + int (w mod 1000000000)) - int epoch_days * 86400000000000 - zone_min t * 60000000000
      = unix_nano t"
    by (intro wall_clock_parts) (simp only: clock)
  show ?thesis
    unfolding x_def [symmetric] parse_rfc3339_def fields option.case prod.case rest Let_def
      fraction_split parse_zone_text [OF ok(3)] nano
    by (simp add: bytes)
qed

lemma Time_json [simp, json_simps]:
  "Time_MarshalJSON t = Inr j \<Longrightarrow> Time_UnmarshalJSON old j = (t, None)"
  by (auto simp: Time_MarshalJSON_def Time_UnmarshalJSON_def parse_Time_text split: if_splits)

lemma json_wf_time: "Time_MarshalJSON t = Inr j \<Longrightarrow> json_wf j"
  by (auto simp: Time_MarshalJSON_def split: if_splits)

end
