(* ===== verification/Base64.thy ===== *)
theory Base64
  imports Prelude
begin

text \<open>
  \<open>encoding/base64\<close> with the standard alphabet and padding, as \<open>encoding/json\<close> uses it for byte
  slices and the basic authentication for its credentials. Like Go's decoder, new lines are
  skipped and the unused bits of the last character are ignored.
\<close>

definition b64_alphabet :: string where
  "b64_alphabet = ''ABCDEFGHIJKLMNOPQRSTUVWXYZabcdefghijklmnopqrstuvwxyz0123456789+/''"

definition b64_char :: "nat \<Rightarrow> char" where
  "b64_char v = b64_alphabet ! (v mod 64)"

fun index_of :: "char \<Rightarrow> string \<Rightarrow> nat option" where
  "index_of c [] = None"
| "index_of c (x # xs) = (if x = c then Some 0 else map_option Suc (index_of c xs))"

definition b64_value :: "char \<Rightarrow> nat option" where
  "b64_value c = index_of c b64_alphabet"

definition byte :: "nat \<Rightarrow> char" where
  "byte n = char_of (n mod 256)"

fun b64_encode :: "bytes \<Rightarrow> string" where
  "b64_encode [] = []"
| "b64_encode [a] =
     (let n = of_char a * 65536 in [b64_char (n div 262144), b64_char (n div 4096), CHR ''='', CHR ''=''])"
| "b64_encode [a, b] =
     (let n = of_char a * 65536 + of_char b * 256
      in [b64_char (n div 262144), b64_char (n div 4096), b64_char (n div 64), CHR ''=''])"
| "b64_encode (a # b # c # r) =
     (let n = of_char a * 65536 + of_char b * 256 + of_char c
      in [b64_char (n div 262144), b64_char (n div 4096), b64_char (n div 64), b64_char n] @ b64_encode r)"

definition b64_quantum :: "nat \<Rightarrow> nat \<Rightarrow> nat \<Rightarrow> nat \<Rightarrow> bytes" where
  "b64_quantum v1 v2 v3 v4 =
     (let n = v1 * 262144 + v2 * 4096 + v3 * 64 + v4 in [byte (n div 65536), byte (n div 256), byte n])"

fun b64_groups :: "string \<Rightarrow> bytes option" where
  "b64_groups [] = Some []"
| "b64_groups (a # b # c # d # r) =
     (case (b64_value a, b64_value b) of
        (Some v1, Some v2) \<Rightarrow>
          (if c = CHR ''='' \<and> d = CHR ''='' \<and> r = [] then Some (take 1 (b64_quantum v1 v2 0 0))
           else (case b64_value c of
               None \<Rightarrow> None
             | Some v3 \<Rightarrow>
                 if d = CHR ''='' \<and> r = [] then Some (take 2 (b64_quantum v1 v2 v3 0))
                 else (case (b64_value d, b64_groups r) of
                         (Some v4, Some bs) \<Rightarrow> Some (b64_quantum v1 v2 v3 v4 @ bs)
                       | _ \<Rightarrow> None)))
      | _ \<Rightarrow> None)"
| "b64_groups _ = None"

definition b64_decode :: "string \<Rightarrow> bytes option" where
  "b64_decode s = b64_groups (filter (\<lambda>c. c \<noteq> CHR 0x0A \<and> c \<noteq> CHR 0x0D) s)"

lemma b64_table:
  "list_all (\<lambda>v. b64_value (b64_char v) = Some v \<and> b64_char v \<noteq> CHR ''='' \<and> b64_char v \<noteq> CHR 0x0A \<and>
     b64_char v \<noteq> CHR 0x0D) [0..<64]"
  by code_simp

lemma b64_char_props [simp]:
  "b64_value (b64_char v) = Some (v mod 64)" "b64_char v \<noteq> CHR ''=''" "b64_char v \<noteq> CHR 0x0A"
  "b64_char v \<noteq> CHR 0x0D"
proof -
  have "v mod 64 \<in> set [0..<64]" by simp
  with b64_table have "b64_value (b64_char (v mod 64)) = Some (v mod 64) \<and> b64_char (v mod 64) \<noteq> CHR ''='' \<and>
      b64_char (v mod 64) \<noteq> CHR 0x0A \<and> b64_char (v mod 64) \<noteq> CHR 0x0D"
    unfolding list_all_iff by blast
  moreover have "b64_char (v mod 64) = b64_char v" by (simp add: b64_char_def)
  ultimately show "b64_value (b64_char v) = Some (v mod 64)" "b64_char v \<noteq> CHR ''=''"
    "b64_char v \<noteq> CHR 0x0A" "b64_char v \<noteq> CHR 0x0D"
    by simp_all
qed

lemma digits64:
  fixes n :: nat
  assumes "a * 64 + b = x" and "x * 64 + c = y" and "y * 64 + d = n"
  shows "a * 262144 + b * 4096 + c * 64 + d = n"
  using assms by (auto simp: algebra_simps)

lemma quantum_digits:
  fixes n :: nat
  assumes "n < 16777216"
  shows "n div 262144 mod 64 * 262144 + n div 4096 mod 64 * 4096 + n div 64 mod 64 * 64 + n mod 64 = n"
proof (rule digits64)
  have "n div 262144 mod 64 = n div 64 div 64 div 64" and "n div 4096 = n div 64 div 64"
    using assms by (simp_all add: div_mult2_eq [symmetric])
  then show "n div 262144 mod 64 * 64 + n div 4096 mod 64 = n div 64 div 64" by simp
  show "n div 64 div 64 * 64 + n div 64 mod 64 = n div 64" "n div 64 * 64 + n mod 64 = n" by simp_all
qed

lemma quantum_bytes:
  fixes x y z :: nat
  assumes "x < 256" and "y < 256" and "z < 256"
  defines "n \<equiv> x * 65536 + y * 256 + z"
  shows "b64_quantum (n div 262144 mod 64) (n div 4096 mod 64) (n div 64 mod 64) (n mod 64)
       = [char_of x, char_of y, char_of z]"
proof -
  have "n < 16777216" using assms by (simp add: n_def)
  note q = quantum_digits [OF this]
  obtain k where k: "k = x * 256 + y" by simp
  then have nk: "n = k * 256 + z" by (simp add: n_def)
  have "n div 256 = k" and z: "n mod 256 = z" using assms(3) unfolding nk by simp_all
  then have "n div 256 = x * 256 + y" using k by simp
  moreover have "n div 65536 = n div 256 div 256" by (simp add: div_mult2_eq [symmetric])
  ultimately have "n div 65536 mod 256 = x" "n div 256 mod 256 = y" using assms(1,2) by simp_all
  then show ?thesis unfolding b64_quantum_def Let_def q by (simp add: byte_def z)
qed

lemma byte_bound: "(of_char c :: nat) < 256"
  by (rule nat_of_char_less_256)

lemma low_digits:
  fixes x y :: nat
  shows "x * 65536 div 64 mod 64 = 0" and "x * 65536 mod 64 = 0" and "(x * 65536 + y * 256) mod 64 = 0"
proof -
  have x: "x * 65536 = (x * 1024) * 64" "x * 1024 = (x * 16) * 64" by simp_all
  have xy: "x * 65536 + y * 256 = (x * 1024 + y * 4) * 64" by simp
  have "x * 65536 div 64 = x * 1024" unfolding x(1) by simp
  then show "x * 65536 div 64 mod 64 = 0" by (simp only: x(2) mod_mult_self2_is_0)
  show "x * 65536 mod 64 = 0" by (simp only: x(1) mod_mult_self2_is_0)
  show "(x * 65536 + y * 256) mod 64 = 0" by (simp only: xy mod_mult_self2_is_0)
qed

lemma b64_no_newline: "filter (\<lambda>c. c \<noteq> CHR 0x0A \<and> c \<noteq> CHR 0x0D) (b64_encode bs) = b64_encode bs"
  by (induction bs rule: b64_encode.induct) (simp_all add: Let_def)

lemma b64_groups_encode: "b64_groups (b64_encode bs) = Some bs"
proof (induction bs rule: b64_encode.induct)
  case (2 a)
  from low_digits quantum_bytes [of "of_char a" 0 0] show ?case by (simp add: Let_def byte_bound)
next
  case (3 a b)
  from low_digits quantum_bytes [of "of_char a" "of_char b" 0] show ?case by (simp add: Let_def byte_bound)
next
  case (4 a b c r)
  with quantum_bytes [of "of_char a" "of_char b" "of_char c"] show ?case by (simp add: Let_def byte_bound)
qed simp

lemma b64_roundtrip [simp]: "b64_decode (b64_encode bs) = Some bs"
  by (simp add: b64_decode_def b64_no_newline b64_groups_encode)

end
