(* ===== verification/Cfg.thy ===== *)
theory Cfg
  imports Prelude
begin

text \<open>
  \<open>internal/cfg\<close>: the configuration record (\<open>env.go\<close>), its checks and the names of the three
  applications (\<open>metrics.go\<close>). \<open>cleanenv.ReadEnv\<close> is third-party: it is the argument \<open>read_env\<close>,
  which says what the variable \<open>cfg\<close> holds after it was filled from the environment, and whether
  that failed.
\<close>

definition PUBSUB_APP_NAME :: string where "PUBSUB_APP_NAME = ''pubsub''"

definition BACKOFFICE_APP_NAME :: string where "BACKOFFICE_APP_NAME = ''backoffice''"

definition TASK_APP_NAME :: string where "TASK_APP_NAME = ''task''"

record ConfigDatabase =
  Driver :: string
  DbConn :: string

record Cache =
  CacheAddr :: string
  DefaultTTL :: int

record AsynqConfig =
  Concurrency :: int

type_synonym ServerPort = int

definition ServerPort_String :: "ServerPort \<Rightarrow> string" where
  "ServerPort_String p = CHR '':'' # itoa p"

type_synonym WQ = string

definition WQ_String :: "WQ \<Rightarrow> string" where
  "WQ_String wq = wq"

definition WQGooglePubSub :: WQ where "WQGooglePubSub = ''googlepubsub''"

definition WQAWS :: WQ where "WQAWS = ''aws''"

definition WQRedis :: WQ where "WQRedis = ''redis''"

definition WQ_IsValid :: "WQ \<Rightarrow> error option" where
  "WQ_IsValid wq =
     (if wq = WQGooglePubSub \<or> wq = WQAWS \<or> wq = WQRedis then None
      else Some (ErrText (''invalid WQ type: '' @ wq)))"

record Config =
  ProjectID :: string
  SecretKey :: string
  config_database :: ConfigDatabase
  config_cache :: Cache
  asynq_config :: AsynqConfig
  config_wq :: WQ
  InternalBaseURL :: string
  InternalServiceName :: string
  PubsubApiPort :: ServerPort
  TaskApiPort :: ServerPort
  BackofficeApiPort :: ServerPort
  ShutdownTimeout :: int
  MetricsEnabled :: bool
  OTELExporterOTLPEndpoint :: string
  MaxConsumers :: int
  LogLevel :: int

type_synonym read_env = "Config \<Rightarrow> error option \<times> Config"

text \<open>\<open>Get\<close> fills the package variable, checks it, and panics on what is wrong.\<close>

definition cfg_Get :: "read_env \<Rightarrow> Config \<Rightarrow> Config run \<times> Config" where
  "cfg_Get read_env cfg =
     (let (err, cfg1) = read_env cfg
      in case err of
           Some e \<Rightarrow> (Panics e, cfg1)
         | None \<Rightarrow>
             (case WQ_IsValid (config_wq cfg1) of
                Some e \<Rightarrow> (Panics e, cfg1)
              | None \<Rightarrow>
                  if LogLevel cfg1 < 0 \<or> LogLevel cfg1 > 3
                  then (Panics (ErrText ''invalid log level''), cfg1)
                  else (Returns cfg1, cfg1)))"

definition SetConfig :: "Config \<Rightarrow> Config \<Rightarrow> Config" where
  "SetConfig c cfg = c"

text \<open>A configuration that is returned has passed every check, and is the package variable.\<close>

lemma cfg_Get_returns:
  "cfg_Get read_env cfg = (Returns c, cfg') \<Longrightarrow>
     c = cfg' \<and> read_env cfg = (None, c) \<and> config_wq c \<in> {WQGooglePubSub, WQAWS, WQRedis} \<and>
     LogLevel c \<in> {0..3}"
  by (auto simp: cfg_Get_def WQ_IsValid_def split: prod.splits option.splits if_splits)

lemma cfg_Get_ok:
  "read_env cfg = (None, c) \<Longrightarrow> config_wq c \<in> {WQGooglePubSub, WQAWS, WQRedis} \<Longrightarrow>
     LogLevel c \<in> {0..3} \<Longrightarrow> cfg_Get read_env cfg = (Returns c, c)"
  by (auto simp: cfg_Get_def WQ_IsValid_def)

text \<open>A configuration for concrete runs.\<close>

definition sample_cfg :: Config where
  "sample_cfg = \<lparr>ProjectID = [], SecretKey = [], config_database = \<lparr>Driver = [], DbConn = []\<rparr>,
     config_cache = \<lparr>CacheAddr = [], DefaultTTL = 0\<rparr>, asynq_config = \<lparr>Concurrency = 1\<rparr>, config_wq = WQRedis,
     InternalBaseURL = [], InternalServiceName = ''svc'', PubsubApiPort = 8082, TaskApiPort = 8083,
     BackofficeApiPort = 8081, ShutdownTimeout = 0, MetricsEnabled = True, OTELExporterOTLPEndpoint = [],
     MaxConsumers = 10, LogLevel = 2\<rparr>"

end
