(* ===== verification/Pubadapter.thy ===== *)
theory Pubadapter
  imports Json Telemetry
begin

text \<open>
  \<open>pkg/pubadapter\<close>: what a message is published with (\<open>opts.go\<close>), the two publishers (asynq
  and Google Pub/Sub), the strategy that chooses between them by the work-queue type, and the
  contract all of them keep (locale \<open>publisher\<close>): an accepted message is sent once, a refused
  one not at all.
\<close>

section \<open>Options (opts.go)\<close>

type_synonym WQType = string

definition LowThroughput :: WQType where "LowThroughput = ''low_throughput''"

definition HighThroughput :: WQType where "HighThroughput = ''high_throughput''"

definition LowLatency :: WQType where "LowLatency = ''low_latency''"

lemmas wqtype_defs = LowThroughput_def HighThroughput_def LowLatency_def

lemma wqtype_distinct [simp]:
  "LowThroughput \<noteq> LowLatency" "HighThroughput \<noteq> LowLatency" "LowLatency \<noteq> LowThroughput"
  "LowLatency \<noteq> HighThroughput" "LowThroughput \<noteq> HighThroughput" "LowThroughput \<noteq> []"
  "HighThroughput \<noteq> []" "LowLatency \<noteq> []"
  by (simp_all add: wqtype_defs)

definition WQType_Validate :: "WQType \<Rightarrow> error option" where
  "WQType_Validate wt =
     (if wt = LowThroughput \<or> wt = HighThroughput \<or> wt = LowLatency then None
      else Some (ErrText (''invalid WQType: '' @ wt)))"

text \<open>\<open>Attributes\<close> is \<open>None\<close> for a \<open>nil\<close> map.\<close>

record Opts =
  Attributes :: "string gomap option"
  AsynqOpts :: "asynq_option list"
  WqType :: WQType

definition EmptyOpts :: Opts where
  "EmptyOpts = \<lparr>Attributes = Some [], AsynqOpts = [], WqType = []\<rparr>"

text \<open>The value passed as \<open>any\<close>: what \<open>json.Marshal\<close> makes of it, or its error.\<close>

type_synonym payload = "json result"

type_synonym 'w generic_publisher = "string \<Rightarrow> payload \<Rightarrow> Opts \<Rightarrow> 'w \<Rightarrow> error option \<times> 'w"

definition json_Marshal :: "payload \<Rightarrow> bytes result" where
  "json_Marshal p = (case p of Inl e \<Rightarrow> Inl e | Inr j \<Rightarrow> Inr (json_text j))"

text \<open>\<open>fmt.Errorf("prefix: %v", err)\<close> keeps the text only.\<close>

definition errorf_v :: "string \<Rightarrow> error \<Rightarrow> error" where
  "errorf_v text e = ErrText (text @ '': '' @ error_msg e)"

section \<open>The asynq publisher (pub_sub_asynq.go)\<close>

definition hour :: int where "hour = 3600000000000"

definition NewDefaultOpt :: "asynq_option list" where
  "NewDefaultOpt = [Queue ''default'', MaxRetry 3, Retention (168 * hour)]"

text \<open>The options of one call, added after the default ones; of two options of a kind asynq takes
  the later.\<close>

definition WithQueue :: "string \<Rightarrow> asynq_option" where
  "WithQueue queue = Queue queue"

definition WithMaxRetry :: "int \<Rightarrow> asynq_option" where
  "WithMaxRetry maxRetry = MaxRetry maxRetry"

definition WithRetention :: "int \<Rightarrow> asynq_option" where
  "WithRetention retention = Retention retention"

definition WithProcessIn :: "int \<Rightarrow> asynq_option" where
  "WithProcessIn processIn = ProcessIn processIn"

definition Task_Publish :: "'a world_scheme generic_publisher" where
  "Task_Publish eventName payload opts w =
     (let definedOpts = NewDefaultOpt @ AsynqOpts opts
      in case json_Marshal payload of
           Inl e \<Rightarrow> (Some (errorf_v ''could not marshal payload'' e), w)
         | Inr p \<Rightarrow>
             (case ask_err (AsynqEnqueue eventName p definedOpts) w of
                (Some e, w1) \<Rightarrow>
                  (Some (errorf_v ''could not schedule task'' e),
                   Metric_Increment TaskPublisherRequests
                     [(''event_name'', AStr eventName), (''error'', AStr (error_msg e))] w1)
              | (None, w1) \<Rightarrow> (None, w1)))"

section \<open>The Google Pub/Sub publisher (pub_sub_google.go)\<close>

definition message_attributes :: "string \<Rightarrow> string gomap option \<Rightarrow> string gomap" where
  "message_attributes topicName attrs =
     (case attrs of
        Some (a # as) \<Rightarrow> a # as
      | _ \<Rightarrow> [(''max_retries'', ''1''), (''topic'', topicName)])"

lemma message_attributes_put [simp]: "message_attributes t (Some (go_put k v m)) = go_put k v m"
  by (cases "go_put k v m") (simp_all add: message_attributes_def)

definition PubSubGoogle_Publish :: "'a world_scheme generic_publisher" where
  "PubSubGoogle_Publish topicName payload opts w =
     (case json_Marshal payload of
        Inl e \<Rightarrow> (Some (errorf_v ''could not marshal payload'' e), w)
      | Inr p \<Rightarrow>
          (case ask_err (PubSubPublish topicName p (message_attributes topicName (Attributes opts))) w of
             (Some e, w1) \<Rightarrow>
               (Some (errorf_v ''could not publish message'' e),
                Metric_Increment PubSubPublisherRequests
                  [(''topic'', AStr topicName), (''error'', AStr (error_msg e))] w1)
           | (None, w1) \<Rightarrow> (None, w1)))"

section \<open>The strategy (base.go, classification_pub.go)\<close>

record 'w ClassificationResult =
  InternalPublisher :: "'w generic_publisher"
  ExternalPublisher :: "'w generic_publisher"

definition ClassificationPublisher ::
    "'w generic_publisher \<Rightarrow> 'w generic_publisher \<Rightarrow> 'w ClassificationResult" where
  "ClassificationPublisher gcppubsub redisAsync =
     \<lparr>InternalPublisher = redisAsync, ExternalPublisher = gcppubsub\<rparr>"

record 'w PublisherStrategy =
  TasksPublisher :: "'w generic_publisher"
  PubsubPublisher :: "'w generic_publisher"

definition NewStrategy :: "'w ClassificationResult \<Rightarrow> 'w PublisherStrategy" where
  "NewStrategy r = \<lparr>TasksPublisher = InternalPublisher r, PubsubPublisher = ExternalPublisher r\<rparr>"

definition PublisherStrategy_Publish :: "'w PublisherStrategy \<Rightarrow> 'w generic_publisher" where
  "PublisherStrategy_Publish s eventName payload opts w =
     (if WqType opts = LowThroughput \<or> WqType opts = HighThroughput
      then TasksPublisher s eventName payload opts w
      else if WqType opts = LowLatency then PubsubPublisher s eventName payload opts w
      else (Some (ErrText (''invalid publish type: '' @ WqType opts)), w))"

text \<open>The strategy over the two publishers. The services of \<open>cmd/setup\<close> use the publishers
  directly.\<close>

definition strategy_Publish :: "'a world_scheme generic_publisher" where
  "strategy_Publish =
     PublisherStrategy_Publish
       (NewStrategy (ClassificationPublisher PubSubGoogle_Publish Task_Publish))"

section \<open>The contract of a publisher\<close>

fun is_publish :: "call \<Rightarrow> bool" where
  "is_publish (AsynqEnqueue _ _ _) \<longleftrightarrow> True"
| "is_publish (PubSubPublish _ _ _) \<longleftrightarrow> True"
| "is_publish _ \<longleftrightarrow> False"

lemma no_telemetry_publish [simp]: "no_telemetry is_publish"
  by (auto simp: no_telemetry_def elim: is_telemetry.elims(2))

lemma not_publish [simp]:
  "\<not> is_publish Now" "\<not> is_publish NewUUID" "\<not> is_publish (HttpPost u b h)"
  by simp_all

abbreviation published :: "'a world_scheme \<Rightarrow> call list" where
  "published \<equiv> accepted_of is_publish"

definition asynq_message :: "string \<Rightarrow> bytes \<Rightarrow> Opts \<Rightarrow> call" where
  "asynq_message t b opts = AsynqEnqueue t b (NewDefaultOpt @ AsynqOpts opts)"

definition pubsub_message :: "string \<Rightarrow> bytes \<Rightarrow> Opts \<Rightarrow> call" where
  "pubsub_message t b opts = PubSubPublish t b (message_attributes t (Attributes opts))"

definition routed_message :: "string \<Rightarrow> bytes \<Rightarrow> Opts \<Rightarrow> call" where
  "routed_message t b opts =
     (if WqType opts = LowLatency then pubsub_message t b opts else asynq_message t b opts)"

text \<open>\<open>sent\<close> lists the messages the world has accepted, \<open>message\<close> is the one a publish stands
  for. A publish reports exactly whether it was added.\<close>

locale publisher =
  fixes publish :: "'w generic_publisher"
    and sent :: "'w \<Rightarrow> call list"
    and message :: "string \<Rightarrow> bytes \<Rightarrow> Opts \<Rightarrow> call"
  assumes accept: "publish t p opts w = (None, w') \<Longrightarrow>
      \<exists>j. p = Inr j \<and> sent w' = sent w @ [message t (json_text j) opts]"
    and refuse: "publish t p opts w = (Some e, w') \<Longrightarrow> sent w' = sent w"
begin

lemma sent_publish:
  "sent (snd (publish t p opts w)) = sent w @
     (case (fst (publish t p opts w), p) of
        (None, Inr j) \<Rightarrow> [message t (json_text j) opts] | _ \<Rightarrow> [])"
proof (cases "publish t p opts w")
  case (Pair e w')
  then show ?thesis
  proof (cases e)
    case None
    with Pair accept [of t p opts w w'] show ?thesis by auto
  next
    case (Some err)
    with Pair refuse [of t p opts w err w'] show ?thesis by simp
  qed
qed

lemma publish_unmarshallable: "fst (publish t (Inl e) opts w) \<noteq> None"
  using accept [of t "Inl e" opts w "snd (publish t (Inl e) opts w)"]
  by (metis prod.collapse sum.distinct(1))

lemma sent_prefix: "\<exists>ms. sent (snd (publish t p opts w)) = sent w @ ms"
  by (simp add: sent_publish)

end

interpretation asynq: publisher Task_Publish published asynq_message
proof unfold_locales
  fix t p opts and w w' :: "'a world_scheme" and e
  show "Task_Publish t p opts w = (None, w') \<Longrightarrow>
      \<exists>j. p = Inr j \<and> published w' = published w @ [asynq_message t (json_text j) opts]"
    by (auto simp: Task_Publish_def json_Marshal_def Let_def asynq_message_def accepted_of_ask_err
        split: sum.splits prod.splits option.splits)
  show "Task_Publish t p opts w = (Some e, w') \<Longrightarrow> published w' = published w"
    by (auto simp: Task_Publish_def json_Marshal_def Let_def accepted_of_ask_err
        split: sum.splits prod.splits option.splits)
qed

interpretation gpubsub: publisher PubSubGoogle_Publish published pubsub_message
proof unfold_locales
  fix t p opts and w w' :: "'a world_scheme" and e
  show "PubSubGoogle_Publish t p opts w = (None, w') \<Longrightarrow>
      \<exists>j. p = Inr j \<and> published w' = published w @ [pubsub_message t (json_text j) opts]"
    by (auto simp: PubSubGoogle_Publish_def json_Marshal_def pubsub_message_def accepted_of_ask_err
        split: sum.splits prod.splits option.splits)
  show "PubSubGoogle_Publish t p opts w = (Some e, w') \<Longrightarrow> published w' = published w"
    by (auto simp: PubSubGoogle_Publish_def json_Marshal_def accepted_of_ask_err
        split: sum.splits prod.splits option.splits)
qed

lemma strategy_Publish_eq:
  "strategy_Publish t p opts w =
     (if WqType opts = LowThroughput \<or> WqType opts = HighThroughput then Task_Publish t p opts w
      else if WqType opts = LowLatency then PubSubGoogle_Publish t p opts w
      else (Some (ErrText (''invalid publish type: '' @ WqType opts)), w))"
  by (simp add: strategy_Publish_def PublisherStrategy_Publish_def NewStrategy_def
      ClassificationPublisher_def)

interpretation strategy: publisher strategy_Publish published routed_message
proof unfold_locales
  fix t p opts and w w' :: "'a world_scheme" and e
  show "strategy_Publish t p opts w = (None, w') \<Longrightarrow>
      \<exists>j. p = Inr j \<and> published w' = published w @ [routed_message t (json_text j) opts]"
    using asynq.accept [of t p opts w w'] gpubsub.accept [of t p opts w w']
    by (auto simp: strategy_Publish_eq routed_message_def split: if_splits)
  show "strategy_Publish t p opts w = (Some e, w') \<Longrightarrow> published w' = published w"
    using asynq.refuse [of t p opts w e w'] gpubsub.refuse [of t p opts w e w']
    by (auto simp: strategy_Publish_eq split: if_splits)
qed

text \<open>The strategy sends a payload to the queue its work-queue type names, once, exactly
  when it reports success: the default options come first so that the caller's override them, and
  without attributes the message carries the defaults \<open>max_retries=1\<close> and \<open>topic\<close>.\<close>

lemma strategy_Publish_sent:
  "published (snd (strategy_Publish t (Inr j) opts w)) = published w @
     (if fst (strategy_Publish t (Inr j) opts w) = None
      then [if WqType opts = LowLatency
            then PubSubPublish t (json_text j)
              (if Attributes opts = None \<or> Attributes opts = Some []
               then [(''max_retries'', ''1''), (''topic'', t)] else the (Attributes opts))
            else AsynqEnqueue t (json_text j)
              ([Queue ''default'', MaxRetry 3, Retention (168 * hour)] @ AsynqOpts opts)]
      else [])"
  by (auto simp: strategy.sent_publish routed_message_def pubsub_message_def asynq_message_def
      message_attributes_def NewDefaultOpt_def neq_Nil_conv split: option.splits list.splits)

text \<open>A message whose work-queue type is not one of the three is refused with the reason,
  and nothing is asked of any queue.\<close>

lemma strategy_Publish_invalid:
  assumes "WQType_Validate (WqType opts) \<noteq> None"
  shows "strategy_Publish t p opts w
       = (Some (ErrText (''invalid publish type: '' @ WqType opts)), w)"
  using assms by (auto simp: strategy_Publish_eq WQType_Validate_def split: if_splits)

end
