(* ===== verification/Domain.thy ===== *)
theory Domain
  imports Gotime Pubadapter Cfg
begin

text \<open>
  \<open>internal/domain\<close>: events with their consumers and options, the checks they must pass
  (\<open>event.go\<close>), the names of the internal queues (\<open>events.go\<close>), the filter of the listing
  (\<open>filters.go\<close>) and the JSON of these types. A UUID is its canonical text.
\<close>

section \<open>Constants and errors\<close>

definition EventNotFound :: error where
  "EventNotFound = ErrNew ''domain.EventNotFound'' ''event not found''"

definition EventQueueRequestToExternal :: string where
  "EventQueueRequestToExternal = ''event-queue.request-to-external''"

definition EventQueueInternal :: string where
  "EventQueueInternal = ''event-queue.internal''"

definition EventQueueDeadLetter :: string where
  "EventQueueDeadLetter = ''event-queue.dead-letter''"

definition CacheKeyEventPrefix :: string where
  "CacheKeyEventPrefix = ''event-queue''"

definition domain_ProjectID :: string where
  "domain_ProjectID = ''your-project-id''"

text \<open>\<open>nil\<close> slices of the filter are empty ones: the code only asks for their length.\<close>

record FilterEvents =
  f_TeamOwner :: "string list"
  f_ServiceName :: "string list"
  f_State :: "string list"
  f_Page :: nat
  f_Limit :: nat

section \<open>Consumers\<close>

record Consumer =
  c_ServiceName :: string
  c_BaseUrl :: string
  c_Path :: string
  c_Headers :: "string gomap option"

definition Consumer_GetUrl :: "Consumer \<Rightarrow> string" where
  "Consumer_GetUrl t =
     (let baseURL = trim_suffix ''/'' (c_BaseUrl t); path = trim_prefix ''/'' (c_Path t)
      in baseURL @ ''/'' @ path)"

section \<open>Options\<close>

record Opt =
  o_Deadline :: "Time option"
  o_Retention :: int
  o_UniqueTTL :: int
  o_ScheduleIn :: int
  o_MaxRetries :: int
  o_WqType :: WQType

definition Opt_Validate :: "Opt \<Rightarrow> error option" where
  "Opt_Validate o1 =
     (if o_WqType o1 = [] then Some (ErrText ''wq type is required'')
      else (case WQType_Validate (o_WqType o1) of
          Some e \<Rightarrow> Some (ErrPrefix ''invalid worker_type '' e)
        | None \<Rightarrow>
            if o_MaxRetries o1 < 0 \<or> o_MaxRetries o1 > 5
            then Some (ErrText ''max retries must be between 0 and 5'') else None))"

definition Opt_Attributes :: "Opt \<Rightarrow> string gomap" where
  "Opt_Attributes o1 = [(''max_retries'', itoa (o_MaxRetries o1)), (''wq_type'', o_WqType o1)]"

definition ToAsynqOptions :: "Opt \<Rightarrow> asynq_option list" where
  "ToAsynqOptions o1 =
     (if o_MaxRetries o1 > 0 then [MaxRetry (o_MaxRetries o1)] else []) @
     (if o_Retention o1 > 0 then [Retention (o_Retention o1)] else []) @
     (case o_Deadline o1 of None \<Rightarrow> [] | Some t \<Rightarrow> [Deadline (unix_nano t)]) @
     (if o_UniqueTTL o1 > 0 then [Unique (o_UniqueTTL o1)] else []) @
     (if o_ScheduleIn o1 > 0 then [ProcessIn (o_ScheduleIn o1)] else [])"

section \<open>Events\<close>

type_synonym event_type = string

definition EventTypeInternal :: event_type where "EventTypeInternal = ''internal''"

definition EventTypeExternal :: event_type where "EventTypeExternal = ''external''"

definition Type_String :: "event_type \<Rightarrow> string" where
  "Type_String vt = vt"

record Event =
  ID :: string
  event_Name :: string
  ServiceName :: string
  State :: string
  Type :: event_type
  Option :: Opt
  Consumers :: "Consumer list option"

definition consumers_of :: "Event \<Rightarrow> Consumer list" where
  "consumers_of e = (case Consumers e of None \<Rightarrow> [] | Some cs \<Rightarrow> cs)"

text \<open>\<open>cfg.Get()\<close> is called only once the type, the options and the emptiness of the list are
  checked; it reads the environment again and may panic.\<close>

definition Event_Validate :: "read_env \<Rightarrow> Event \<Rightarrow> Config \<Rightarrow> error option run \<times> Config" where
  "Event_Validate read_env e cfg =
     (if Type e \<noteq> EventTypeInternal \<and> Type e \<noteq> EventTypeExternal
      then (Returns (Some (ErrText (''invalid event type: '' @ Type e))), cfg)
      else (case Opt_Validate (Option e) of
          Some err \<Rightarrow> (Returns (Some (ErrWrap ''invalid event option'' err)), cfg)
        | None \<Rightarrow>
            if length (consumers_of e) = 0
            then (Returns (Some (ErrText ''at least one consumer is required'')), cfg)
            else (case cfg_Get read_env cfg of
                (Panics p, cfg1) \<Rightarrow> (Panics p, cfg1)
              | (Returns c, cfg1) \<Rightarrow>
                  if int (length (consumers_of e)) > MaxConsumers c
                  then (Returns (Some (ErrText ''consumers must be less than 10'')), cfg1)
                  else (Returns None, cfg1))))"

section \<open>JSON\<close>

definition Consumer_json :: "Consumer \<Rightarrow> json" where
  "Consumer_json c =
     JObj [(''service_name'', JStr (c_ServiceName c)), (''host'', JStr (c_BaseUrl c)),
           (''path'', JStr (c_Path c)), (''headers'', enc_strmap (c_Headers c))]"

definition zero_Consumer :: Consumer where
  "zero_Consumer = \<lparr>c_ServiceName = [], c_BaseUrl = [], c_Path = [], c_Headers = None\<rparr>"

definition Consumer_field :: "Consumer \<Rightarrow> string \<Rightarrow> json \<Rightarrow> Consumer \<times> error option" where
  "Consumer_field c k j =
     (if fold_eq k ''service_name''
      then (let (v, e) = into_string (c_ServiceName c) j in (c\<lparr>c_ServiceName := v\<rparr>, e))
      else if fold_eq k ''host''
      then (let (v, e) = into_string (c_BaseUrl c) j in (c\<lparr>c_BaseUrl := v\<rparr>, e))
      else if fold_eq k ''path''
      then (let (v, e) = into_string (c_Path c) j in (c\<lparr>c_Path := v\<rparr>, e))
      else if fold_eq k ''headers''
      then (let (v, e) = into_strmap (c_Headers c) j in (c\<lparr>c_Headers := v\<rparr>, e))
      else (c, None))"

definition into_Consumer :: "Consumer decoder" where
  "into_Consumer = into_struct Consumer_field"

text \<open>A pointer to a time: \<open>null\<close> sets it to \<open>nil\<close>.\<close>

definition enc_deadline :: "Time option \<Rightarrow> json result" where
  "enc_deadline d = (case d of None \<Rightarrow> Inr JNull | Some t \<Rightarrow> Time_MarshalJSON t)"

definition into_deadline :: "Time option decoder" where
  "into_deadline old j =
     (if j = JNull then (None, None)
      else let (t, e) = Time_UnmarshalJSON (case old of None \<Rightarrow> zero_Time | Some t \<Rightarrow> t) j in (Some t, e))"

definition Opt_json :: "Opt \<Rightarrow> json result" where
  "Opt_json o1 =
     (case enc_deadline (o_Deadline o1) of
        Inl e \<Rightarrow> Inl e
      | Inr d \<Rightarrow>
          Inr (JObj [(''deadline'', d), (''retention'', Duration_MarshalJSON (o_Retention o1)),
            (''unique_ttl'', Duration_MarshalJSON (o_UniqueTTL o1)),
            (''schedule_in'', Duration_MarshalJSON (o_ScheduleIn o1)),
            (''max_retries'', enc_int (o_MaxRetries o1)), (''wq_type'', JStr (o_WqType o1))]))"

definition zero_Opt :: Opt where
  "zero_Opt = \<lparr>o_Deadline = None, o_Retention = 0, o_UniqueTTL = 0, o_ScheduleIn = 0,
     o_MaxRetries = 0, o_WqType = []\<rparr>"

definition Opt_field :: "Opt \<Rightarrow> string \<Rightarrow> json \<Rightarrow> Opt \<times> error option" where
  "Opt_field o1 k j =
     (if fold_eq k ''deadline''
      then (let (v, e) = into_deadline (o_Deadline o1) j in (o1\<lparr>o_Deadline := v\<rparr>, e))
      else if fold_eq k ''retention''
      then (let (v, e) = Duration_UnmarshalJSON (o_Retention o1) j in (o1\<lparr>o_Retention := v\<rparr>, e))
      else if fold_eq k ''unique_ttl''
      then (let (v, e) = Duration_UnmarshalJSON (o_UniqueTTL o1) j in (o1\<lparr>o_UniqueTTL := v\<rparr>, e))
      else if fold_eq k ''schedule_in''
      then (let (v, e) = Duration_UnmarshalJSON (o_ScheduleIn o1) j in (o1\<lparr>o_ScheduleIn := v\<rparr>, e))
      else if fold_eq k ''max_retries''
      then (let (v, e) = into_int64 (o_MaxRetries o1) j in (o1\<lparr>o_MaxRetries := v\<rparr>, e))
      else if fold_eq k ''wq_type''
      then (let (v, e) = into_string (o_WqType o1) j in (o1\<lparr>o_WqType := v\<rparr>, e))
      else (o1, None))"

definition into_Opt :: "Opt decoder" where
  "into_Opt = into_struct Opt_field"

text \<open>\<open>parse_uuid\<close> is \<open>uuid.UnmarshalText\<close>, giving the canonical text.\<close>

definition into_uuid :: "(string \<Rightarrow> string option) \<Rightarrow> string decoder" where
  "into_uuid parse_uuid old j =
     (case j of
        JStr s \<Rightarrow> (case parse_uuid s of
                    Some u \<Rightarrow> (u, None) | None \<Rightarrow> (old, Some (ErrText ''invalid UUID format'')))
      | JNull \<Rightarrow> (old, None)
      | _ \<Rightarrow> (old, Some type_error))"

definition Event_json :: "Event \<Rightarrow> json result" where
  "Event_json e =
     (case Opt_json (Option e) of
        Inl err \<Rightarrow> Inl err
      | Inr o1 \<Rightarrow>
          Inr (JObj [(''id'', JStr (ID e)), (''name'', JStr (event_Name e)),
            (''service_name'', JStr (ServiceName e)), (''state'', JStr (State e)),
            (''type'', JStr (Type e)), (''option'', o1),
            (''consumers'', enc_slice Consumer_json (Consumers e))]))"

definition Event_field :: "(string \<Rightarrow> string option) \<Rightarrow> Event \<Rightarrow> string \<Rightarrow> json \<Rightarrow> Event \<times> error option" where
  "Event_field parse_uuid r k j =
     (if fold_eq k ''id''
      then (let (v, e) = into_uuid parse_uuid (ID r) j in (r\<lparr>ID := v\<rparr>, e))
      else if fold_eq k ''name''
      then (let (v, e) = into_string (event_Name r) j in (r\<lparr>event_Name := v\<rparr>, e))
      else if fold_eq k ''service_name''
      then (let (v, e) = into_string (ServiceName r) j in (r\<lparr>ServiceName := v\<rparr>, e))
      else if fold_eq k ''state''
      then (let (v, e) = into_string (State r) j in (r\<lparr>State := v\<rparr>, e))
      else if fold_eq k ''type''
      then (let (v, e) = into_string (Type r) j in (r\<lparr>Type := v\<rparr>, e))
      else if fold_eq k ''option''
      then (let (v, e) = into_Opt (Option r) j in (r\<lparr>Option := v\<rparr>, e))
      else if fold_eq k ''consumers''
      then (let (v, e) = into_slice into_Consumer zero_Consumer (Consumers r) j in (r\<lparr>Consumers := v\<rparr>, e))
      else (r, None))"

definition into_Event :: "(string \<Rightarrow> string option) \<Rightarrow> Event decoder" where
  "into_Event parse_uuid = into_struct (Event_field parse_uuid)"

definition zero_Event :: Event where
  "zero_Event = \<lparr>ID = ''00000000-0000-0000-0000-000000000000'', event_Name = [], ServiceName = [],
     State = [], Type = [], Option = zero_Opt, Consumers = None\<rparr>"

fun all_results :: "'a result list \<Rightarrow> 'a list result" where
  "all_results [] = Inr []"
| "all_results (Inl e # rs) = Inl e"
| "all_results (Inr x # rs) = (case all_results rs of Inl e \<Rightarrow> Inl e | Inr xs \<Rightarrow> Inr (x # xs))"

definition Events_json :: "Event list option \<Rightarrow> json result" where
  "Events_json es =
     (case es of
        None \<Rightarrow> Inr JNull
      | Some l \<Rightarrow> (case all_results (map Event_json l) of Inl e \<Rightarrow> Inl e | Inr js \<Rightarrow> Inr (JArr js)))"

section \<open>What is written is read back\<close>

lemma Consumer_fields [json_simps]:
  "Consumer_field c ''service_name'' (JStr s) = (c\<lparr>c_ServiceName := s\<rparr>, None)"
  "Consumer_field c ''host'' (JStr s) = (c\<lparr>c_BaseUrl := s\<rparr>, None)"
  "Consumer_field c ''path'' (JStr s) = (c\<lparr>c_Path := s\<rparr>, None)"
  "Consumer_field c ''headers'' j = (let (v, e) = into_strmap (c_Headers c) j in (c\<lparr>c_Headers := v\<rparr>, e))"
  by (simp_all add: Consumer_field_def fold_eq_def lower_char_def)

definition consumer_ok :: "Consumer \<Rightarrow> bool" where
  "consumer_ok c \<longleftrightarrow> strmap_ok (c_Headers c)"

lemma into_Consumer_json [json_simps]:
  "consumer_ok c \<Longrightarrow> into_Consumer zero_Consumer (Consumer_json c) = (c, None)"
  by (simp add: into_Consumer_def into_struct_def Consumer_json_def Consumer_fields zero_Consumer_def
      consumer_ok_def)

lemma json_wf_Consumer [simp]: "json_wf (Consumer_json c)"
  by (simp add: Consumer_json_def)

lemma into_deadline_enc [json_simps]:
  assumes "enc_deadline d = Inr j"
  shows "into_deadline None j = (d, None)"
proof (cases d)
  case (Some t)
  with assms have "Time_MarshalJSON t = Inr j" by (simp add: enc_deadline_def)
  moreover from this have "j \<noteq> JNull" by (auto simp: Time_MarshalJSON_def split: if_splits)
  ultimately show ?thesis using Some by (simp add: into_deadline_def)
qed (use assms in \<open>simp add: enc_deadline_def into_deadline_def\<close>)

lemma Opt_fields [json_simps]:
  "Opt_field r ''deadline'' j = (let (v, e) = into_deadline (o_Deadline r) j in (r\<lparr>o_Deadline := v\<rparr>, e))"
  "Opt_field r ''retention'' j =
     (let (v, e) = Duration_UnmarshalJSON (o_Retention r) j in (r\<lparr>o_Retention := v\<rparr>, e))"
  "Opt_field r ''unique_ttl'' j =
     (let (v, e) = Duration_UnmarshalJSON (o_UniqueTTL r) j in (r\<lparr>o_UniqueTTL := v\<rparr>, e))"
  "Opt_field r ''schedule_in'' j =
     (let (v, e) = Duration_UnmarshalJSON (o_ScheduleIn r) j in (r\<lparr>o_ScheduleIn := v\<rparr>, e))"
  "Opt_field r ''max_retries'' j = (let (v, e) = into_int64 (o_MaxRetries r) j in (r\<lparr>o_MaxRetries := v\<rparr>, e))"
  "Opt_field r ''wq_type'' j = (let (v, e) = into_string (o_WqType r) j in (r\<lparr>o_WqType := v\<rparr>, e))"
  by (simp_all add: Opt_field_def fold_eq_def lower_char_def)

text \<open>The integers of the record are Go's 64-bit ones.\<close>

definition opt_ok :: "Opt \<Rightarrow> bool" where
  "opt_ok r \<longleftrightarrow> int64_ok (o_Retention r) \<and> int64_ok (o_UniqueTTL r) \<and> int64_ok (o_ScheduleIn r) \<and>
     int64_ok (o_MaxRetries r)"

lemma into_Opt_json [json_simps]:
  assumes "opt_ok r" and "Opt_json r = Inr j"
  shows "into_Opt zero_Opt j = (r, None)"
  using assms
  by (auto simp: into_Opt_def into_struct_def Opt_json_def Opt_fields zero_Opt_def opt_ok_def
      into_deadline_enc int64_ok_def into_int64_enc_int split: sum.splits)

lemma json_wf_Opt: "Opt_json r = Inr j \<Longrightarrow> json_wf j"
  by (auto simp: Opt_json_def enc_deadline_def Duration_MarshalJSON_def dest: json_wf_time
      split: sum.splits option.splits)

text \<open>The consumers of an event survive the JSON they are stored as: names, addresses,
  paths and headers, \<open>nil\<close> told from empty.\<close>

lemma Consumers_roundtrip:
  assumes "\<And>c. c \<in> set (case cs of None \<Rightarrow> [] | Some l \<Rightarrow> l) \<Longrightarrow> consumer_ok c"
  shows "unmarshal (into_slice into_Consumer zero_Consumer) None (json_text (enc_slice Consumer_json cs))
       = (cs, None)"
proof -
  have "into_slice into_Consumer zero_Consumer None (enc_slice Consumer_json cs) = (cs, None)"
    by (rule into_slice_enc_slice) (use assms in \<open>auto intro: into_Consumer_json\<close>)
  then show ?thesis by (simp add: unmarshal_text json_wf_enc_slice)
qed

text \<open>Claim C24: the options of an event survive the JSON they are stored as, the deadline with its
  nanoseconds and zone, and the durations exactly, whenever they can be written at all (the year
  of the deadline has four digits).\<close>

theorem Opt_roundtrip:
  assumes "opt_ok r" and "Opt_json r = Inr j"
  shows "unmarshal into_Opt zero_Opt (json_text j) = (r, None)"
  using assms by (simp add: unmarshal_text json_wf_Opt into_Opt_json)

theorem Opt_roundtrip_witness:
  "unmarshal into_Opt zero_Opt (json_text (projr (Opt_json (zero_Opt\<lparr>o_MaxRetries := 3\<rparr>))))
     = (zero_Opt\<lparr>o_MaxRetries := 3\<rparr>, None)"
proof (rule Opt_roundtrip)
  show "opt_ok (zero_Opt\<lparr>o_MaxRetries := 3\<rparr>)" by (simp add: opt_ok_def zero_Opt_def int64_ok_def)
  show "Opt_json (zero_Opt\<lparr>o_MaxRetries := 3\<rparr>) = Inr (projr (Opt_json (zero_Opt\<lparr>o_MaxRetries := 3\<rparr>)))"
    by (simp add: Opt_json_def zero_Opt_def enc_deadline_def)
qed

lemma Event_fields [json_simps]:
  "Event_field pu r ''id'' j = (let (v, e) = into_uuid pu (ID r) j in (r\<lparr>ID := v\<rparr>, e))"
  "Event_field pu r ''name'' j = (let (v, e) = into_string (event_Name r) j in (r\<lparr>event_Name := v\<rparr>, e))"
  "Event_field pu r ''service_name'' j = (let (v, e) = into_string (ServiceName r) j in (r\<lparr>ServiceName := v\<rparr>, e))"
  "Event_field pu r ''state'' j = (let (v, e) = into_string (State r) j in (r\<lparr>State := v\<rparr>, e))"
  "Event_field pu r ''type'' j = (let (v, e) = into_string (Type r) j in (r\<lparr>Type := v\<rparr>, e))"
  "Event_field pu r ''option'' j = (let (v, e) = into_Opt (Option r) j in (r\<lparr>Option := v\<rparr>, e))"
  "Event_field pu r ''consumers'' j =
     (let (v, e) = into_slice into_Consumer zero_Consumer (Consumers r) j in (r\<lparr>Consumers := v\<rparr>, e))"
  by (simp_all add: Event_field_def fold_eq_def lower_char_def)

lemma into_Event_json [json_simps]:
  assumes "opt_ok (Option e)" and "list_all consumer_ok (consumers_of e)" and "pu (ID e) = Some (ID e)"
    and "Event_json e = Inr j"
  shows "into_Event pu zero_Event j = (e, None)"
proof -
  obtain o1 where o1: "Opt_json (Option e) = Inr o1"
    using assms(4) by (auto simp: Event_json_def split: sum.splits)
  have "into_slice into_Consumer zero_Consumer None (enc_slice Consumer_json (Consumers e)) = (Consumers e, None)"
    using assms(2) by (intro into_slice_enc_slice into_Consumer_json) (auto simp: consumers_of_def list_all_iff)
  with assms o1 show ?thesis
    by (auto simp: into_Event_def into_struct_def Event_json_def Event_fields zero_Event_def
        into_uuid_def into_Opt_json)
qed

section \<open>Validation and addresses\<close>

lemma Opt_Validate_ok:
  "Opt_Validate r = None \<longleftrightarrow> WQType_Validate (o_WqType r) = None \<and> o_MaxRetries r \<in> {0..5}"
  by (auto simp: Opt_Validate_def WQType_Validate_def split: option.splits if_splits)

text \<open>An event is accepted exactly when its type is internal or external, its work-queue
  type is one of the three, its retries are 0 to 5, the configuration can be read, and it has at
  least one consumer and no more than the configured number.\<close>

lemma Event_Validate_accepts:
  "fst (Event_Validate read_env e cfg) = Returns None \<longleftrightarrow>
     (Type e = EventTypeInternal \<or> Type e = EventTypeExternal) \<and>
     WQType_Validate (o_WqType (Option e)) = None \<and> o_MaxRetries (Option e) \<in> {0..5} \<and>
     0 < length (consumers_of e) \<and>
     (\<exists>c. fst (cfg_Get read_env cfg) = Returns c \<and> int (length (consumers_of e)) \<le> MaxConsumers c)"
  using Opt_Validate_ok [of "Option e"]
  by (auto simp: Event_Validate_def split: option.splits prod.splits run.splits)

text \<open>The address of a consumer has exactly one slash between the base and the path, with
  or without one at the end of the base or the start of the path.\<close>

lemma GetUrl_one_slash:
  assumes "b = [] \<or> last b \<noteq> CHR ''/''" and "p = [] \<or> hd p \<noteq> CHR ''/''"
    and "c_BaseUrl c \<in> {b, b @ ''/''}" and "c_Path c \<in> {p, ''/'' @ p}"
  shows "Consumer_GetUrl c = b @ ''/'' @ p"
proof -
  have "trim_suffix ''/'' (c_BaseUrl c) = b"
    using assms(1,3) by (cases "b = []") (auto simp: trim_suffix_single)
  moreover have "trim_prefix ''/'' (c_Path c) = p"
    using assms(2,4) by (cases p) (auto simp: trim_prefix_single)
  ultimately show ?thesis by (simp add: Consumer_GetUrl_def Let_def)
qed

section \<open>What is decoded is well formed\<close>

lemma Opt_field_keeps: "opt_ok r \<Longrightarrow> opt_ok (fst (Opt_field r k j))"
  by (auto simp: Opt_field_def opt_ok_def case_prod_beta Duration_UnmarshalJSON_range into_int64_range)

lemma into_Opt_keeps: "json_wf j \<Longrightarrow> opt_ok r \<Longrightarrow> opt_ok (fst (into_Opt r j))"
  unfolding into_Opt_def by (rule into_struct_keeps [of opt_ok]) (auto intro: Opt_field_keeps)

lemma Consumer_field_keeps: "consumer_ok c \<Longrightarrow> consumer_ok (fst (Consumer_field c k j))"
  by (auto simp: Consumer_field_def consumer_ok_def case_prod_beta into_strmap_keeps)

lemma into_Consumer_keeps: "json_wf j \<Longrightarrow> consumer_ok c \<Longrightarrow> consumer_ok (fst (into_Consumer c j))"
  unfolding into_Consumer_def by (rule into_struct_keeps [of consumer_ok]) (auto intro: Consumer_field_keeps)

lemma zero_consumer_ok: "consumer_ok zero_Consumer"
  by (simp add: zero_Consumer_def consumer_ok_def strmap_ok_def)

lemma into_consumers_keeps:
  "list_all consumer_ok (case cs of None \<Rightarrow> [] | Some l \<Rightarrow> l) \<Longrightarrow> json_wf j \<Longrightarrow>
    list_all consumer_ok (case fst (into_slice into_Consumer zero_Consumer cs j) of None \<Rightarrow> [] | Some l \<Rightarrow> l)"
  by (rule into_slice_all) (auto intro: into_Consumer_keeps zero_consumer_ok)

end
