(* ===== verification/Metrics.thy ===== *)
theory Metrics
  imports Gotime
begin

text \<open>
  \<open>internal/domain/metric.go\<close>: the samples of publishers and consumers and the figures computed
  from them. Durations are whole milliseconds; a \<open>float64\<close> that holds one is that integer, which
  is exact below \<open>2^53\<close>. The counters are Go \<open>int64\<close>s that count list elements, so they do not
  wrap.
\<close>

section \<open>float64 arithmetic on small non-negative numbers\<close>

text \<open>\<open>x / y\<close> rounded to the nearest integer, ties to even.\<close>

definition div_even :: "nat \<Rightarrow> nat \<Rightarrow> nat" where
  "div_even x y =
     (let q = x div y; r = x mod y
      in if 2 * r > y \<or> 2 * r = y \<and> odd q then q + 1 else q)"

fun bit_len :: "nat \<Rightarrow> nat" where
  "bit_len n = (if n = 0 then 0 else 1 + bit_len (n div 2))"

declare bit_len.simps [simp del]

text \<open>A number \<open>x\<close> with at most 53 significant bits.\<close>

definition round53 :: "nat \<Rightarrow> nat" where
  "round53 x = (let k = bit_len x - 53 in div_even x (2 ^ k) * 2 ^ k)"

text \<open>\<open>a / b\<close> for \<open>0 < a \<le> b < 2^63\<close> as \<open>m / 2^e\<close>: the quotient has its first bit among the
  first 64 binary places, and 117 of them hold more than 53 bits; the rest decides the rounding
  (the last bit is set when anything is left).\<close>

definition fdiv :: "nat \<Rightarrow> nat \<Rightarrow> nat" where
  "fdiv a b = (let x = a * 2 ^ 117 in round53 (2 * (x div b) + (if x mod b = 0 then 0 else 1)))"

text \<open>\<open>fmt.Sprintf("%.2f%%", a / b * 100)\<close>: \<open>0 / 0\<close> is \<open>NaN\<close>.\<close>

definition percentage :: "nat \<Rightarrow> nat \<Rightarrow> string" where
  "percentage a b =
     (if b = 0 then (if a = 0 then ''NaN%'' else ''+Inf%'')
      else let v = round53 (fdiv a b * 100); hundredths = div_even (v * 100) (2 ^ 118)
           in nat_dec (hundredths div 100) @ ''.'' @ pad_digits 2 (hundredths mod 100) @ ''%'')"

section \<open>Samples\<close>

record ConsumerMetric =
  cm_TopicName :: string
  cm_ConsumerName :: string
  cm_TimeStarted :: Time
  cm_TimeEnded :: Time
  cm_TimeDurationMs :: int
  cm_ACK :: bool

record PublisherMetric =
  pm_TopicName :: string
  pm_TimeStarted :: Time
  pm_TimeEnded :: Time
  pm_TimeDurationMs :: int
  pm_ACK :: bool

record sample =
  TopicName :: string
  ConsumerName :: string
  TimeStarted :: Time
  TimeEnded :: Time
  TimeDurationMs :: int
  ACK :: bool

section \<open>Requests per minute\<close>

record RPM =
  Timeseries :: "Time list"
  Values :: "int list"

definition same_time :: "Time \<Rightarrow> Time \<Rightarrow> bool" where
  "same_time a b \<longleftrightarrow> unix_nano a = unix_nano b"

text \<open>\<open>time.Date\<close> of the year to the minute of the wall clock, read as UTC.\<close>

definition dateInMinute :: "Time \<Rightarrow> Time" where
  "dateInMinute t = \<lparr>unix_nano = (unix_nano t + zone_min t * 60000000000) div 60000000000 * 60000000000,
     zone_min = 0\<rparr>"

text \<open>Both \<open>add\<close>s, once the key is known. An entry always has a last element (\<open>rpm_ok\<close>).\<close>

definition rpm_add :: "string \<Rightarrow> Time \<Rightarrow> RPM gomap \<Rightarrow> RPM gomap" where
  "rpm_add key t m =
     (case go_get m key of
        Some data \<Rightarrow>
          if same_time (last (Timeseries data)) t
          then go_put key (data\<lparr>Values := butlast (Values data) @ [last (Values data) + 1]\<rparr>) m
          else go_put key (data\<lparr>Timeseries := Timeseries data @ [t], Values := Values data @ [1]\<rparr>) m
      | None \<Rightarrow> go_put key \<lparr>Timeseries = [t], Values = [1]\<rparr> m)"

definition RpmPublisher_add :: "string \<Rightarrow> Time \<Rightarrow> RPM gomap \<Rightarrow> RPM gomap" where
  "RpmPublisher_add topicName t rp = rpm_add topicName t rp"

definition RpmConsumer_add :: "string \<Rightarrow> string \<Rightarrow> Time \<Rightarrow> RPM gomap \<Rightarrow> RPM gomap" where
  "RpmConsumer_add topicName consumerName t rc = rpm_add (str_join '':'' [topicName, consumerName]) t rc"

section \<open>Percentiles\<close>

text \<open>The probability is \<open>p / 2^53\<close>. The index is \<open>int(math.Ceil(p*n) - 1)\<close>, kept in range.\<close>

definition percentile_index :: "int \<Rightarrow> nat \<Rightarrow> nat" where
  "percentile_index p n =
     (let x = round53 (nat p * n);
          ceil = (x + (2 ^ 53 - 1)) div 2 ^ 53;
          idx = (if ceil = 0 then 0 else ceil - 1)
      in if idx \<ge> n then n - 1 else idx)"

definition percentile :: "int list \<Rightarrow> int \<Rightarrow> int \<times> error option" where
  "percentile data p =
     (if data = [] then (0, Some (ErrText ''empty array''))
      else if p < 0 \<or> p > 2 ^ 53 then (0, Some (ErrText ''p must be between 0 and 1''))
      else (sort data ! percentile_index p (length data), None))"

definition p99 :: int where "p99 = 8917127262193582"

definition p75 :: int where "p75 = 6755399441055744"

section \<open>Insights\<close>

record Insights =
  TotalPublished :: nat
  TotalConsumed :: nat
  PercentagePublishedSuccess :: string
  PercentageConsumedSuccess :: string
  TotalPublishedWithSuccess :: nat
  TotalConsumedWithSuccess :: nat
  TotalPublishedWithErr :: nat
  TotalConsumedWithErr :: nat
  TotalSegmentationPublished :: "nat gomap"
  TotalSegmentationConsumed :: "nat gomap"
  RpmPublisher :: "RPM gomap"
  RpmConsumer :: "RPM gomap"
  P99Consumed :: "int gomap"
  P75Consumed :: "int gomap"
  P99Published :: "int gomap"
  P75Published :: "int gomap"

definition NewInsights :: Insights where
  "NewInsights = \<lparr>TotalPublished = 0, TotalConsumed = 0, PercentagePublishedSuccess = [],
     PercentageConsumedSuccess = [], TotalPublishedWithSuccess = 0, TotalConsumedWithSuccess = 0,
     TotalPublishedWithErr = 0, TotalConsumedWithErr = 0, TotalSegmentationPublished = [],
     TotalSegmentationConsumed = [], RpmPublisher = [], RpmConsumer = [], P99Consumed = [],
     P75Consumed = [], P99Published = [], P75Published = []\<rparr>"

definition increment :: "string \<Rightarrow> nat gomap \<Rightarrow> nat gomap" where
  "increment k m = go_put k ((case go_get m k of None \<Rightarrow> 0 | Some n \<Rightarrow> n) + 1) m"

text \<open>The samples kept for a key: \<open>df = append(df, v)\<close> changes the local variable only, so a key
  that is there stays as it is.\<close>

definition keep_duration :: "string \<Rightarrow> int \<Rightarrow> int list gomap \<Rightarrow> int list gomap" where
  "keep_duration key v m = (case go_get m key of Some df \<Rightarrow> m | None \<Rightarrow> go_put key [v] m)"

type_synonym tally = "Insights \<times> int list gomap \<times> int list gomap"

definition count_consumed :: "sample \<Rightarrow> Insights \<Rightarrow> Insights" where
  "count_consumed metric i =
     (let i1 = i\<lparr>TotalConsumed := TotalConsumed i + 1\<rparr>;
          i2 = (if ACK metric then i1\<lparr>TotalConsumedWithSuccess := TotalConsumedWithSuccess i1 + 1\<rparr>
                else i1\<lparr>TotalConsumedWithErr := TotalConsumedWithErr i1 + 1\<rparr>)
      in i2\<lparr>TotalSegmentationConsumed := increment (ConsumerName metric) (TotalSegmentationConsumed i2),
            RpmConsumer := RpmConsumer_add (TopicName metric) (ConsumerName metric)
              (dateInMinute (TimeEnded metric)) (RpmConsumer i2)\<rparr>)"

definition count_published :: "sample \<Rightarrow> Insights \<Rightarrow> Insights" where
  "count_published metric i =
     (let i1 = i\<lparr>TotalPublished := TotalPublished i + 1\<rparr>;
          i2 = (if ACK metric then i1\<lparr>TotalPublishedWithSuccess := TotalPublishedWithSuccess i1 + 1\<rparr>
                else i1\<lparr>TotalPublishedWithErr := TotalPublishedWithErr i1 + 1\<rparr>)
      in i2\<lparr>TotalSegmentationPublished := increment (TopicName metric) (TotalSegmentationPublished i2),
            RpmPublisher := RpmPublisher_add (TopicName metric)
              (dateInMinute (TimeEnded metric)) (RpmPublisher i2)\<rparr>)"

definition tally_metric :: "sample \<Rightarrow> tally \<Rightarrow> tally" where
  "tally_metric metric t =
     (case t of (i, consumed, published) \<Rightarrow>
        if ConsumerName metric \<noteq> []
        then (count_consumed metric i,
              keep_duration (str_join ''.'' [TopicName metric, ConsumerName metric])
                (TimeDurationMs metric) consumed,
              published)
        else (count_published metric i, consumed,
              keep_duration (TopicName metric) (TimeDurationMs metric) published))"

fun percentiles :: "int \<Rightarrow> int list gomap \<Rightarrow> int gomap \<Rightarrow> int gomap" where
  "percentiles p [] m = m"
| "percentiles p ((key, data) # rest) m =
     percentiles p rest (go_put key (fst (percentile data p)) m)"

definition Metrics_Insights :: "sample list \<Rightarrow> Insights" where
  "Metrics_Insights ms =
     (case fold tally_metric ms (NewInsights, [], []) of (i, consumed, published) \<Rightarrow>
        i\<lparr>P99Consumed := percentiles p99 consumed (P99Consumed i),
          P75Consumed := percentiles p75 consumed (P75Consumed i),
          P99Published := percentiles p99 published (P99Published i),
          P75Published := percentiles p75 published (P75Published i),
          PercentageConsumedSuccess := percentage (TotalConsumedWithSuccess i) (TotalConsumed i),
          PercentagePublishedSuccess := percentage (TotalPublishedWithSuccess i) (TotalPublished i)\<rparr>)"

section \<open>What the figures count\<close>

abbreviation tally_all :: "sample list \<Rightarrow> tally" where
  "tally_all ms \<equiv> fold tally_metric ms (NewInsights, [], [])"

lemma tally_snoc: "tally_all (ms @ [m]) = tally_metric m (tally_all ms)"
  by simp

definition consumes :: "sample \<Rightarrow> bool" where
  "consumes s \<longleftrightarrow> ConsumerName s \<noteq> []"

definition count_of :: "(sample \<Rightarrow> bool) \<Rightarrow> sample list \<Rightarrow> nat" where
  "count_of P ms = length (filter P ms)"

lemma count_of_simps [simp]:
  "count_of P [] = 0" "count_of P (ms @ [m]) = count_of P ms + (if P m then 1 else 0)"
  by (simp_all add: count_of_def)

lemma NewInsights_simps [simp]:
  "TotalConsumed NewInsights = 0" "TotalPublished NewInsights = 0"
  "TotalConsumedWithSuccess NewInsights = 0" "TotalConsumedWithErr NewInsights = 0"
  "TotalPublishedWithSuccess NewInsights = 0" "TotalPublishedWithErr NewInsights = 0"
  "TotalSegmentationPublished NewInsights = []" "TotalSegmentationConsumed NewInsights = []"
  "RpmPublisher NewInsights = []" "RpmConsumer NewInsights = []" "P99Consumed NewInsights = []"
  "P75Consumed NewInsights = []" "P99Published NewInsights = []" "P75Published NewInsights = []"
  by (simp_all add: NewInsights_def)

lemmas tally_defs = tally_metric_def count_consumed_def count_published_def Let_def consumes_def

lemma tally_totals:
  "TotalConsumed (fst (tally_all ms)) = count_of consumes ms"
  "TotalPublished (fst (tally_all ms)) = count_of (\<lambda>s. \<not> consumes s) ms"
  "TotalConsumedWithSuccess (fst (tally_all ms)) = count_of (\<lambda>s. consumes s \<and> ACK s) ms"
  "TotalConsumedWithErr (fst (tally_all ms)) = count_of (\<lambda>s. consumes s \<and> \<not> ACK s) ms"
  "TotalPublishedWithSuccess (fst (tally_all ms)) = count_of (\<lambda>s. \<not> consumes s \<and> ACK s) ms"
  "TotalPublishedWithErr (fst (tally_all ms)) = count_of (\<lambda>s. \<not> consumes s \<and> \<not> ACK s) ms"
  by (induction ms rule: rev_induct)
    (auto simp: tally_defs split: prod.splits)

text \<open>The counters per topic and per consumer.\<close>

definition counted :: "nat \<Rightarrow> nat option" where
  "counted n = (if n = 0 then None else Some n)"

lemma go_get_increment:
  "go_get (increment k m) k' = (if k' = k then Some ((case go_get m k of None \<Rightarrow> 0 | Some n \<Rightarrow> n) + 1) else go_get m k')"
  by (simp add: increment_def)

lemma tally_segments:
  "go_get (TotalSegmentationConsumed (fst (tally_all ms))) k =
     counted (count_of (\<lambda>s. consumes s \<and> ConsumerName s = k) ms)"
  "go_get (TotalSegmentationPublished (fst (tally_all ms))) k =
     counted (count_of (\<lambda>s. \<not> consumes s \<and> TopicName s = k) ms)"
  by (induction ms rule: rev_induct)
    (auto simp: tally_defs go_get_increment counted_def split: prod.splits)

text \<open>The samples kept for a key are those of its first metric.\<close>

lemma keep_duration_get:
  "go_get (keep_duration key v m) k =
     (case go_get m k of Some df \<Rightarrow> Some df | None \<Rightarrow> if k = key then Some [v] else None)"
  by (auto simp: keep_duration_def split: option.splits)

lemma gomap_ok_keep: "gomap_ok m \<Longrightarrow> gomap_ok (keep_duration key v m)"
  by (auto simp: keep_duration_def split: option.splits)

definition consumer_key :: "sample \<Rightarrow> string" where
  "consumer_key s = TopicName s @ ''.'' @ ConsumerName s"

lemma tally_kept:
  "go_get (fst (snd (tally_all ms))) k =
     map_option (\<lambda>s. [TimeDurationMs s]) (find (\<lambda>s. consumes s \<and> consumer_key s = k) ms)"
  "go_get (snd (snd (tally_all ms))) k =
     map_option (\<lambda>s. [TimeDurationMs s]) (find (\<lambda>s. \<not> consumes s \<and> TopicName s = k) ms)"
  "gomap_ok (fst (snd (tally_all ms)))" "gomap_ok (snd (snd (tally_all ms)))"
  "P99Consumed (fst (tally_all ms)) = []" "P75Consumed (fst (tally_all ms)) = []"
  "P99Published (fst (tally_all ms)) = []" "P75Published (fst (tally_all ms)) = []"
  by (induction ms rule: rev_induct)
    (auto simp: tally_defs keep_duration_get find_append consumer_key_def gomap_ok_keep
      split: prod.splits option.splits)

lemma percentiles_get:
  "gomap_ok m \<Longrightarrow> go_get (percentiles p m acc) k =
     (case go_get m k of Some data \<Rightarrow> Some (fst (percentile data p)) | None \<Rightarrow> go_get acc k)"
proof (induction p m acc rule: percentiles.induct)
  case (2 p key data rest m)
  then have "key \<notin> dom (go_get rest)" and "gomap_ok rest"
    by (auto simp: gomap_ok_def dom_map_of_conv_image_fst)
  with 2 show ?case by (auto split: option.splits)
qed simp

lemma percentile_single: "0 \<le> p \<Longrightarrow> p \<le> 2 ^ 53 \<Longrightarrow> percentile [v] p = (v, None)"
  by (simp add: percentile_def percentile_index_def Let_def)

lemma count_errors:
  "length (filter (\<lambda>s. P s \<and> \<not> ACK s) ms) =
     length (filter P ms) - length (filter (\<lambda>s. P s \<and> ACK s) ms)"
proof -
  have "length (filter P ms) = length (filter (\<lambda>s. P s \<and> ACK s) ms) + length (filter (\<lambda>s. P s \<and> \<not> ACK s) ms)"
    by (induction ms) auto
  then show ?thesis by simp
qed

text \<open>Claim C21: the totals of the insights are those of the metrics: a metric without a consumer's
  name counts as published, any other as consumed, each as a success or as an error, and the
  counters per topic and per consumer count the same metrics.\<close>

theorem Insights_totals:
  "let i = Metrics_Insights ms; published = filter (\<lambda>s. ConsumerName s = []) ms;
       consumed = filter (\<lambda>s. ConsumerName s \<noteq> []) ms in
   TotalPublished i = length published \<and> TotalConsumed i = length consumed \<and>
   TotalPublishedWithSuccess i = length (filter ACK published) \<and>
   TotalConsumedWithSuccess i = length (filter ACK consumed) \<and>
   TotalPublishedWithErr i = TotalPublished i - TotalPublishedWithSuccess i \<and>
   TotalConsumedWithErr i = TotalConsumed i - TotalConsumedWithSuccess i \<and>
   go_get (TotalSegmentationPublished i) k =
     counted (length (filter (\<lambda>s. TopicName s = k) published)) \<and>
   go_get (TotalSegmentationConsumed i) k =
     counted (length (filter (\<lambda>s. ConsumerName s = k) consumed))"
proof -
  obtain i c p where t: "tally_all ms = (i, c, p)" by (metis prod_cases3)
  show ?thesis
    using tally_totals [of ms] tally_segments [of ms k]
    by (simp add: Metrics_Insights_def t Let_def count_of_def consumes_def [abs_def] count_errors)
qed

text \<open>Claim C23: the percentiles reported for a topic or a consumer are the duration of its first
  metric, whatever the later ones are: the samples are appended to a local variable that is not
  stored back.\<close>

theorem Insights_percentiles_first:
  "let i = Metrics_Insights ms;
       first_published = find (\<lambda>s. ConsumerName s = [] \<and> TopicName s = k) ms;
       first_consumed = find (\<lambda>s. ConsumerName s \<noteq> [] \<and> TopicName s @ ''.'' @ ConsumerName s = k) ms in
   go_get (P99Published i) k = map_option TimeDurationMs first_published \<and>
   go_get (P75Published i) k = map_option TimeDurationMs first_published \<and>
   go_get (P99Consumed i) k = map_option TimeDurationMs first_consumed \<and>
   go_get (P75Consumed i) k = map_option TimeDurationMs first_consumed"
proof -
  obtain i c p where t: "tally_all ms = (i, c, p)" by (metis prod_cases3)
  have "0 \<le> p99" "p99 \<le> 2 ^ 53" "0 \<le> p75" "p75 \<le> 2 ^ 53" by (simp_all add: p99_def p75_def)
  note single = percentile_single [OF this(1,2)] percentile_single [OF this(3,4)]
  show ?thesis
    using tally_kept [of ms] 
    by (auto simp: Metrics_Insights_def t Let_def percentiles_get single consumes_def consumer_key_def
        split: option.splits)
qed

text \<open>With all samples the figure would be another one.\<close>

lemma percentile_of_two: "percentile [5, 100] p99 = (100, None)"
  by (simp add: percentile_def percentile_index_def p99_def Let_def round53_def bit_len.simps div_even_def)

section \<open>The series of requests per minute\<close>

text \<open>A series of \<open>n\<close> requests: never empty, one value per time, each counting at least one
  request, the times whole minutes and neighbours different.\<close>

definition series_of :: "nat \<Rightarrow> RPM \<Rightarrow> bool" where
  "series_of n d \<longleftrightarrow> Timeseries d \<noteq> [] \<and> length (Values d) = length (Timeseries d) \<and>
     sum_list (Values d) = int n \<and> list_all (\<lambda>v. 1 \<le> v) (Values d) \<and>
     successively (\<lambda>a b. \<not> same_time a b) (Timeseries d) \<and>
     list_all (\<lambda>t. unix_nano t mod 60000000000 = 0) (Timeseries d)"

definition rpm_counts :: "nat \<Rightarrow> RPM option \<Rightarrow> bool" where
  "rpm_counts n r = (case r of None \<Rightarrow> n = 0 | Some d \<Rightarrow> 0 < n \<and> series_of n d)"

lemma dateInMinute_minute [simp]: "unix_nano (dateInMinute t) mod 60000000000 = 0"
  by (simp add: dateInMinute_def)

lemma rpm_add_counts:
  assumes "rpm_counts n (go_get m key)" and "unix_nano t mod 60000000000 = 0"
  shows "rpm_counts (n + 1) (go_get (rpm_add key t m) key)"
proof (cases "go_get m key")
  case None
  with assms show ?thesis by (simp add: rpm_add_def rpm_counts_def series_of_def)
next
  case (Some d)
  with assms(1) have d: "Timeseries d \<noteq> []" "length (Values d) = length (Timeseries d)"
    "sum_list (Values d) = int n" "list_all (\<lambda>v. 1 \<le> v) (Values d)"
    "successively (\<lambda>a b. \<not> same_time a b) (Timeseries d)"
    "list_all (\<lambda>t. unix_nano t mod 60000000000 = 0) (Timeseries d)"
    by (simp_all add: rpm_counts_def series_of_def)
  obtain vs v where v: "Values d = vs @ [v]"
    using d(1,2) by (metis length_0_conv rev_exhaust)
  from d v assms(2) Some show ?thesis
    by (auto simp: rpm_add_def rpm_counts_def series_of_def successively_append_iff)
qed

lemma rpm_add_other: "k \<noteq> key \<Longrightarrow> go_get (rpm_add key t m) k = go_get m k"
  by (auto simp: rpm_add_def split: option.splits)

definition rpm_key :: "sample \<Rightarrow> string" where
  "rpm_key s = TopicName s @ '':'' @ ConsumerName s"

lemma rpm_add_sample:
  assumes "rpm_counts n (go_get m k)"
  shows "rpm_counts (n + (if key = k then 1 else 0)) (go_get (rpm_add key (dateInMinute t) m) k)"
  using rpm_add_counts [of n m key "dateInMinute t"] rpm_add_other [of k key] assms by auto

lemma tally_rpm:
  "rpm_counts (count_of (\<lambda>s. \<not> consumes s \<and> TopicName s = k) ms) (go_get (RpmPublisher (fst (tally_all ms))) k)"
  "rpm_counts (count_of (\<lambda>s. consumes s \<and> rpm_key s = k) ms) (go_get (RpmConsumer (fst (tally_all ms))) k)"
proof (induction ms rule: rev_induct)
  case (snoc m ms)
  obtain i c p where t: "tally_all ms = (i, c, p)" by (metis prod_cases3)
  have s: "tally_all (ms @ [m]) = tally_metric m (i, c, p)" using t by simp
  note IH = snoc [unfolded t fst_conv]
  note defs = tally_defs RpmPublisher_add_def RpmConsumer_add_def rpm_key_def
  { case 1
    show ?case unfolding s
      using IH(1) rpm_add_sample [OF IH(1), of "TopicName m" "TimeEnded m"] by (auto simp: defs split: if_splits)
  next
    case 2
    show ?case unfolding s
      using IH(2) rpm_add_sample [OF IH(2), of "rpm_key m" "TimeEnded m"] by (auto simp: defs split: if_splits) }
qed (simp_all add: rpm_counts_def)

text \<open>Claim C22: the requests per minute of a topic, or of a topic and a consumer, add up to the
  number of its metrics; a series exists exactly when there is one, it is never empty (so the last
  element the code reads exists), its times are whole minutes and its values at least one.\<close>

theorem Insights_rpm:
  "rpm_counts (length (filter (\<lambda>s. ConsumerName s = [] \<and> TopicName s = k) ms))
     (go_get (RpmPublisher (Metrics_Insights ms)) k) \<and>
   rpm_counts (length (filter (\<lambda>s. ConsumerName s \<noteq> [] \<and> TopicName s @ '':'' @ ConsumerName s = k) ms))
     (go_get (RpmConsumer (Metrics_Insights ms)) k)"
proof -
  obtain i c p where t: "tally_all ms = (i, c, p)" by (metis prod_cases3)
  then show ?thesis
    using tally_rpm [where ms = ms and k = k]
    by (simp add: Metrics_Insights_def count_of_def consumes_def rpm_key_def)
qed

end
