(* ===== verification/Logs.thy ===== *)
theory Logs
  imports Environment Cfg
begin

text \<open>
  \<open>pkg/logs/slog.go\<close>: the logger of the program over \<open>log/slog\<close> and its default instance, a package
  variable set up once. A logger is a pointer, \<open>None\<close> the nil one. The handler of \<open>slog\<close> writes a
  record when its level is at least the configured one; a written record is a call \<open>log\<close> with the
  message, the attributes of the logger and those of the call. The state of the process starts here:
  its configuration, read again from the environment by every \<open>cfg.Get\<close>, and its logger.
\<close>

section \<open>Levels and options\<close>

type_synonym LogLevel = int

definition LevelDebug :: LogLevel where "LevelDebug = 0"

definition LevelInfo :: LogLevel where "LevelInfo = 1"

definition LevelWarn :: LogLevel where "LevelWarn = 2"

definition LevelError :: LogLevel where "LevelError = 3"

text \<open>The levels of \<open>slog\<close> are the numbers -4, 0, 4 and 8.\<close>

definition GetLevel :: "LogLevel \<Rightarrow> int" where
  "GetLevel l =
     (if l = LevelDebug then - 4
      else if l = LevelInfo then 0
      else if l = LevelWarn then 4
      else if l = LevelError then 8
      else 0)"

record logConfig =
  lc_level :: LogLevel
  lc_output :: string
  lc_addSource :: bool
  lc_jsonFormat :: bool
  lc_timeFormat :: string

type_synonym LogOption = "logConfig \<Rightarrow> logConfig"

definition WithLevel :: "LogLevel \<Rightarrow> LogOption" where
  "WithLevel level c = c\<lparr>lc_level := level\<rparr>"

definition WithOutput :: "string \<Rightarrow> LogOption" where
  "WithOutput out c = c\<lparr>lc_output := out\<rparr>"

definition WithSource :: LogOption where
  "WithSource c = c\<lparr>lc_addSource := True\<rparr>"

definition WithJSONFormat :: "bool \<Rightarrow> LogOption" where
  "WithJSONFormat enabled c = c\<lparr>lc_jsonFormat := enabled\<rparr>"

definition WithTimeFormat :: "string \<Rightarrow> LogOption" where
  "WithTimeFormat format c = c\<lparr>lc_timeFormat := format\<rparr>"

section \<open>Loggers\<close>

record Logger =
  lg_level :: int
  lg_output :: string
  lg_source :: bool
  lg_json :: bool
  lg_attrs :: "string list"

record log_world = world +
  package_cfg :: Config
  env_vars :: read_env
  defaultLogger :: "Logger option"
  log_once :: bool

definition Cfg_Get :: "'a log_world_scheme \<Rightarrow> Config run \<times> 'a log_world_scheme" where
  "Cfg_Get w = (case cfg_Get (env_vars w) (package_cfg w) of (r, c) \<Rightarrow> (r, w\<lparr>package_cfg := c\<rparr>))"

definition logs_New :: "LogOption list \<Rightarrow> 'a log_world_scheme \<Rightarrow> Logger run \<times> 'a log_world_scheme" where
  "logs_New opts w =
     (case Cfg_Get w of
        (Panics p, w1) \<Rightarrow> (Panics p, w1)
      | (Returns c, w1) \<Rightarrow>
          (let config = fold (\<lambda>opt. opt) opts
                 \<lparr>lc_level = LogLevel c, lc_output = ''stdout'', lc_addSource = False,
                  lc_jsonFormat = True, lc_timeFormat = []\<rparr>
           in (Returns \<lparr>lg_level = GetLevel (lc_level config), lg_output = lc_output config,
                 lg_source = lc_addSource config, lg_json = lc_jsonFormat config, lg_attrs = []\<rparr>, w1)))"

text \<open>\<open>sync.Once\<close> counts a function that panicked as run.\<close>

definition logs_Default :: "'a log_world_scheme
    \<Rightarrow> Logger option run \<times> 'a log_world_scheme" where
  "logs_Default w =
     (if log_once w then (Returns (defaultLogger w), w)
      else (case logs_New [] (w\<lparr>log_once := True\<rparr>) of
          (Panics p, w1) \<Rightarrow> (Panics p, w1)
        | (Returns l, w1) \<Rightarrow> (Returns (Some l), w1\<lparr>defaultLogger := Some l\<rparr>)))"

definition SetDefault :: "Logger option \<Rightarrow> 'a log_world_scheme \<Rightarrow> 'a log_world_scheme" where
  "SetDefault l w = w\<lparr>defaultLogger := l\<rparr>"

definition nil_logger :: error where
  "nil_logger = ErrText ''invalid memory address or nil pointer dereference''"

text \<open>\<open>l.slogger.Log(level, msg, args)\<close> and the methods over it.\<close>

definition log_at :: "int \<Rightarrow> Logger option \<Rightarrow> string \<Rightarrow> string list \<Rightarrow> 'a world_scheme
    \<Rightarrow> unit run \<times> 'a world_scheme" where
  "log_at level l msg args w =
     (case l of
        None \<Rightarrow> (Panics nil_logger, w)
      | Some lg \<Rightarrow>
          (Returns (), if level \<ge> lg_level lg then tell (Other ''log'' (msg # lg_attrs lg @ args)) w else w))"

definition Logger_Debug :: "Logger option \<Rightarrow> string \<Rightarrow> string list \<Rightarrow> 'a world_scheme \<Rightarrow> unit run \<times> 'a world_scheme" where
  "Logger_Debug l msg args w = log_at (- 4) l msg args w"

definition Logger_Info :: "Logger option \<Rightarrow> string \<Rightarrow> string list \<Rightarrow> 'a world_scheme \<Rightarrow> unit run \<times> 'a world_scheme" where
  "Logger_Info l msg args w = log_at 0 l msg args w"

definition Logger_Warn :: "Logger option \<Rightarrow> string \<Rightarrow> string list \<Rightarrow> 'a world_scheme \<Rightarrow> unit run \<times> 'a world_scheme" where
  "Logger_Warn l msg args w = log_at 4 l msg args w"

definition Logger_Error :: "Logger option \<Rightarrow> string \<Rightarrow> string list \<Rightarrow> 'a world_scheme \<Rightarrow> unit run \<times> 'a world_scheme" where
  "Logger_Error l msg args w = log_at 8 l msg args w"

definition Logger_WithContext :: "Logger option \<Rightarrow> Logger option" where
  "Logger_WithContext l = l"

definition Logger_With :: "Logger option \<Rightarrow> string list \<Rightarrow> Logger option run" where
  "Logger_With l args =
     (case l of
        None \<Rightarrow> Panics nil_logger
      | Some lg \<Rightarrow> Returns (Some (lg\<lparr>lg_attrs := lg_attrs lg @ args\<rparr>)))"

section \<open>The shortcuts of the package\<close>

definition on_default :: "(Logger option \<Rightarrow> 'a log_world_scheme \<Rightarrow> 'b run \<times> 'a log_world_scheme)
    \<Rightarrow> 'a log_world_scheme \<Rightarrow> 'b run \<times> 'a log_world_scheme" where
  "on_default f w =
     (case logs_Default w of (Panics p, w1) \<Rightarrow> (Panics p, w1) | (Returns l, w1) \<Rightarrow> f l w1)"

definition logs_Debug :: "string \<Rightarrow> string list \<Rightarrow> 'a log_world_scheme
    \<Rightarrow> unit run \<times> 'a log_world_scheme" where
  "logs_Debug msg args = on_default (\<lambda>l. Logger_Debug l msg args)"

definition logs_Info :: "string \<Rightarrow> string list \<Rightarrow> 'a log_world_scheme
    \<Rightarrow> unit run \<times> 'a log_world_scheme" where
  "logs_Info msg args = on_default (\<lambda>l. Logger_Info l msg args)"

definition logs_Warn :: "string \<Rightarrow> string list \<Rightarrow> 'a log_world_scheme
    \<Rightarrow> unit run \<times> 'a log_world_scheme" where
  "logs_Warn msg args = on_default (\<lambda>l. Logger_Warn l msg args)"

definition logs_Error :: "string \<Rightarrow> string list \<Rightarrow> 'a log_world_scheme
    \<Rightarrow> unit run \<times> 'a log_world_scheme" where
  "logs_Error msg args = on_default (\<lambda>l. Logger_Error l msg args)"

definition logs_With :: "string list \<Rightarrow> 'a log_world_scheme
    \<Rightarrow> Logger option run \<times> 'a log_world_scheme" where
  "logs_With args = on_default (\<lambda>l w. (Logger_With l args, w))"

section \<open>The default logger\<close>

text \<open>The logger \<open>New\<close> builds from a configuration without options.\<close>

definition logger_of :: "Config \<Rightarrow> Logger" where
  "logger_of c = \<lparr>lg_level = GetLevel (LogLevel c), lg_output = ''stdout'', lg_source = False,
     lg_json = True, lg_attrs = []\<rparr>"

lemma logs_New_plain: "Cfg_Get w = (Returns c, w1) \<Longrightarrow> logs_New [] w = (Returns (logger_of c), w1)"
  by (simp add: logs_New_def logger_of_def)

text \<open>Reading the configuration leaves the logger alone.\<close>

lemma Cfg_Get_logger:
  "Cfg_Get w = (r, w') \<Longrightarrow> log_once w' = log_once w \<and> defaultLogger w' = defaultLogger w"
  by (auto simp: Cfg_Get_def split: prod.splits)

lemma logs_Default_again: "log_once w \<Longrightarrow> logs_Default w = (Returns (defaultLogger w), w)"
  by (simp add: logs_Default_def)

lemma logs_Default_first:
  "\<not> log_once w \<Longrightarrow> Cfg_Get (w\<lparr>log_once := True\<rparr>) = (Returns c, w1) \<Longrightarrow>
     logs_Default w = (Returns (Some (logger_of c)), w1\<lparr>defaultLogger := Some (logger_of c)\<rparr>)"
  by (simp add: logs_Default_def logs_New_plain)

lemma logs_Default_once: "logs_Default w = (r, w') \<Longrightarrow> log_once w'"
proof (cases "Cfg_Get (w\<lparr>log_once := True\<rparr>)")
  case (Pair c w1)
  assume "logs_Default w = (r, w')"
  with Pair Cfg_Get_logger [OF Pair] show ?thesis
    by (cases c) (auto simp: logs_Default_def logs_New_def Let_def split: if_splits)
qed

text \<open>Before the first use of the default logger \<open>SetDefault\<close> is lost: the first use builds the
  logger of the configuration over it. After it, \<open>SetDefault\<close> stays.\<close>

lemma SetDefault_only_after_use:
  assumes "\<not> log_once w" and "logs_Default (SetDefault l w) = (Returns r1, w1)"
    and "logs_Default (SetDefault l' w1) = (r2, w2)"
  shows "(\<exists>c. r1 = Some (logger_of c)) \<and> r2 = Returns l'"
proof -
  have n: "\<not> log_once (SetDefault l w)" using assms(1) by (simp add: SetDefault_def)
  obtain c v where c: "Cfg_Get ((SetDefault l w)\<lparr>log_once := True\<rparr>) = (c, v)" by (metis prod.collapse)
  with n assms(2) have "\<exists>c. r1 = Some (logger_of c)"
    by (cases c) (auto simp: logs_Default_first logs_Default_def logs_New_def logger_of_def)
  moreover have "log_once (SetDefault l' w1)" "defaultLogger (SetDefault l' w1) = l'"
    using logs_Default_once [OF assms(2)] by (simp_all add: SetDefault_def)
  ultimately show ?thesis using assms(3) by (simp add: logs_Default_again)
qed

text \<open>A configuration that panics on the first use leaves the logger nil for every later one, whose
  use panics again.\<close>

lemma Default_after_panic:
  assumes "\<not> log_once w" and "defaultLogger w = None" and "logs_Default w = (Panics p, w1)"
  shows "logs_Info msg args w1 = (Panics nil_logger, w1)"
proof -
  obtain c v where c: "Cfg_Get (w\<lparr>log_once := True\<rparr>) = (c, v)" by (metis prod.collapse)
  with assms(1,3) have "v = w1" by (cases c) (auto simp: logs_Default_def logs_New_def Let_def)
  with Cfg_Get_logger [OF c] assms(2) have "log_once w1" "defaultLogger w1 = None" by simp_all
  then show ?thesis by (simp add: logs_Info_def on_default_def logs_Default_again Logger_Info_def log_at_def)
qed

text \<open>A record is written exactly when its level is at least the logger's.\<close>

lemma log_at_written:
  "log_at level (Some lg) msg args w = (r, w') \<Longrightarrow>
     r = Returns () \<and>
     calls w' = calls w @ (if level \<ge> lg_level lg then [Other ''log'' (msg # lg_attrs lg @ args)] else [])"
  by (auto simp: log_at_def)

text \<open>The time format is an option nothing reads.\<close>

lemma WithTimeFormat_ignored: "logs_New (opts @ [WithTimeFormat f]) w = logs_New opts w"
  by (auto simp: logs_New_def WithTimeFormat_def Let_def fold_append split: prod.splits run.splits)

end
