(* ===== verification/Interstore.thy ===== *)
theory Interstore
  imports Domain Logs
begin

text \<open>
  \<open>internal/interstore\<close> and \<open>cmd/setup/memstore\<close>: the events in PostgreSQL (\<open>postgres_store.go\<close>,
  \<open>model_event.go\<close>), the copy of them in memory (\<open>mem_store.go\<close>) and the loop that refreshes it
  (\<open>task_sync.go\<close>).

  A statement is sent to the server, which may refuse it; an accepted one has the effect its SQL
  text says on the table of \<open>deployment/tables.sql\<close>. How the server prints a \<open>JSONB\<close> column is
  the parameter \<open>jsonb\<close>, and which rows it returns for the text that \<open>GetInternalEvents\<close> puts
  together the parameter \<open>sql_rows\<close>. The texts of the statements are those of the code with their
  white space shortened.
\<close>

section \<open>The table\<close>

record row =
  r_id :: string
  r_name :: string
  r_service_name :: string
  r_state :: string
  r_consumers :: bytes
  r_opts :: bytes
  r_created_at :: int
  r_updated_at :: int
  r_deleted :: bool

record db_world = log_world +
  events_table :: "row list"
  jsonb :: "bytes \<Rightarrow> bytes"
  sql_rows :: "string \<Rightarrow> row list \<Rightarrow> row list"

definition table_ok :: "row list \<Rightarrow> bool" where
  "table_ok t \<longleftrightarrow> distinct (map r_id t) \<and> distinct (map r_name t)"

definition duplicate_key :: error where
  "duplicate_key = ErrText ''pq: duplicate key value violates unique constraint''"

text \<open>\<open>INSERT ... ON CONFLICT (name) DO UPDATE\<close>: the row of the name keeps its id, its creation time
  and whether it is deleted.\<close>

definition upsert_row :: "row \<Rightarrow> row list \<Rightarrow> row list result" where
  "upsert_row new t =
     (if r_name new \<in> set (map r_name t)
      then Inr (map (\<lambda>r. if r_name r = r_name new
                         then r\<lparr>r_service_name := r_service_name new, r_state := r_state new,
                                r_consumers := r_consumers new, r_opts := r_opts new,
                                r_updated_at := r_updated_at new\<rparr>
                         else r) t)
      else if r_id new \<in> set (map r_id t) then Inl duplicate_key
      else Inr (t @ [new]))"

definition disable_row :: "string \<Rightarrow> row list \<Rightarrow> row list" where
  "disable_row i t =
     map (\<lambda>r. if r_id r = i \<and> \<not> r_deleted r then r\<lparr>r_state := ''disabled'', r_deleted := True\<rparr> else r) t"

definition update_row :: "row \<Rightarrow> row list \<Rightarrow> row list result" where
  "update_row new t =
     (let hit = (\<lambda>r. r_id r = r_id new \<and> \<not> r_deleted r)
      in if (\<exists>r\<in>set t. hit r) \<and> (\<exists>r\<in>set t. \<not> hit r \<and> r_name r = r_name new) then Inl duplicate_key
         else Inr (map (\<lambda>r. if hit r
                            then r\<lparr>r_name := r_name new, r_service_name := r_service_name new,
                                   r_state := r_state new, r_consumers := r_consumers new,
                                   r_opts := r_opts new\<rparr>
                            else r) t))"

definition exec_sql :: "string \<Rightarrow> (row list \<Rightarrow> row list result) \<Rightarrow> 'a db_world_scheme
    \<Rightarrow> error option \<times> 'a db_world_scheme" where
  "exec_sql sql effect w =
     (case ask_err (SqlExec sql) w of
        (Some e, w1) \<Rightarrow> (Some e, w1)
      | (None, w1) \<Rightarrow> (case effect (events_table w1) of
                         Inl e \<Rightarrow> (Some e, w1)
                       | Inr t \<Rightarrow> (None, w1\<lparr>events_table := t\<rparr>)))"

definition query_sql :: "string \<Rightarrow> (row list \<Rightarrow> row list) \<Rightarrow> 'a db_world_scheme
    \<Rightarrow> row list result \<times> 'a db_world_scheme" where
  "query_sql sql select w =
     (case ask_err (SqlQuery sql) w of
        (Some e, w1) \<Rightarrow> (Inl e, w1)
      | (None, w1) \<Rightarrow> (Inr (select (events_table w1)), w1))"

definition ErrNoRows :: error where
  "ErrNoRows = ErrNew ''sql.ErrNoRows'' ''sql: no rows in result set''"

definition query_row :: "string \<Rightarrow> (row \<Rightarrow> bool) \<Rightarrow> 'a db_world_scheme
    \<Rightarrow> row result \<times> 'a db_world_scheme" where
  "query_row sql P w =
     (case query_sql sql (filter P) w of
        (Inl e, w1) \<Rightarrow> (Inl e, w1)
      | (Inr [], w1) \<Rightarrow> (Inl ErrNoRows, w1)
      | (Inr (r # _), w1) \<Rightarrow> (Inr r, w1))"

section \<open>Rows and events (model_event.go)\<close>

record ModelEvent =
  m_ID :: string
  m_Name :: string
  m_ServiceName :: string
  m_State :: string
  m_Consumers :: bytes
  m_Option :: bytes

abbreviation into_consumers :: "Consumer list option decoder" where
  "into_consumers \<equiv> into_slice into_Consumer zero_Consumer"

definition ToDomain :: "ModelEvent \<Rightarrow> Event" where
  "ToDomain m =
     (let (consumers, _) = unmarshal into_consumers None (m_Consumers m);
          (option, _) = unmarshal into_Opt zero_Opt (m_Option m)
      in \<lparr>ID = m_ID m, event_Name = m_Name m, ServiceName = m_ServiceName m, State = m_State m,
          Type = [], Option = option, Consumers = consumers\<rparr>)"

definition scan_row :: "'a db_world_scheme \<Rightarrow> row \<Rightarrow> ModelEvent" where
  "scan_row w r = \<lparr>m_ID = r_id r, m_Name = r_name r, m_ServiceName = r_service_name r,
     m_State = r_state r, m_Consumers = jsonb w (r_consumers r), m_Option = jsonb w (r_opts r)\<rparr>"

definition modelEventFields :: string where
  "modelEventFields = ''id, name, service_name, state, consumers, opts''"

text \<open>\<open>for rows.Next()\<close> with its \<open>Scan\<close>, and \<open>rows.Err()\<close> after it.\<close>

fun scan_rows :: "string \<Rightarrow> row list \<Rightarrow> Event list \<Rightarrow> 'a db_world_scheme
    \<Rightarrow> Event list result \<times> 'a db_world_scheme" where
  "scan_rows what [] acc w =
     (case ask_err (Other ''rows.Err'' []) w of
        (Some e, w1) \<Rightarrow> (Inl (ErrWrap what e), w1) | (None, w1) \<Rightarrow> (Inr acc, w1))"
| "scan_rows what (r # rs) acc w =
     (case ask_err (Other ''rows.Scan'' []) w of
        (Some e, w1) \<Rightarrow> (Inl (ErrWrap ''failed to scan row'' e), w1)
      | (None, w1) \<Rightarrow> scan_rows what rs (acc @ [ToDomain (scan_row w1 r)]) w1)"

section \<open>The store in PostgreSQL (postgres_store.go)\<close>

text \<open>A slice and an error; \<open>nil\<close> slices are \<open>None\<close>.\<close>

type_synonym events_result = "Event list option \<times> error option"

definition quoted :: "string \<Rightarrow> string" where
  "quoted s = CHR 0x27 # s @ [CHR 0x27]"

definition read_events :: "string \<Rightarrow> (row list \<Rightarrow> row list) \<Rightarrow> 'a db_world_scheme
    \<Rightarrow> events_result \<times> 'a db_world_scheme" where
  "read_events sql select w =
     (case query_sql sql select w of
        (Inl e, w1) \<Rightarrow> ((None, Some (ErrWrap ''failed to query events'' e)), w1)
      | (Inr rows, w1) \<Rightarrow>
          (case scan_rows ''failed to iterate over events'' rows [] w1 of
             (Inl e, w2) \<Rightarrow> ((None, Some e), w2)
           | (Inr es, w2) \<Rightarrow> ((Some es, None), w2)))"

definition GetAllEvents :: "'a db_world_scheme \<Rightarrow> events_result \<times> 'a db_world_scheme" where
  "GetAllEvents w =
     read_events (''SELECT '' @ modelEventFields @
         '' FROM events WHERE deleted_at IS NULL AND state != '' @ quoted ''archived'')
       (filter (\<lambda>r. \<not> r_deleted r \<and> r_state r \<noteq> ''archived'')) w"

definition event_by_name_sql :: string where
  "event_by_name_sql = ''SELECT id, name, service_name, consumers, opts FROM events WHERE name = $1 AND deleted_at IS NULL''"

definition GetInternalEvent :: "string \<Rightarrow> 'a db_world_scheme \<Rightarrow> Event result \<times> 'a db_world_scheme" where
  "GetInternalEvent eventName w =
     (case query_row event_by_name_sql
              (\<lambda>r. r_name r = eventName \<and> \<not> r_deleted r) w of
        (Inl e, w1) \<Rightarrow>
          (Inl (if errors_is e ErrNoRows then EventNotFound
                else ErrWrap ''failed to get internal event'' e), w1)
      | (Inr r, w1) \<Rightarrow>
          (let event = zero_Event\<lparr>ID := r_id r, event_Name := r_name r, ServiceName := r_service_name r\<rparr>
           in case unmarshal into_consumers (Consumers event) (jsonb w1 (r_consumers r)) of
                (_, Some e) \<Rightarrow> (Inl (ErrWrap ''failed to unmarshal consumers'' e), w1)
              | (cs, None) \<Rightarrow>
                  (case unmarshal into_Opt (Option event) (jsonb w1 (r_opts r)) of
                     (_, Some e) \<Rightarrow> (Inl (ErrWrap ''failed to unmarshal event option'' e), w1)
                   | (opt, None) \<Rightarrow> (Inr (event\<lparr>Consumers := cs, Option := opt\<rparr>), w1))))"

text \<open>The condition is put together from the filter: each list quoted and joined, the second and
  third with a leading \<open>AND\<close>. \<open>Page - 1\<close> is a Go \<open>uint\<close>.\<close>

definition in_list :: "string list \<Rightarrow> string" where
  "in_list vs = ''('' @ quoted (str_join (quoted '', '') vs) @ '')''"

definition sql_filter :: "FilterEvents \<Rightarrow> string" where
  "sql_filter f =
     (if length (f_State f) > 0 then ''state IN '' @ in_list (f_State f) else []) @
     (if length (f_TeamOwner f) > 0 then ''AND team_owner IN '' @ in_list (f_TeamOwner f) else []) @
     (if length (f_ServiceName f) > 0 then ''AND service_name IN '' @ in_list (f_ServiceName f) else [])"

definition uint_pred :: "nat \<Rightarrow> nat" where
  "uint_pred n = (n + (2 ^ 64 - 1)) mod 2 ^ 64"

definition events_query :: "FilterEvents \<Rightarrow> string" where
  "events_query f =
     ''SELECT '' @ modelEventFields @ '' FROM events WHERE '' @ sql_filter f @ '' LIMIT '' @
     nat_dec (f_Limit f) @ '' OFFSET '' @ nat_dec (uint_pred (f_Page f))"

definition GetInternalEvents :: "FilterEvents \<Rightarrow> 'a db_world_scheme \<Rightarrow> events_result \<times> 'a db_world_scheme" where
  "GetInternalEvents filters w =
     read_events (events_query filters) (sql_rows w (events_query filters)) w"

definition marshal_columns :: "Event \<Rightarrow> (bytes \<times> bytes) result" where
  "marshal_columns event =
     (let consumersJSON = json_text (enc_slice Consumer_json (Consumers event))
      in case Opt_json (Option event) of
           Inl e \<Rightarrow> Inl (ErrWrap ''failed to marshal event option'' e)
         | Inr j \<Rightarrow> Inr (consumersJSON, json_text j))"

definition new_uuid :: "'a world_scheme \<Rightarrow> string \<times> 'a world_scheme" where
  "new_uuid w = (case ask NewUUID w of (r, w1) \<Rightarrow> (case r of GotText u \<Rightarrow> u | _ \<Rightarrow> [], w1))"

definition upsert_sql :: string where
  "upsert_sql = ''INSERT INTO events (id, name, service_name, state, consumers, opts, created_at, updated_at) VALUES ($1, $2, $3, $4, $5, $6, $7, $8) ON CONFLICT (name) DO UPDATE SET service_name = EXCLUDED.service_name, state = EXCLUDED.state, consumers = EXCLUDED.consumers, opts = EXCLUDED.opts, updated_at = EXCLUDED.updated_at''"

definition new_row :: "string \<Rightarrow> int \<Rightarrow> bytes \<Rightarrow> bytes \<Rightarrow> Event \<Rightarrow> row" where
  "new_row i now consumersJSON optsJSON event =
     \<lparr>r_id = i, r_name = event_Name event, r_service_name = ServiceName event,
      r_state = (if State event = [] then ''active'' else State event),
      r_consumers = consumersJSON, r_opts = optsJSON,
      r_created_at = now, r_updated_at = now, r_deleted = False\<rparr>"

definition Upsert :: "Event \<Rightarrow> 'a db_world_scheme \<Rightarrow> error option \<times> 'a db_world_scheme" where
  "Upsert event w =
     (case marshal_columns event of
        Inl e \<Rightarrow> (Some e, w)
      | Inr (consumersJSON, optsJSON) \<Rightarrow>
          (let (now, w1) = time_now w;
               (id, w2) = new_uuid w1
           in case exec_sql upsert_sql (upsert_row (new_row id now consumersJSON optsJSON event)) w2 of
                (Some e, w3) \<Rightarrow> (Some (ErrWrap ''failed to upsert internal event'' e), w3)
              | (None, w3) \<Rightarrow> (None, w3)))"

definition GetEventByID :: "string \<Rightarrow> 'a db_world_scheme \<Rightarrow> Event result \<times> 'a db_world_scheme" where
  "GetEventByID eventID w =
     (case query_row (''SELECT '' @ modelEventFields @ '' FROM events WHERE id = $1 AND deleted_at IS NULL'')
              (\<lambda>r. r_id r = eventID \<and> \<not> r_deleted r) w of
        (Inl e, w1) \<Rightarrow>
          (Inl (if errors_is e ErrNoRows then EventNotFound
                else ErrWrap ''failed to get event by id'' e), w1)
      | (Inr r, w1) \<Rightarrow> (Inr (ToDomain (scan_row w1 r)), w1))"

text \<open>The slice is \<open>nil\<close> when there is no row.\<close>

definition GetAllSchedulers :: "string \<Rightarrow> 'a db_world_scheme \<Rightarrow> events_result \<times> 'a db_world_scheme" where
  "GetAllSchedulers state w =
     (case query_sql (''SELECT '' @ modelEventFields @ '' FROM events WHERE state = $1 AND deleted_at IS NULL'')
              (filter (\<lambda>r. r_state r = state \<and> \<not> r_deleted r)) w of
        (Inl e, w1) \<Rightarrow>
          ((None, Some (if errors_is e ErrNoRows then EventNotFound
                        else ErrWrap ''failed to get all schedulers'' e)), w1)
      | (Inr rows, w1) \<Rightarrow>
          (case scan_rows ''failed to get all schedulers'' rows [] w1 of
             (Inl e, w2) \<Rightarrow> ((None, Some e), w2)
           | (Inr es, w2) \<Rightarrow> ((if es = [] then None else Some es, None), w2)))"

definition DisabledEvent :: "string \<Rightarrow> 'a db_world_scheme \<Rightarrow> error option \<times> 'a db_world_scheme" where
  "DisabledEvent eventID w =
     (case exec_sql (''UPDATE events SET state = '' @ quoted ''disabled'' @
                '', deleted_at = NOW() WHERE id = $1 AND deleted_at IS NULL;'')
              (\<lambda>t. Inr (disable_row eventID t)) w of
        (Some e, w1) \<Rightarrow> (Some (ErrWrap ''failed to disable event'' e), w1)
      | (None, w1) \<Rightarrow> (None, w1))"

definition UpdateEvent :: "Event \<Rightarrow> 'a db_world_scheme \<Rightarrow> error option \<times> 'a db_world_scheme" where
  "UpdateEvent event w =
     (case marshal_columns event of
        Inl e \<Rightarrow> (Some e, w)
      | Inr (consumersJSON, optsJSON) \<Rightarrow>
          (case exec_sql ''UPDATE events SET name = $2, service_name = $3, state = $4, consumers = $5, opts = $6 WHERE id = $1 AND deleted_at IS NULL;''
                  (update_row \<lparr>r_id = ID event, r_name = event_Name event,
                     r_service_name = ServiceName event, r_state = State event,
                     r_consumers = consumersJSON, r_opts = optsJSON,
                     r_created_at = 0, r_updated_at = 0, r_deleted = False\<rparr>) w of
             (Some e, w1) \<Rightarrow> (Some (ErrWrap ''failed to update event'' e), w1)
           | (None, w1) \<Rightarrow> (None, w1)))"

section \<open>The store in memory (mem_store.go)\<close>

record store_world = db_world +
  topicEvents :: "Event gomap"
  retryTopics :: "Event gomap"

fun events_map :: "Event list \<Rightarrow> Event gomap \<Rightarrow> Event gomap" where
  "events_map [] m = m"
| "events_map (e # es) m = events_map es (go_put (event_Name e) e m)"

definition NewMemStore :: "'a store_world_scheme \<Rightarrow> 'a store_world_scheme" where
  "NewMemStore w = w\<lparr>topicEvents := [], retryTopics := []\<rparr>"

definition MemStore_Refresh :: "Event list \<Rightarrow> 'a store_world_scheme \<Rightarrow> 'a store_world_scheme" where
  "MemStore_Refresh events w = w\<lparr>topicEvents := events_map events []\<rparr>"

definition MemStore_RefreshRetryTopics :: "Event list \<Rightarrow> 'a store_world_scheme \<Rightarrow> 'a store_world_scheme" where
  "MemStore_RefreshRetryTopics events w = w\<lparr>retryTopics := events_map events []\<rparr>"

text \<open>\<open>persistent\<close> is the \<open>GetAllEvents\<close> of the persistent store. An error that is \<open>EventNotFound\<close>
  empties the store.\<close>

definition LoadInMemStore :: "('a store_world_scheme \<Rightarrow> events_result \<times> 'a store_world_scheme)
    \<Rightarrow> 'a store_world_scheme \<Rightarrow> error option \<times> 'a store_world_scheme" where
  "LoadInMemStore persistent w =
     (case persistent w of
        ((events, Some e), w1) \<Rightarrow>
          if \<not> errors_is e EventNotFound
          then (Some (ErrWrap ''error loading events into in-memory store'' e), w1)
          else (None, MemStore_Refresh (case events of None \<Rightarrow> [] | Some es \<Rightarrow> es) w1)
      | ((events, None), w1) \<Rightarrow>
          (None, MemStore_Refresh (case events of None \<Rightarrow> [] | Some es \<Rightarrow> es) w1))"

definition MemStore_GetEvent :: "string \<Rightarrow> 'a store_world_scheme \<Rightarrow> Event result \<times> 'a store_world_scheme" where
  "MemStore_GetEvent eventName w =
     (case go_get (topicEvents w) eventName of
        None \<Rightarrow>
          (Inl EventNotFound,
           Metric_Increment MemStoreEventNotFound
             [(''event_name'', AStr eventName), (''error'', AStr (error_msg EventNotFound))] w)
      | Some event \<Rightarrow> (Inr event, w))"

definition MemStore_GetAllSchedulers :: "string \<Rightarrow> 'a store_world_scheme \<Rightarrow> events_result \<times> 'a store_world_scheme" where
  "MemStore_GetAllSchedulers state w = ((None, Some EventNotFound), w)"

section \<open>The refresh loop (task_sync.go)\<close>

text \<open>What the loop waits for: a tick of the minute ticker or the end of the context. It runs over
  the signals that arrive; after the end of the context no more are read.\<close>

datatype signal = Tick | CtxDone

fun SyncMemStore :: "('a store_world_scheme \<Rightarrow> events_result \<times> 'a store_world_scheme)
    \<Rightarrow> signal list \<Rightarrow> 'a store_world_scheme \<Rightarrow> 'a store_world_scheme" where
  "SyncMemStore persistent [] w = w"
| "SyncMemStore persistent (CtxDone # s) w = w"
| "SyncMemStore persistent (Tick # s) w =
     (let (start, w1) = time_now w
      in case LoadInMemStore persistent w1 of
           (Some e, w2) \<Rightarrow> SyncMemStore persistent s w2
         | (None, w2) \<Rightarrow>
             (let (stop, w3) = time_now w2
              in SyncMemStore persistent s (Metric_Record MemActivityDuration (stop - start) [] w3)))"

section \<open>What the calls leave alone\<close>

lemma ask_keeps [simp, env_simps]:
  "events_table (snd (ask c w)) = events_table w" "jsonb (snd (ask c w)) = jsonb w"
  "sql_rows (snd (ask c w)) = sql_rows w"
  by (simp_all add: ask_def Let_def)

lemma ask_err_keeps [env_simps]:
  assumes "ask_err c w = (e, w')"
  shows "events_table w' = events_table w" and "jsonb w' = jsonb w" and "sql_rows w' = sql_rows w"
  using ask_errD [OF assms] by simp_all

lemma ask_keeps_store [simp, env_simps]:
  "topicEvents (snd (ask c w)) = topicEvents w" "retryTopics (snd (ask c w)) = retryTopics w"
  by (simp_all add: ask_def Let_def)

lemma now_uuid_keeps [simp, env_simps]:
  "events_table (snd (time_now w)) = events_table w" "jsonb (snd (time_now w)) = jsonb w"
  "events_table (snd (new_uuid w)) = events_table w" "jsonb (snd (new_uuid w)) = jsonb w"
  by (simp_all add: time_now_def new_uuid_def case_prod_beta)

lemma time_now_keeps_store [simp, env_simps]:
  "topicEvents (snd (time_now w)) = topicEvents w"
  by (simp add: time_now_def case_prod_beta)

lemma metric_keeps_store [simp, env_simps]:
  "topicEvents (Metric_Increment m as w) = topicEvents w" "topicEvents (Metric_Record m v as w) = topicEvents w"
  by (simp_all add: Metric_Increment_def Metric_Record_def on_instrument_eq case_prod_beta Let_def)

section \<open>The table stays well-formed\<close>

lemma exec_sql_table:
  "exec_sql sql f w = (e, w') \<Longrightarrow> jsonb w' = jsonb w \<and>
     (case e of None \<Rightarrow> f (events_table w) = Inr (events_table w') | Some _ \<Rightarrow> events_table w' = events_table w)"
  by (auto simp: exec_sql_def ask_err_keeps split: prod.splits option.splits sum.splits)

lemma table_ok_upsert:
  assumes "table_ok t" and "upsert_row new t = Inr t'"
  shows "table_ok t'"
proof -
  let ?f = "\<lambda>r. if r_name r = r_name new
      then r\<lparr>r_service_name := r_service_name new, r_state := r_state new,
             r_consumers := r_consumers new, r_opts := r_opts new, r_updated_at := r_updated_at new\<rparr>
      else r"
  have keep: "map r_id (map ?f t) = map r_id t" "map r_name (map ?f t) = map r_name t" by simp_all
  show ?thesis
  proof (cases "r_name new \<in> set (map r_name t)")
    case True
    with assms(2) have "t' = map ?f t" by (simp add: upsert_row_def)
    with assms(1) show ?thesis by (simp only: table_ok_def keep)
  next
    case False
    with assms show ?thesis by (auto simp: upsert_row_def table_ok_def split: if_splits)
  qed
qed

lemma table_ok_disable: "table_ok t \<Longrightarrow> table_ok (disable_row i t)"
proof -
  let ?f = "\<lambda>r. if r_id r = i \<and> \<not> r_deleted r then r\<lparr>r_state := ''disabled'', r_deleted := True\<rparr> else r"
  have "map r_id (map ?f t) = map r_id t" "map r_name (map ?f t) = map r_name t" by simp_all
  then show "table_ok t \<Longrightarrow> ?thesis" by (simp only: disable_row_def table_ok_def simp_thms)
qed

lemma distinct_map_one:
  assumes "distinct (map key t)" and "distinct (map f t)"
    and "\<And>r. r \<in> set t \<Longrightarrow> g r = (if key r = k \<and> P r then v else f r)"
    and "\<And>r. r \<in> set t \<Longrightarrow> \<not> (key r = k \<and> P r) \<Longrightarrow> (\<exists>s\<in>set t. key s = k \<and> P s) \<Longrightarrow> f r \<noteq> v"
  shows "distinct (map g t)"
proof -
  have "inj_on g (set t)"
  proof (rule inj_onI)
    fix x y assume x: "x \<in> set t" and y: "y \<in> set t" and eq: "g x = g y"
    have inj: "inj_on key (set t)" "inj_on f (set t)" using assms(1,2) by (simp_all add: distinct_map)
    show "x = y"
      using eq assms(3) [OF x] assms(3) [OF y] assms(4) [OF x] assms(4) [OF y] x y inj
      by (auto dest: inj_onD split: if_splits)
  qed
  moreover have "distinct t" using assms(1) by (simp add: distinct_map)
  ultimately show ?thesis by (simp add: distinct_map)
qed

lemma table_ok_update:
  assumes "table_ok t" and "update_row new t = Inr t'"
  shows "table_ok t'"
proof -
  let ?hit = "\<lambda>r. r_id r = r_id new \<and> \<not> r_deleted r"
  let ?f = "\<lambda>r. if ?hit r
      then r\<lparr>r_name := r_name new, r_service_name := r_service_name new, r_state := r_state new,
             r_consumers := r_consumers new, r_opts := r_opts new\<rparr>
      else r"
  have t': "t' = map ?f t" and free: "\<And>r. r \<in> set t \<Longrightarrow> \<not> ?hit r \<Longrightarrow> \<exists>s\<in>set t. ?hit s \<Longrightarrow> r_name r \<noteq> r_name new"
    using assms(2) by (auto simp: update_row_def Let_def split: if_splits)
  have "map r_id (map ?f t) = map r_id t" by simp
  moreover have "distinct (map (\<lambda>r. r_name (?f r)) t)"
    by (rule distinct_map_one [where key = r_id and f = r_name and k = "r_id new" and v = "r_name new"
          and P = "\<lambda>r. \<not> r_deleted r"])
      (use assms(1) free in \<open>auto simp: table_ok_def\<close>)
  ultimately show ?thesis using assms(1) by (simp only: t' table_ok_def map_map comp_def simp_thms)
qed

lemma Upsert_effect:
  assumes "Upsert e w = (err, w')"
  shows "jsonb w' = jsonb w \<and>
    (case err of
       Some _ \<Rightarrow> events_table w' = events_table w
     | None \<Rightarrow> \<exists>cj oj u now. marshal_columns e = Inr (cj, oj) \<and>
         upsert_row (new_row u now cj oj e) (events_table w) = Inr (events_table w'))"
proof (cases "marshal_columns e")
  case (Inr cols)
  obtain cj oj where cols: "cols = (cj, oj)" by (cases cols)
  obtain now w1 where n: "time_now w = (now, w1)" by (cases "time_now w")
  obtain u w2 where u: "new_uuid w1 = (u, w2)" by (cases "new_uuid w1")
  have "events_table w2 = events_table w" "jsonb w2 = jsonb w"
    using now_uuid_keeps [of w] now_uuid_keeps [of w1] by (simp_all add: n u)
  with assms show ?thesis
    by (auto simp: Upsert_def Inr cols n u split: prod.splits option.splits dest!: exec_sql_table) blast
qed (use assms in \<open>auto simp: Upsert_def\<close>)

lemma UpdateEvent_effect:
  assumes "UpdateEvent e w = (err, w')"
  shows "case err of
       Some _ \<Rightarrow> events_table w' = events_table w
     | None \<Rightarrow> \<exists>new. update_row new (events_table w) = Inr (events_table w')"
  using assms
  by (auto simp: UpdateEvent_def split: sum.splits prod.splits option.splits dest!: exec_sql_table)

lemma DisabledEvent_effect:
  assumes "DisabledEvent i w = (err, w')"
  shows "events_table w' = (case err of Some _ \<Rightarrow> events_table w | None \<Rightarrow> disable_row i (events_table w))"
  using assms
  by (auto simp: DisabledEvent_def split: prod.splits option.splits dest!: exec_sql_table)

text \<open>Names and identifiers stay unique in the table of events, whatever is stored,
  changed or disabled and whether the server accepts it or not.\<close>

lemma table_stays_ok:
  assumes "table_ok (events_table w)"
  shows "table_ok (events_table (snd (Upsert e w))) \<and> table_ok (events_table (snd (UpdateEvent e w))) \<and>
         table_ok (events_table (snd (DisabledEvent i w)))"
proof (intro conjI)
  obtain err w' where u: "Upsert e w = (err, w')" by (cases "Upsert e w")
  show "table_ok (events_table (snd (Upsert e w)))"
    using Upsert_effect [OF u] assms by (cases err) (auto simp: u intro: table_ok_upsert)
  obtain err w' where u: "UpdateEvent e w = (err, w')" by (cases "UpdateEvent e w")
  show "table_ok (events_table (snd (UpdateEvent e w)))"
    using UpdateEvent_effect [OF u] assms by (cases err) (auto simp: u intro: table_ok_update)
  obtain err w' where u: "DisabledEvent i w = (err, w')" by (cases "DisabledEvent i w")
  show "table_ok (events_table (snd (DisabledEvent i w)))"
    using DisabledEvent_effect [OF u] assms by (cases err) (auto simp: u intro: table_ok_disable)
qed

text \<open>A world with a table, where every call is answered with \<open>Done\<close> and documents are printed as
  they were stored.\<close>

definition calm_db :: "row list \<Rightarrow> db_world" where
  "calm_db t = \<lparr>history = [], answer = (\<lambda>_ _. Done),
     package_cfg = sample_cfg, env_vars = (\<lambda>c. (None, c)), defaultLogger = None, log_once = False,
     events_table = t, jsonb = (\<lambda>b. b),
     sql_rows = (\<lambda>_ rows. rows)\<rparr>"

section \<open>An event that was stored is found\<close>

text \<open>PostgreSQL's \<open>JSONB\<close> keeps the value of a document, not its text: what it prints is decoded to
  what was stored.\<close>

definition jsonb_keeps :: "(bytes \<Rightarrow> bytes) \<Rightarrow> bool" where
  "jsonb_keeps out \<longleftrightarrow>
     (\<forall>cs. list_all consumer_ok (case cs of None \<Rightarrow> [] | Some l \<Rightarrow> l) \<longrightarrow>
        unmarshal into_consumers None (out (json_text (enc_slice Consumer_json cs))) = (cs, None)) \<and>
     (\<forall>r j. opt_ok r \<longrightarrow> Opt_json r = Inr j \<longrightarrow> unmarshal into_Opt zero_Opt (out (json_text j)) = (r, None))"

lemma jsonb_keeps_id: "jsonb_keeps (\<lambda>b. b)"
  by (auto simp: jsonb_keeps_def list_all_iff unmarshal_text json_wf_enc_slice json_wf_Opt into_Opt_json
      intro!: into_slice_enc_slice into_Consumer_json)

definition event_ok :: "Event \<Rightarrow> bool" where
  "event_ok e \<longleftrightarrow> list_all consumer_ok (consumers_of e) \<and> opt_ok (Option e)"

lemma columns_decode:
  assumes "jsonb_keeps out" and "event_ok e" and "marshal_columns e = Inr (cj, oj)"
  shows "unmarshal into_consumers None (out cj) = (Consumers e, None)"
    and "unmarshal into_Opt zero_Opt (out oj) = (Option e, None)"
  using assms by (auto simp: jsonb_keeps_def event_ok_def consumers_of_def marshal_columns_def Let_def
      split: sum.splits)

lemma filter_key:
  assumes "distinct (map key t)" and "r0 \<in> set t"
  shows "filter (\<lambda>r. key r = key r0) t = [r0]"
  using assms
proof (induction t)
  case (Cons r t)
  show ?case
  proof (cases "key r = key r0")
    case True
    with Cons.prems have "r = r0" by (auto simp: image_iff)
    moreover have "filter (\<lambda>r. key r = key r0) t = []"
      using Cons.prems True by (auto simp: filter_empty_conv image_iff)
    ultimately show ?thesis by simp
  qed (use Cons in auto)
qed simp

abbreviation live :: "string \<Rightarrow> row list \<Rightarrow> row list" where
  "live n t \<equiv> filter (\<lambda>r. r_name r = n \<and> \<not> r_deleted r) t"

lemma upsert_row_live:
  assumes "table_ok t" and "upsert_row new t = Inr t'" and "\<not> r_deleted new"
  shows "\<exists>r\<in>set t. r_name r = r_name new \<and> r_deleted r \<Longrightarrow> live (r_name new) t' = []"
    and "\<not> (\<exists>r\<in>set t. r_name r = r_name new \<and> r_deleted r) \<Longrightarrow>
      \<exists>i. map (\<lambda>r. (r_id r, r_name r, r_service_name r, r_state r, r_consumers r, r_opts r)) (live (r_name new) t')
        = [(i, r_name new, r_service_name new, r_state new, r_consumers new, r_opts new)]"
proof -
  let ?f = "\<lambda>r. if r_name r = r_name new
      then r\<lparr>r_service_name := r_service_name new, r_state := r_state new,
             r_consumers := r_consumers new, r_opts := r_opts new, r_updated_at := r_updated_at new\<rparr>
      else r"
  have d: "distinct (map r_name t)" using assms(1) by (simp add: table_ok_def)
  have hit: "live (r_name new) t' = map ?f (filter (\<lambda>r. \<not> r_deleted r) [r0])"
    if r0: "r0 \<in> set t" "r_name r0 = r_name new" for r0
  proof -
    have "r_name new \<in> set (map r_name t)" using r0 by (metis image_eqI set_map)
    with assms(2) have "t' = map ?f t" by (simp add: upsert_row_def)
    then have "live (r_name new) t' = map ?f (filter (\<lambda>r. r_name r = r_name r0 \<and> \<not> r_deleted r) t)"
      using r0(2) by (simp add: filter_map comp_def if_distrib cong: if_cong conj_cong)
    also have "filter (\<lambda>r. r_name r = r_name r0 \<and> \<not> r_deleted r) t
        = filter (\<lambda>r. \<not> r_deleted r) (filter (\<lambda>r. r_name r = r_name r0) t)"
      by (simp add: conj_commute)
    also have "filter (\<lambda>r. r_name r = r_name r0) t = [r0]" by (rule filter_key [OF d r0(1)])
    finally show ?thesis .
  qed
  show "live (r_name new) t' = []" if "\<exists>r\<in>set t. r_name r = r_name new \<and> r_deleted r"
  proof -
    from that obtain r0 where "r0 \<in> set t" "r_name r0 = r_name new" "r_deleted r0" by blast
    with hit [of r0] show ?thesis by simp
  qed
  show "\<exists>i. map (\<lambda>r. (r_id r, r_name r, r_service_name r, r_state r, r_consumers r, r_opts r)) (live (r_name new) t')
        = [(i, r_name new, r_service_name new, r_state new, r_consumers new, r_opts new)]"
    if no: "\<not> (\<exists>r\<in>set t. r_name r = r_name new \<and> r_deleted r)"
  proof (cases "r_name new \<in> set (map r_name t)")
    case True
    then obtain r0 where "r0 \<in> set t" "r_name r0 = r_name new" by force
    with hit [of r0] no show ?thesis by simp
  next
    case False
    then have "t' = t @ [new]" using assms(2) by (simp add: upsert_row_def split: if_splits)
    moreover have "live (r_name new) t = []" using False by (induction t) auto
    ultimately show ?thesis using assms(3) by simp
  qed
qed

lemma query_row_live:
  "query_row sql P w =
     (case ask_err (SqlQuery sql) w of
        (Some e, w1) \<Rightarrow> (Inl e, w1)
      | (None, w1) \<Rightarrow> ((case filter P (events_table w) of [] \<Rightarrow> Inl ErrNoRows | r # _ \<Rightarrow> Inr r), w1))"
  by (auto simp: query_row_def query_sql_def ask_err_keeps split: prod.splits option.splits list.splits)



section \<open>The memory store\<close>

lemma events_map_get:
  "go_get (events_map es m) k =
     (case find (\<lambda>e. event_Name e = k) (rev es) of Some e \<Rightarrow> Some e | None \<Rightarrow> go_get m k)"
proof (induction es arbitrary: m)
  case (Cons e es)
  then show ?case by (simp add: find_append split: option.splits)
qed simp

lemma gomap_ok_events_map: "gomap_ok m \<Longrightarrow> gomap_ok (events_map es m)"
  by (induction es arbitrary: m) auto

text \<open>After a refresh the memory store answers with the last event of the list that has
  the name, and with \<open>EventNotFound\<close> for every other name, without changing what it holds.\<close>

lemma MemStore_Refresh_GetEvent:
  "fst (MemStore_GetEvent n (MemStore_Refresh es w)) =
     (case find (\<lambda>e. event_Name e = n) (rev es) of Some e \<Rightarrow> Inr e | None \<Rightarrow> Inl EventNotFound) \<and>
   topicEvents (snd (MemStore_GetEvent n (MemStore_Refresh es w))) = topicEvents (MemStore_Refresh es w)"
  by (auto simp: MemStore_GetEvent_def MemStore_Refresh_def events_map_get split: option.splits)

text \<open>What a load puts into the store, if it succeeds.\<close>

definition load_of :: "events_result \<Rightarrow> Event list option" where
  "load_of r = (case r of
      (es, None) \<Rightarrow> Some (case es of None \<Rightarrow> [] | Some l \<Rightarrow> l)
    | (es, Some e) \<Rightarrow> if errors_is e EventNotFound then Some (case es of None \<Rightarrow> [] | Some l \<Rightarrow> l) else None)"

lemma LoadInMemStore_effect:
  assumes "persistent w = (r, w1)"
  shows "LoadInMemStore persistent w =
     (case load_of r of
        Some es \<Rightarrow> (None, MemStore_Refresh es w1)
      | None \<Rightarrow> (Some (ErrWrap ''error loading events into in-memory store'' (the (snd r))), w1))"
  using assms by (auto simp: LoadInMemStore_def load_of_def split: prod.splits option.splits)

text \<open>The persistent store does not touch the memory store.\<close>

locale persistent_store =
  fixes persistent :: "'a store_world_scheme \<Rightarrow> events_result \<times> 'a store_world_scheme"
  assumes keeps: "topicEvents (snd (persistent w)) = topicEvents w"
begin

lemma Load_topicEvents:
  "topicEvents (snd (LoadInMemStore persistent w)) =
     (case load_of (fst (persistent w)) of Some es \<Rightarrow> events_map es [] | None \<Rightarrow> topicEvents w)"
proof -
  obtain r w1 where p: "persistent w = (r, w1)" by (cases "persistent w")
  have "topicEvents w1 = topicEvents w" using keeps [of w] by (simp add: p)
  then show ?thesis
    unfolding LoadInMemStore_effect [of persistent, OF p] by (simp add: p MemStore_Refresh_def split: option.splits)
qed

lemma Load_error: "fst (LoadInMemStore persistent w) = None \<longleftrightarrow> load_of (fst (persistent w)) \<noteq> None"
proof -
  obtain r w1 where p: "persistent w = (r, w1)" by (cases "persistent w")
  show ?thesis unfolding LoadInMemStore_effect [of persistent, OF p] by (simp add: p split: option.splits)
qed

lemma Sync_tick:
  "topicEvents (SyncMemStore persistent [Tick] w) =
     (case load_of (fst (persistent (snd (time_now w)))) of
        Some es \<Rightarrow> events_map es [] | None \<Rightarrow> topicEvents w)"
proof -
  obtain t0 w1 where n: "time_now w = (t0, w1)" by (cases "time_now w")
  obtain e w2 where l: "LoadInMemStore persistent w1 = (e, w2)" by (cases "LoadInMemStore persistent w1")
  have "topicEvents w1 = topicEvents w" using time_now_keeps_store [of w] by (simp add: n)
  then show ?thesis
    using Load_topicEvents [of w1] time_now_keeps_store [of w2]
    by (simp add: n l case_prod_beta split: option.splits)
qed

end

lemma Sync_append:
  "CtxDone \<notin> set s \<Longrightarrow> SyncMemStore p (s @ s') w = SyncMemStore p s' (SyncMemStore p s w)"
proof (induction s arbitrary: w)
  case (Cons x s)
  then have "x = Tick" by (cases x) auto
  with Cons show ?case by (simp add: case_prod_beta split: option.splits)
qed simp

section \<open>The copy in memory is a view of the table\<close>

lemma scan_row_keeps: "jsonb w1 = jsonb w \<Longrightarrow> scan_row w1 = scan_row w"
  by (simp add: scan_row_def fun_eq_iff)

lemma scan_rows_effect:
  "scan_rows what rows acc w = (res, w') \<Longrightarrow>
     events_table w' = events_table w \<and> jsonb w' = jsonb w \<and>
     (case res of Inr es \<Rightarrow> es = acc @ map (\<lambda>r. ToDomain (scan_row w r)) rows
      | Inl e \<Rightarrow> \<exists>what' e'. what' \<in> {what, ''failed to scan row''} \<and> e = ErrWrap what' e')"
proof (induction rows arbitrary: acc w)
  case Nil
  then show ?case by (auto simp: ask_err_keeps split: prod.splits option.splits)
next
  case (Cons r rs)
  obtain e w1 where a: "ask_err (Other ''rows.Scan'' []) w = (e, w1)" by (cases "ask_err (Other ''rows.Scan'' []) w")
  note keep = ask_err_keeps [OF a]
  show ?case
  proof (cases e)
    case None
    with Cons.prems a have "scan_rows what rs (acc @ [ToDomain (scan_row w1 r)]) w1 = (res, w')" by simp
    from Cons.IH [OF this] keep show ?thesis
      by (auto simp: scan_row_keeps [OF keep(2)] split: sum.splits)
  qed (use Cons.prems a keep in auto)
qed

lemma scan_rows_keeps_store:
  fixes w :: "'a store_world_scheme"
  shows "topicEvents (snd (scan_rows what rows acc w)) = topicEvents w"
proof (induction rows arbitrary: acc w)
  case Nil
  show ?case using ask_keeps_store(1) [of "Other ''rows.Err'' []" w]
    by (auto dest: ask_errD split: prod.splits option.splits)
next
  case (Cons r rs)
  show ?case using Cons.IH ask_keeps_store(1) [of "Other ''rows.Scan'' []" w]
    by (auto dest: ask_errD split: prod.splits option.splits)
qed

definition active :: "row \<Rightarrow> bool" where
  "active r \<longleftrightarrow> \<not> r_deleted r \<and> r_state r \<noteq> ''archived''"

lemma read_events_effect:
  assumes "read_events sql f w = ((es, None), w')"
  shows "es = Some (map (\<lambda>r. ToDomain (scan_row w r)) (f (events_table w)))"
proof -
  obtain e w1 where a: "ask_err (SqlQuery sql) w = (e, w1)" by (cases "ask_err (SqlQuery sql) w")
  note keep = ask_err_keeps [OF a]
  obtain res w2 where s: "scan_rows ''failed to iterate over events'' (f (events_table w1)) [] w1 = (res, w2)"
    by (cases "scan_rows ''failed to iterate over events'' (f (events_table w1)) [] w1")
  show ?thesis
    using assms scan_rows_effect [OF s] scan_row_keeps [OF keep(2)] keep(1)
    by (cases e; cases res) (simp_all add: read_events_def query_sql_def a s [unfolded keep(1)])
qed

lemma GetAllEvents_effect:
  assumes "GetAllEvents w = ((es, None), w')"
  shows "es = Some (map (\<lambda>r. ToDomain (scan_row w r)) (filter active (events_table w)))"
proof -
  have act: "(\<lambda>r. \<not> r_deleted r \<and> r_state r \<noteq> ''archived'') = active" by (auto simp: active_def)
  from assms show ?thesis unfolding GetAllEvents_def act by (rule read_events_effect)
qed

lemma read_events_keeps:
  fixes w :: "'a store_world_scheme"
  shows "topicEvents (snd (read_events sql f w)) = topicEvents w"
proof -
  obtain e w1 where a: "ask_err (SqlQuery sql) w = (e, w1)" by (cases "ask_err (SqlQuery sql) w")
  have w1: "topicEvents w1 = topicEvents w" using ask_errD [OF a] by simp
  obtain res w2 where s: "scan_rows ''failed to iterate over events'' (f (events_table w1)) [] w1 = (res, w2)"
    by (cases "scan_rows ''failed to iterate over events'' (f (events_table w1)) [] w1")
  have "topicEvents w2 = topicEvents w"
    using scan_rows_keeps_store [of "''failed to iterate over events''" "f (events_table w1)" "[]" w1] w1
    by (simp add: s)
  then show ?thesis
    using w1 by (cases e; cases res) (simp_all add: read_events_def query_sql_def a s)
qed

interpretation postgres: persistent_store GetAllEvents
proof unfold_locales
  fix w :: "'a store_world_scheme"
  show "topicEvents (snd (GetAllEvents w)) = topicEvents w"
    by (simp add: GetAllEvents_def read_events_keeps)
qed

lemma MemStore_serves:
  assumes "GetAllEvents w = ((es, None), w1)"
  shows "fst (LoadInMemStore GetAllEvents w) = None \<and>
     fst (MemStore_GetEvent n (snd (LoadInMemStore GetAllEvents w))) =
     (case find (\<lambda>r. r_name r = n \<and> \<not> r_deleted r \<and> r_state r \<noteq> ''archived'') (rev (events_table w)) of
        Some r \<Rightarrow> Inr (ToDomain (scan_row w r)) | None \<Rightarrow> Inl EventNotFound)"
proof -
  have names: "find (\<lambda>e. event_Name e = n) (map (\<lambda>r. ToDomain (scan_row w r)) (filter active t)) =
      map_option (\<lambda>r. ToDomain (scan_row w r)) (find (\<lambda>r. r_name r = n \<and> \<not> r_deleted r \<and> r_state r \<noteq> ''archived'') t)"
    for t
    by (induction t) (auto simp: ToDomain_def scan_row_def active_def case_prod_beta)
  note es = GetAllEvents_effect [OF assms]
  have load: "load_of (fst (GetAllEvents w)) = Some (map (\<lambda>r. ToDomain (scan_row w r)) (filter active (events_table w)))"
    by (simp add: assms load_of_def es)
  show ?thesis
    using postgres.Load_topicEvents [of w] postgres.Load_error [of w]
    by (simp add: load MemStore_GetEvent_def events_map_get rev_map rev_filter names split: option.splits)
qed

text \<open>Claim C18: once it is loaded from PostgreSQL, the memory store is a view of the table: a name is
  answered with the decoded row that has it among the rows neither deleted nor archived, and any
  other name with \<open>EventNotFound\<close>.\<close>

theorem MemStore_view:
  assumes "GetAllEvents w = ((es, None), w1)"
  shows "fst (LoadInMemStore GetAllEvents w) = None \<and>
     fst (MemStore_GetEvent n (snd (LoadInMemStore GetAllEvents w))) =
     (case find (\<lambda>r. r_name r = n \<and> \<not> r_deleted r \<and> r_state r \<noteq> ''archived'') (rev (events_table w)) of
        Some r \<Rightarrow> Inr (ToDomain (scan_row w r)) | None \<Rightarrow> Inl EventNotFound)"
  by (rule MemStore_serves [OF assms])

definition calm_store :: "row list \<Rightarrow> store_world" where
  "calm_store t = \<lparr>history = [], answer = (\<lambda>_ _. Done),
     package_cfg = sample_cfg, env_vars = (\<lambda>c. (None, c)), defaultLogger = None, log_once = False,
     events_table = t, jsonb = (\<lambda>b. b),
     sql_rows = (\<lambda>_ rows. rows), topicEvents = [], retryTopics = []\<rparr>"

lemma GetAllEvents_calm: "\<exists>w1. GetAllEvents (calm_store []) = ((Some [], None), w1)"
  by (simp add: GetAllEvents_def read_events_def query_sql_def ask_err_def ask_def calm_store_def err_of_def)

theorem MemStore_view_witness:
  "fst (MemStore_GetEvent ''a'' (snd (LoadInMemStore GetAllEvents (calm_store [])))) = Inl EventNotFound"
proof -
  obtain w1 where "GetAllEvents (calm_store []) = ((Some [], None), w1)" using GetAllEvents_calm by blast
  from MemStore_view [OF this, of "''a''"] show ?thesis by (simp add: calm_store_def)
qed

text \<open>Claim C19: the refresh loop keeps the last good copy. Every tick replaces what the memory store
  holds by what that load returned, or keeps it when the load failed, and nothing changes once the
  context has ended.\<close>

theorem SyncMemStore_last_good:
  assumes "CtxDone \<notin> set s"
  shows "topicEvents (SyncMemStore GetAllEvents (s @ [Tick]) w) =
      (case load_of (fst (GetAllEvents (snd (time_now (SyncMemStore GetAllEvents s w))))) of
         Some es \<Rightarrow> events_map es [] | None \<Rightarrow> topicEvents (SyncMemStore GetAllEvents s w)) \<and>
    SyncMemStore GetAllEvents (s @ CtxDone # s') w = SyncMemStore GetAllEvents s w"
  using postgres.Sync_tick [of "SyncMemStore GetAllEvents s w"]
  by (simp add: Sync_append [OF assms] del: SyncMemStore.simps(3))

theorem SyncMemStore_last_good_witness:
  "SyncMemStore GetAllEvents ([Tick] @ CtxDone # [Tick]) (calm_store []) =
     SyncMemStore GetAllEvents [Tick] (calm_store [])"
  using SyncMemStore_last_good [of "[Tick]" "calm_store []" "[Tick]"] by simp

section \<open>Paging\<close>

text \<open>The listing asks for \<open>OFFSET Page - 1\<close> rows, not for \<open>(Page - 1) * Limit\<close>: the pages
  1 and 2 of 20 events share 19 of them; page 0 asks for an offset of \<open>2^64 - 1\<close>.\<close>

lemma events_query_offset:
  "events_query f = ''SELECT '' @ modelEventFields @ '' FROM events WHERE '' @ sql_filter f @ '' LIMIT '' @
     nat_dec (f_Limit f) @ '' OFFSET '' @
     nat_dec (if f_Page f = 0 then 2 ^ 64 - 1 else if f_Page f < 2 ^ 64 then f_Page f - 1 else uint_pred (f_Page f))"
proof -
  have "uint_pred n = n - 1" if "0 < n" "n < 2 ^ 64" for n
  proof -
    have "n + (2 ^ 64 - 1) = (n - 1) + 2 ^ 64" using that(1) by simp
    moreover have "n - 1 < 2 ^ 64" using that(2) by linarith
    ultimately show ?thesis unfolding uint_pred_def by (metis mod_add_self2 mod_less)
  qed
  then show ?thesis by (auto simp: events_query_def uint_pred_def)
qed

end
