(* ===== verification/Storests.thy ===== *)
theory Storests
  imports Metrics Telemetry Cfg
begin

text \<open>
  \<open>internal/storests\<close>: the metrics of publishers and consumers kept in Redis. A metric is a member
  of a sorted set whose key names what happened, the topic, the consumer and the day of the month
  (\<open>w_consumed.go\<close>, \<open>w_published.go\<close>); the keys of a day are collected in a set (\<open>base.go\<close>), from
  which \<open>GetAll\<close> (\<open>r_all.go\<close>) reads them back. \<open>conf\<close> is \<open>cfg.Get\<close>, which may panic.
\<close>

type_synonym 'w get_config = "'w \<Rightarrow> Config run \<times> 'w"

definition insightsPrefix :: string where "insightsPrefix = ''gqueue:insights''"

definition separator :: string where "separator = '':''"

text \<open>\<open>time.Now().UTC().Day()\<close>\<close>

definition day_of_month :: "int \<Rightarrow> nat" where
  "day_of_month t = (case civil (nat (t div 86400000000000 + int epoch_days)) of (y, m, d) \<Rightarrow> d)"

definition Store_key :: "string \<Rightarrow> string list \<Rightarrow> 'a world_scheme \<Rightarrow> string \<times> 'a world_scheme" where
  "Store_key typeEvent values w =
     (let (now, w1) = time_now w
      in (str_join separator ([insightsPrefix, typeEvent] @ values @ [nat_dec (day_of_month now)]), w1))"

definition groupInsights :: "'a world_scheme get_config \<Rightarrow> string \<Rightarrow> 'a world_scheme
    \<Rightarrow> error option run \<times> 'a world_scheme" where
  "groupInsights conf key w =
     (let (k, w1) = Store_key ''group-insights'' [] w
      in case ask_err (RedisSAdd k key) w1 of
           (Some e, w2) \<Rightarrow> (Returns (Some e), w2)
         | (None, w2) \<Rightarrow>
             (case conf w2 of
                (Panics p, w3) \<Rightarrow> (Panics p, w3)
              | (Returns c, w3) \<Rightarrow>
                  (case ask_err (RedisExpire k (DefaultTTL (config_cache c))) w3 of
                     (e, w4) \<Rightarrow> (Returns e, w4))))"

text \<open>The body both writers share: the member is added with the time in milliseconds as its score
  and the set expires after the configured time.\<close>

definition add_metric :: "'a world_scheme get_config \<Rightarrow> string \<Rightarrow> json result \<Rightarrow> string \<Rightarrow> string
    \<Rightarrow> 'a world_scheme \<Rightarrow> error option run \<times> 'a world_scheme" where
  "add_metric conf key payload not_saved no_ttl w =
     (case payload of
        Inl e \<Rightarrow> (Returns (Some (ErrWrap ''failed to marshal payload'' e)), w)
      | Inr j \<Rightarrow>
          (let (now, w1) = time_now w
           in case ask_err (RedisZAdd key (milliseconds now) (json_text j)) w1 of
                (Some e, w2) \<Rightarrow> (Returns (Some (ErrWrap not_saved e)), w2)
              | (None, w2) \<Rightarrow>
                  (case conf w2 of
                     (Panics p, w3) \<Rightarrow> (Panics p, w3)
                   | (Returns c, w3) \<Rightarrow>
                       (case ask_err (RedisExpire key (DefaultTTL (config_cache c))) w3 of
                          (Some e, w4) \<Rightarrow> (Returns (Some (ErrWrap no_ttl e)), w4)
                        | (None, w4) \<Rightarrow> (Returns None, w4)))))"

text \<open>The key is grouped by a deferred call, whatever the body did; its error is dropped, a panic of
  it is not.\<close>

definition then_group :: "'a world_scheme get_config \<Rightarrow> string \<Rightarrow> error option run \<times> 'a world_scheme
    \<Rightarrow> error option run \<times> 'a world_scheme" where
  "then_group conf key body =
     (case body of (res, w) \<Rightarrow>
        (case groupInsights conf key w of
           (Panics p, w1) \<Rightarrow> (Panics p, w1) | (Returns _, w1) \<Rightarrow> (res, w1)))"

definition ConsumerMetric_json :: "ConsumerMetric \<Rightarrow> json result" where
  "ConsumerMetric_json m =
     (case (Time_MarshalJSON (cm_TimeStarted m), Time_MarshalJSON (cm_TimeEnded m)) of
        (Inr s, Inr e) \<Rightarrow>
          Inr (JObj [(''TopicName'', JStr (cm_TopicName m)), (''ConsumerName'', JStr (cm_ConsumerName m)),
            (''TimeStarted'', s), (''TimeEnded'', e), (''TimeDurationMs'', enc_int (cm_TimeDurationMs m)),
            (''ACK'', JBool (cm_ACK m))])
      | (Inl e, _) \<Rightarrow> Inl e
      | (_, Inl e) \<Rightarrow> Inl e)"

definition PublisherMetric_json :: "PublisherMetric \<Rightarrow> json result" where
  "PublisherMetric_json m =
     (case (Time_MarshalJSON (pm_TimeStarted m), Time_MarshalJSON (pm_TimeEnded m)) of
        (Inr s, Inr e) \<Rightarrow>
          Inr (JObj [(''TopicName'', JStr (pm_TopicName m)),
            (''TimeStarted'', s), (''TimeEnded'', e), (''TimeDurationMs'', enc_int (pm_TimeDurationMs m)),
            (''ACK'', JBool (pm_ACK m))])
      | (Inl e, _) \<Rightarrow> Inl e
      | (_, Inl e) \<Rightarrow> Inl e)"

definition Store_Consumed :: "'a world_scheme get_config \<Rightarrow> ConsumerMetric \<Rightarrow> 'a world_scheme
    \<Rightarrow> error option run \<times> 'a world_scheme" where
  "Store_Consumed conf input w =
     (let isSuccessPrefix = (if cm_ACK input then ''success'' else ''failure'');
          (key, w1) = Store_key ''event-consumed'' [isSuccessPrefix, cm_TopicName input, cm_ConsumerName input] w
      in then_group conf key
           (add_metric conf key (ConsumerMetric_json input) ''failed to save consumed event''
              ''failed to set TTL for consumed event'' w1))"

definition Store_Published :: "'a world_scheme get_config \<Rightarrow> PublisherMetric \<Rightarrow> 'a world_scheme
    \<Rightarrow> error option run \<times> 'a world_scheme" where
  "Store_Published conf input w =
     (let isSuccess = (if pm_ACK input then ''success'' else ''failure'');
          (key, w1) = Store_key ''event-published'' [isSuccess, pm_TopicName input] w
      in then_group conf key
           (add_metric conf key (PublisherMetric_json input) ''failed to save publisher event''
              ''failed to set TTL for publisher event'' w1))"

section \<open>Reading the metrics back\<close>

definition zero_sample :: sample where
  "zero_sample = \<lparr>TopicName = [], ConsumerName = [], TimeStarted = zero_Time, TimeEnded = zero_Time,
     TimeDurationMs = 0, ACK = False\<rparr>"

definition sample_field :: "sample \<Rightarrow> string \<Rightarrow> json \<Rightarrow> sample \<times> error option" where
  "sample_field s k j =
     (if fold_eq k ''TopicName''
      then (let (v, e) = into_string (TopicName s) j in (s\<lparr>TopicName := v\<rparr>, e))
      else if fold_eq k ''ConsumerName''
      then (let (v, e) = into_string (ConsumerName s) j in (s\<lparr>ConsumerName := v\<rparr>, e))
      else if fold_eq k ''TimeStarted''
      then (let (v, e) = Time_UnmarshalJSON (TimeStarted s) j in (s\<lparr>TimeStarted := v\<rparr>, e))
      else if fold_eq k ''TimeEnded''
      then (let (v, e) = Time_UnmarshalJSON (TimeEnded s) j in (s\<lparr>TimeEnded := v\<rparr>, e))
      else if fold_eq k ''TimeDurationMs''
      then (let (v, e) = into_int64 (TimeDurationMs s) j in (s\<lparr>TimeDurationMs := v\<rparr>, e))
      else if fold_eq k ''ACK''
      then (let (v, e) = into_bool (ACK s) j in (s\<lparr>ACK := v\<rparr>, e))
      else (s, None))"

definition into_sample :: "sample decoder" where
  "into_sample = into_struct sample_field"

definition ask_texts :: "call \<Rightarrow> 'a world_scheme \<Rightarrow> string list result \<times> 'a world_scheme" where
  "ask_texts c w =
     (case ask c w of (r, w1) \<Rightarrow>
        (case r of Failed e \<Rightarrow> Inl e | GotTexts ts \<Rightarrow> Inr ts | _ \<Rightarrow> Inr [], w1))"

text \<open>The metrics read before an error are returned with it.\<close>

fun read_samples :: "string \<Rightarrow> string list \<Rightarrow> sample list \<Rightarrow> sample list \<times> error option" where
  "read_samples key [] out = (out, None)"
| "read_samples key (v # vs) out =
     (case unmarshal into_sample zero_sample v of
        (_, Some e) \<Rightarrow> (out, Some (ErrWrap (''failed to unmarshal insights for key '' @ key) e))
      | (s, None) \<Rightarrow> read_samples key vs (out @ [s]))"

fun read_keys :: "string list \<Rightarrow> sample list \<Rightarrow> 'a world_scheme
    \<Rightarrow> (sample list \<times> error option) \<times> 'a world_scheme" where
  "read_keys [] out w = ((out, None), w)"
| "read_keys (key # keys) out w =
     (case ask_texts (RedisZRange key) w of
        (Inl e, w1) \<Rightarrow> ((out, Some (ErrWrap (''failed to get insights values for key '' @ key) e)), w1)
      | (Inr vs, w1) \<Rightarrow>
          (case read_samples key vs out of
             (out1, Some e) \<Rightarrow> ((out1, Some e), w1)
           | (out1, None) \<Rightarrow> read_keys keys out1 w1))"

definition Store_GetAll :: "'a world_scheme \<Rightarrow> (sample list \<times> error option) \<times> 'a world_scheme" where
  "Store_GetAll w =
     (let (k, w1) = Store_key ''group-insights'' [] w
      in case ask_texts (RedisSMembers k) w1 of
           (Inl e, w2) \<Rightarrow> (([], Some (ErrWrap ''failed to get insights keys'' e)), w2)
         | (Inr keys, w2) \<Rightarrow> read_keys keys [] w2)"

section \<open>A stored metric is read back\<close>

lemma sample_fields [json_simps]:
  "sample_field s ''TopicName'' (JStr t) = (s\<lparr>TopicName := t\<rparr>, None)"
  "sample_field s ''ConsumerName'' (JStr t) = (s\<lparr>ConsumerName := t\<rparr>, None)"
  "sample_field s ''TimeStarted'' j = (let (v, e) = Time_UnmarshalJSON (TimeStarted s) j in (s\<lparr>TimeStarted := v\<rparr>, e))"
  "sample_field s ''TimeEnded'' j = (let (v, e) = Time_UnmarshalJSON (TimeEnded s) j in (s\<lparr>TimeEnded := v\<rparr>, e))"
  "sample_field s ''TimeDurationMs'' j = (let (v, e) = into_int64 (TimeDurationMs s) j in (s\<lparr>TimeDurationMs := v\<rparr>, e))"
  "sample_field s ''ACK'' (JBool b) = (s\<lparr>ACK := b\<rparr>, None)"
  by (simp_all add: sample_field_def fold_eq_def lower_char_def into_bool_def)

definition sample_of_consumer :: "ConsumerMetric \<Rightarrow> sample" where
  "sample_of_consumer m = \<lparr>TopicName = cm_TopicName m, ConsumerName = cm_ConsumerName m,
     TimeStarted = cm_TimeStarted m, TimeEnded = cm_TimeEnded m,
     TimeDurationMs = cm_TimeDurationMs m, ACK = cm_ACK m\<rparr>"

definition sample_of_publisher :: "PublisherMetric \<Rightarrow> sample" where
  "sample_of_publisher m = \<lparr>TopicName = pm_TopicName m, ConsumerName = [],
     TimeStarted = pm_TimeStarted m, TimeEnded = pm_TimeEnded m,
     TimeDurationMs = pm_TimeDurationMs m, ACK = pm_ACK m\<rparr>"

lemma ConsumerMetric_decoded:
  assumes "ConsumerMetric_json m = Inr j" and "int64_ok (cm_TimeDurationMs m)"
  shows "unmarshal into_sample zero_sample (json_text j) = (sample_of_consumer m, None)"
proof -
  have "json_wf j" and "into_sample zero_sample j = (sample_of_consumer m, None)"
    using assms
    by (auto simp: ConsumerMetric_json_def into_sample_def into_struct_def sample_fields zero_sample_def
        sample_of_consumer_def int64_ok_def dest: json_wf_time split: sum.splits prod.splits)
  then show ?thesis by (simp add: unmarshal_text)
qed

lemma PublisherMetric_decoded:
  assumes "PublisherMetric_json m = Inr j" and "int64_ok (pm_TimeDurationMs m)"
  shows "unmarshal into_sample zero_sample (json_text j) = (sample_of_publisher m, None)"
proof -
  have "json_wf j" and "into_sample zero_sample j = (sample_of_publisher m, None)"
    using assms
    by (auto simp: PublisherMetric_json_def into_sample_def into_struct_def sample_fields zero_sample_def
        sample_of_publisher_def int64_ok_def dest: json_wf_time split: sum.splits prod.splits)
  then show ?thesis by (simp add: unmarshal_text)
qed

text \<open>What is stored: the metric of a consumer or of a publisher.\<close>

fun stored_json :: "ConsumerMetric + PublisherMetric \<Rightarrow> json result" where
  "stored_json (Inl m) = ConsumerMetric_json m"
| "stored_json (Inr m) = PublisherMetric_json m"

fun stored_sample :: "ConsumerMetric + PublisherMetric \<Rightarrow> sample" where
  "stored_sample (Inl m) = sample_of_consumer m"
| "stored_sample (Inr m) = sample_of_publisher m"

definition stored_ok :: "ConsumerMetric + PublisherMetric \<Rightarrow> bool" where
  "stored_ok x \<longleftrightarrow> (\<exists>j. stored_json x = Inr j) \<and> int64_ok (TimeDurationMs (stored_sample x))"

lemma stored_decoded:
  assumes "stored_ok x"
  shows "unmarshal into_sample zero_sample (json_text (projr (stored_json x))) = (stored_sample x, None)"
  using assms ConsumerMetric_decoded PublisherMetric_decoded
  by (cases x) (auto simp: stored_ok_def sample_of_consumer_def sample_of_publisher_def)

end
