(* ===== verification/Fetcher.thy ===== *)
theory Fetcher
  imports Http Domain
begin

text \<open>
  \<open>internal/fetcher/notification.go\<close>, \<open>internal/notifyopt\<close> and \<open>pkg/httpclient\<close>: a consumer is
  notified by a POST request with a JSON body. The client library \<open>clienthttp\<close> and the network are
  the world's: creating the client and the request may fail, and a request is answered with a
  status or an error.
\<close>

section \<open>Kinds and client settings\<close>

type_synonym Kind = string

definition kind_Default :: Kind where "kind_Default = ''default''"

definition kind_HighThroughput :: Kind where "kind_HighThroughput = ''high_throughput''"

definition kind_LongRunning :: Kind where "kind_LongRunning = ''long_running''"

definition seconds :: "int \<Rightarrow> int" where "seconds s = s * 1000000000"

definition HighThroughputSettings :: "(string \<times> int) list" where
  "HighThroughputSettings = [(''Timeout'', seconds 30), (''MaxIdleConns'', 100),
     (''MaxIdleConnsPerHost'', 2), (''IdleConnTimeout'', seconds 90)]"

definition LongRunningSettings :: "(string \<times> int) list" where
  "LongRunningSettings = [(''Timeout'', seconds 300), (''MaxIdleConns'', 50),
     (''MaxIdleConnsPerHost'', 2), (''IdleConnTimeout'', seconds 90)]"

section \<open>The client (client_http_with_logger.go)\<close>

text \<open>When the library's client cannot be created a standard client with a timeout is used.\<close>

datatype http_client = LoggingClient | StandardClient int

definition NewHTTPClientWithLogging :: "(string \<times> int) list \<Rightarrow> 'a world_scheme
    \<Rightarrow> http_client \<times> 'a world_scheme" where
  "NewHTTPClientWithLogging settings w =
     (let opts = (if length settings = 0 then HighThroughputSettings else settings)
      in case ask_err (HttpNewClient opts) w of
           (Some _, w1) \<Rightarrow> (StandardClient (seconds 30), w1) | (None, w1) \<Rightarrow> (LoggingClient, w1))"

text \<open>\<open>RoundTrip\<close> hands the first value of every header to the library.\<close>

definition flat_headers :: "header \<Rightarrow> header" where
  "flat_headers h = map (\<lambda>(k, vs). (k, [header_get h k])) h"

definition post :: "string \<Rightarrow> bytes \<Rightarrow> header \<Rightarrow> 'a world_scheme \<Rightarrow> int result \<times> 'a world_scheme" where
  "post url b h w =
     (case ask (HttpPost url b h) w of (r, w1) \<Rightarrow>
        (case r of Failed e \<Rightarrow> Inl e | GotInt status \<Rightarrow> Inr status | _ \<Rightarrow> Inr 200, w1))"

definition ClientHTTPTransport_RoundTrip :: "string \<Rightarrow> bytes \<Rightarrow> header \<Rightarrow> 'a world_scheme
    \<Rightarrow> int result \<times> 'a world_scheme" where
  "ClientHTTPTransport_RoundTrip url b h w = post url b (flat_headers h) w"

definition client_Do :: "http_client \<Rightarrow> string \<Rightarrow> bytes \<Rightarrow> header \<Rightarrow> 'a world_scheme
    \<Rightarrow> int result \<times> 'a world_scheme" where
  "client_Do c url b h w =
     (case c of LoggingClient \<Rightarrow> ClientHTTPTransport_RoundTrip url b h w
      | StandardClient timeout \<Rightarrow> post url b h w)"

text \<open>The deprecated transport delegates to the transport of a new client, which the standard client
  does not have.\<close>

definition HTTPClientTransport_RoundTrip :: "string \<Rightarrow> bytes \<Rightarrow> header \<Rightarrow> 'a world_scheme
    \<Rightarrow> int result run \<times> 'a world_scheme" where
  "HTTPClientTransport_RoundTrip url b h w =
     (case NewHTTPClientWithLogging [] w of
        (LoggingClient, w1) \<Rightarrow>
          (case ClientHTTPTransport_RoundTrip url b h w1 of (r, w2) \<Rightarrow> (Returns r, w2))
      | (StandardClient timeout, w1) \<Rightarrow>
          (Panics (ErrText ''invalid memory address or nil pointer dereference''), w1))"

section \<open>Notifying (notification.go)\<close>

fun set_headers :: "string gomap \<Rightarrow> header \<Rightarrow> header" where
  "set_headers [] h = h"
| "set_headers ((k, v) # hs) h = set_headers hs (header_set k v h)"

definition map_of_nil :: "'v gomap option \<Rightarrow> 'v gomap" where
  "map_of_nil m = (case m of None \<Rightarrow> [] | Some ms \<Rightarrow> ms)"

definition fetch :: "string \<Rightarrow> payload \<Rightarrow> string gomap option \<Rightarrow> Kind \<Rightarrow> (string \<times> int) list
    \<Rightarrow> 'a world_scheme \<Rightarrow> error option \<times> 'a world_scheme" where
  "fetch url data headers opt settings w =
     (let (start, w0) = time_now w
      in case json_Marshal data of
           Inl e \<Rightarrow> (Some (ErrWrap ''marshal data'' e), w0)
         | Inr payload \<Rightarrow>
             (case NewHTTPClientWithLogging settings w0 of (client, w1) \<Rightarrow>
               (case ask_err (Other ''http.NewRequestWithContext'' [''POST'', url]) w1 of
                  (Some e, w2) \<Rightarrow> (Some (ErrWrap ''create request'' e), w2)
                | (None, w2) \<Rightarrow>
                    (let h = set_headers (map_of_nil headers)
                               (header_set ''Content-Type'' ''application/json'' [])
                     in case client_Do client url payload h w2 of
                          (Inl e, w3) \<Rightarrow> (Some (ErrWrap ''post request'' e), w3)
                        | (Inr status, w3) \<Rightarrow>
                            (let attrs = [(''http.service_name'', AStr opt), (''http.method'', AStr ''POST''),
                                          (''http.url'', AStr url), (''http.status_code'', AInt status)];
                                 (stop, w4) = time_now w3;
                                 w5 = Metric_Increment HTTPClientRequests attrs w4;
                                 w6 = Metric_Record HTTPClientRequestDuration (stop - start) attrs w5
                             in if status > 299
                                then (Some (ErrText (''unexpected status code: '' @ itoa status)), w6)
                                else (None, w6))))))"

definition Notify :: "json gomap option \<Rightarrow> string gomap option \<Rightarrow> Consumer \<Rightarrow> Kind
    \<Rightarrow> 'a world_scheme \<Rightarrow> error option \<times> 'a world_scheme" where
  "Notify data headers consumer opt w =
     (let url = Consumer_GetUrl consumer;
          settings = (if opt = kind_HighThroughput then HighThroughputSettings
                      else if opt = kind_LongRunning then LongRunningSettings
                      else HighThroughputSettings)
      in fetch url (Inr (enc_anymap data)) headers opt settings w)"

definition NotifyConsumer :: "string \<Rightarrow> json gomap option \<Rightarrow> string gomap option
    \<Rightarrow> 'a world_scheme \<Rightarrow> error option \<times> 'a world_scheme" where
  "NotifyConsumer url data headers w = fetch url (Inr (enc_anymap data)) headers kind_Default [] w"

definition NotifyScheduler :: "string \<Rightarrow> payload \<Rightarrow> string gomap option
    \<Rightarrow> 'a world_scheme \<Rightarrow> error option \<times> 'a world_scheme" where
  "NotifyScheduler url data headers w = fetch url data headers kind_Default [] w"

section \<open>What a notification sends\<close>

fun is_post :: "call \<Rightarrow> bool" where
  "is_post (HttpPost _ _ _) \<longleftrightarrow> True"
| "is_post _ \<longleftrightarrow> False"

lemma no_telemetry_post [simp]: "no_telemetry is_post"
  by (auto simp: no_telemetry_def elim: is_telemetry.elims(2))

text \<open>The requests that were answered with a status up to 299.\<close>

definition ok_reply :: "reply \<Rightarrow> bool" where
  "ok_reply r \<longleftrightarrow> (case r of Failed _ \<Rightarrow> False | GotInt status \<Rightarrow> status \<le> 299 | _ \<Rightarrow> True)"

definition delivered :: "'a world_scheme \<Rightarrow> call list" where
  "delivered w = map fst (filter (\<lambda>(c, r). is_post c \<and> ok_reply r) (history w))"

lemma delivered_ask [env_simps]:
  "delivered (snd (ask c w)) = delivered w @ (if is_post c \<and> ok_reply (fst (ask c w)) then [c] else [])"
  by (simp add: delivered_def ask_history)

lemma delivered_other [simp, env_simps]: "\<not> is_post c \<Longrightarrow> delivered (snd (ask c w)) = delivered w"
  by (simp add: delivered_ask)

lemma delivered_simps [simp, env_simps]:
  "delivered (snd (time_now w)) = delivered w" "delivered (Metric_Increment m as w) = delivered w"
  "delivered (Metric_Record m v as w) = delivered w"
  by (simp_all add: time_now_def Metric_Increment_def Metric_Record_def on_instrument_eq
      Let_def case_prod_beta)

lemma delivered_ask_err: "ask_err c w = (e, w') \<Longrightarrow> \<not> is_post c \<Longrightarrow> delivered w' = delivered w"
  by (auto dest: ask_errD)

lemma delivered_new_client: "NewHTTPClientWithLogging s w = (c, w') \<Longrightarrow> delivered w' = delivered w"
  by (auto simp: NewHTTPClientWithLogging_def dest!: ask_errD split: prod.splits option.splits)

lemma post_delivered:
  assumes "post url b h w = (r, w')"
  shows "delivered w' = delivered w @
    (case r of Inl _ \<Rightarrow> [] | Inr status \<Rightarrow> if status \<le> 299 then [HttpPost url b h] else [])"
proof -
  obtain a w1 where a: "ask (HttpPost url b h) w = (a, w1)" by (cases "ask (HttpPost url b h) w")
  with assms delivered_ask [of "HttpPost url b h" w] show ?thesis
    by (cases a) (auto simp: post_def ok_reply_def)
qed

lemma client_Do_delivered:
  assumes "client_Do c url b h w = (r, w')"
  shows "\<exists>h'. delivered w' = delivered w @
    (case r of Inl _ \<Rightarrow> [] | Inr status \<Rightarrow> if status \<le> 299 then [HttpPost url b h'] else [])"
  using assms post_delivered [of url b _ w r w']
  by (cases c) (auto simp: client_Do_def ClientHTTPTransport_RoundTrip_def)

lemma fetch_delivered:
  assumes "fetch url (Inr j) headers opt settings w = (e, w')"
  shows "\<exists>h. delivered w' = delivered w @ (if e = None then [HttpPost url (json_text j) h] else [])"
proof -
  obtain start w0 where t0: "time_now w = (start, w0)" by (cases "time_now w")
  obtain c w1 where c: "NewHTTPClientWithLogging settings w0 = (c, w1)"
    by (cases "NewHTTPClientWithLogging settings w0")
  let ?req = "Other ''http.NewRequestWithContext'' [''POST'', url]"
  obtain e2 w2 where q: "ask_err ?req w1 = (e2, w2)" by (cases "ask_err ?req w1")
  have d2: "delivered w2 = delivered w"
    using delivered_simps(1) [of w] delivered_new_client [OF c] delivered_ask_err [OF q] by (simp add: t0)
  show ?thesis
  proof (cases e2)
    case (Some x)
    with assms d2 show ?thesis by (auto simp: fetch_def Let_def json_Marshal_def t0 c q)
  next
    case None
    let ?h = "set_headers (map_of_nil headers) (header_set ''Content-Type'' ''application/json'' [])"
    obtain r w3 where r: "client_Do c url (json_text j) ?h w2 = (r, w3)"
      by (cases "client_Do c url (json_text j) ?h w2")
    obtain stop w4 where t4: "time_now w3 = (stop, w4)" by (cases "time_now w3")
    have "delivered w4 = delivered w3" using delivered_simps(1) [of w3] by (simp add: t4)
    with client_Do_delivered [OF r] d2 assms None show ?thesis
      by (cases r) (auto simp: fetch_def Let_def json_Marshal_def t0 c q r t4 split: if_splits)
  qed
qed

text \<open>The contract of a notifier: what it reports is what was delivered.\<close>

type_synonym 'w notifier = "json gomap option \<Rightarrow> string gomap option \<Rightarrow> Consumer \<Rightarrow> Kind \<Rightarrow> 'w \<Rightarrow> error option \<times> 'w"

locale notifier =
  fixes notify :: "'w notifier" and sent :: "'w \<Rightarrow> call list"
  assumes outcome: "notify data headers consumer opt w = (e, w') \<Longrightarrow>
      \<exists>h. sent w' = sent w @ (if e = None then [HttpPost (Consumer_GetUrl consumer) (json_text (enc_anymap data)) h] else [])"
begin

lemma refused: "notify data headers consumer opt w = (Some e, w') \<Longrightarrow> sent w' = sent w"
  using outcome by fastforce

lemma notified: "notify data headers consumer opt w = (None, w') \<Longrightarrow>
    \<exists>h. sent w' = sent w @ [HttpPost (Consumer_GetUrl consumer) (json_text (enc_anymap data)) h]"
  using outcome by fastforce

end

interpretation fetcher: notifier Notify delivered
  by unfold_locales (auto simp: Notify_def Let_def dest: fetch_delivered)

text \<open>Claim C20: a notification succeeds exactly when the JSON of the data was sent to the address of
  the consumer and answered with a status up to 299; otherwise an error is returned and nothing
  counts as delivered.\<close>

theorem Notify_delivers:
  "\<exists>h. delivered (snd (Notify data headers consumer opt w)) = delivered w @
     (if fst (Notify data headers consumer opt w) = None
      then [HttpPost (Consumer_GetUrl consumer) (json_text (enc_anymap data)) h] else [])"
  using fetcher.outcome [of data headers consumer opt w] by (metis prod.collapse)

end
