(* ===== verification/Asyncadapter.thy ===== *)
theory Asyncadapter
  imports Base64 Topicutils Domain
begin

text \<open>
  \<open>pkg/asyncadapter\<close>: one handler of the program turned into a task handler of asynq
  (\<open>asynq_adapter.go\<close>) and into a message handler of Google Pub/Sub (\<open>gbubsub_adapter.go\<close>), with
  its retries and its dead-letter topic. A handler reads the bytes of its payload and fails with
  an error or not.

  A Pub/Sub message is settled by the first \<open>Ack\<close> or \<open>Nack\<close> that is called on it, later calls have
  no effect; the model lists the calls in the order the deferred ones run.
\<close>

section \<open>Payloads (base.go)\<close>

type_synonym 'w handler = "bytes \<Rightarrow> 'w \<Rightarrow> error option \<times> 'w"

record 'w Handle =
  EventName :: string
  Handler :: "'w handler"

definition AsyncCtx_Payload :: "'a decoder \<Rightarrow> 'a \<Rightarrow> bytes \<Rightarrow> 'a result" where
  "AsyncCtx_Payload d zero b =
     (case unmarshal d zero b of
        (_, Some e) \<Rightarrow> Inl (ErrWrap ''unmarshal payload'' e) | (v, None) \<Rightarrow> Inr v)"

definition ToAsynqHandler :: "'w Handle \<Rightarrow> string \<times> 'w handler" where
  "ToAsynqHandler h =
     (EventName h,
      \<lambda>payload w. (case Handler h payload w of
         (Some e, w1) \<Rightarrow> (Some (ErrWrap ''handle task'' e), w1) | (None, w1) \<Rightarrow> (None, w1)))"

section \<open>Messages\<close>

text \<open>The exported fields of \<open>pubsub.Message\<close>, which \<open>encoding/json\<close> writes under their names.\<close>

record Message =
  msg_ID :: string
  msg_Data :: "bytes option"
  msg_Attributes :: "string gomap option"
  msg_PublishTime :: Time
  msg_DeliveryAttempt :: "int option"
  msg_OrderingKey :: string

definition enc_bytes :: "bytes option \<Rightarrow> json" where
  "enc_bytes b = (case b of None \<Rightarrow> JNull | Some bs \<Rightarrow> JStr (b64_encode bs))"

definition Message_json :: "Message \<Rightarrow> json result" where
  "Message_json m =
     (case Time_MarshalJSON (msg_PublishTime m) of
        Inl e \<Rightarrow> Inl e
      | Inr t \<Rightarrow>
          Inr (JObj [(''ID'', JStr (msg_ID m)), (''Data'', enc_bytes (msg_Data m)),
            (''Attributes'', enc_strmap (msg_Attributes m)), (''PublishTime'', t),
            (''DeliveryAttempt'', case msg_DeliveryAttempt m of None \<Rightarrow> JNull | Some i \<Rightarrow> enc_int i),
            (''OrderingKey'', JStr (msg_OrderingKey m))]))"

datatype ack_call = Ack | Nack

section \<open>The Pub/Sub handler (gbubsub_adapter.go)\<close>

definition dead_letter_topic :: string where
  "dead_letter_topic = BuildTopicName domain_ProjectID EventQueueDeadLetter"

definition msg_opts :: "Message \<Rightarrow> Opts" where
  "msg_opts m = \<lparr>Attributes = msg_Attributes m, AsynqOpts = [], WqType = []\<rparr>"

text \<open>\<open>archivedMsg\<close>: the deferred \<open>Ack\<close> runs after a \<open>Nack\<close> for a failed publish.\<close>

definition archivedMsg :: "'w generic_publisher \<Rightarrow> Message \<Rightarrow> 'w \<Rightarrow> ack_call list \<times> 'w" where
  "archivedMsg pub m w =
     (case pub dead_letter_topic (Message_json m) (msg_opts m) w of
        (Some e, w1) \<Rightarrow> ([Nack, Ack], w1) | (None, w1) \<Rightarrow> ([Ack], w1))"

text \<open>Five seconds, or the end of the context; then the context is looked at once more.\<close>

definition wait_retry :: "'a world_scheme \<Rightarrow> bool \<times> 'a world_scheme" where
  "wait_retry w =
     (case ask_err (Other ''select'' [''time.After(5s)'', ''ctx.Done()'']) w of
        (Some _, w1) \<Rightarrow> (False, w1)
      | (None, w1) \<Rightarrow> (case ask_err (Other ''ctx.Err'' []) w1 of (e, w2) \<Rightarrow> (e = None, w2)))"

definition put_attribute :: "string \<Rightarrow> string \<Rightarrow> Message \<Rightarrow> Message" where
  "put_attribute k v m = m\<lparr>msg_Attributes := map_option (go_put k v) (msg_Attributes m)\<rparr>"

definition attributes_of :: "Message \<Rightarrow> string gomap" where
  "attributes_of m = (case msg_Attributes m of None \<Rightarrow> [] | Some as \<Rightarrow> as)"

definition atoi_error :: error where
  "atoi_error = ErrText ''strconv.Atoi: parsing: invalid syntax''"

text \<open>\<open>retryable\<close>: its deferred \<open>Ack\<close> runs last, also after a panic.\<close>

definition retryable :: "'a world_scheme generic_publisher \<Rightarrow> Message \<Rightarrow> 'a world_scheme
    \<Rightarrow> (ack_call list \<times> unit run) \<times> 'a world_scheme" where
  "retryable pub m w =
     (let as = attributes_of m;
          topic = go_lookup as ''topic'';
          strRetryCount = (case go_get as ''retry_count'' of None \<Rightarrow> ''0'' | Some v \<Rightarrow> v);
          strMaxRetryCount = go_lookup as ''max_retries''
      in case atoi strRetryCount of
           None \<Rightarrow> (([Ack], Panics atoi_error), w)
         | Some retryCount \<Rightarrow>
             (case atoi strMaxRetryCount of
                None \<Rightarrow> (([Ack], Panics atoi_error), w)
              | Some maxRetryAttempts \<Rightarrow>
                  if retryCount \<ge> maxRetryAttempts then
                    (case archivedMsg pub m (Metric_Increment PubSubConsumerDlq [(''topic'', AStr topic)] w) of
                       (acks, w1) \<Rightarrow> ((acks @ [Ack], Returns ()), w1))
                  else
                    let m1 = put_attribute ''retry_count'' (itoa (retryCount + 1)) m;
                        (fired, w1) = wait_retry (Metric_Increment PubSubConsumerRetries [(''topic'', AStr topic)] w)
                    in if \<not> fired then (([Ack], Returns ()), w1)
                       else (case pub topic (Message_json m1) (msg_opts m1) w1 of
                               (Some e, w2) \<Rightarrow> (([Nack, Ack], Returns ()), w2)
                             | (None, w2) \<Rightarrow> (([Ack], Returns ()), w2))))"

text \<open>Writing to the \<open>nil\<close> map of a message without attributes panics.\<close>

definition nil_map_error :: error where
  "nil_map_error = ErrText ''assignment to entry in nil map''"

definition ToGPubSubHandler :: "'a world_scheme Handle \<Rightarrow> 'a world_scheme generic_publisher \<Rightarrow> Message
    \<Rightarrow> 'a world_scheme \<Rightarrow> (ack_call list \<times> unit run) \<times> 'a world_scheme" where
  "ToGPubSubHandler h pub m w =
     (case Handler h (case msg_Data m of None \<Rightarrow> [] | Some b \<Rightarrow> b) w of
        (Some e, w1) \<Rightarrow>
          (if msg_Attributes m = None then (([Nack], Panics nil_map_error), w1)
           else case retryable pub (put_attribute ''msg'' (error_msg e) m) w1 of
                  ((acks, res), w2) \<Rightarrow> ((acks @ [Nack], res), w2))
      | (None, w1) \<Rightarrow> (([Ack, Nack], Returns ()), w1))"

text \<open>What the subscription makes of the calls: the first one counts.\<close>

definition settled :: "ack_call list \<Rightarrow> ack_call" where
  "settled acks = hd acks"

section \<open>What happens to a message\<close>

lemma put_attribute_simps [simp]:
  "msg_Data (put_attribute k v m) = msg_Data m"
  "msg_Attributes m = Some as \<Longrightarrow> msg_Attributes (put_attribute k v m) = Some (go_put k v as)"
  "msg_Attributes (put_attribute k v m) = None \<longleftrightarrow> msg_Attributes m = None"
  by (simp_all add: put_attribute_def)

lemma published_wait [simp]: "published (snd (wait_retry w)) = published w"
  by (auto simp: wait_retry_def split: prod.splits option.splits
      dest!: accepted_of_ask_err [where P = is_publish])

lemma published_metric [simp]:
  "published (Metric_Increment m as w) = published w" "published (Metric_Record m v as w) = published w"
  by simp_all

text \<open>A handler that publishes nothing itself.\<close>

definition silent :: "'a world_scheme Handle \<Rightarrow> bool" where
  "silent h \<longleftrightarrow> (\<forall>b w. published (snd (Handler h b w)) = published w)"

context publisher
begin

lemma publish_one:
  assumes "publish t p opts w = (e, w')"
  shows "(e = None \<and> (\<exists>j. p = Inr j \<and> sent w' = sent w @ [message t (json_text j) opts])) \<or>
         (e \<noteq> None \<and> sent w' = sent w)"
  using assms accept [of t p opts w w'] refuse [of t p opts w _ w'] by (cases e) auto

lemma archived_fate:
  assumes "archivedMsg publish m w = (acks, w')"
  shows "(settled acks = Ack \<and> (\<exists>j. Message_json m = Inr j \<and>
            sent w' = sent w @ [message dead_letter_topic (json_text j) (msg_opts m)])) \<or>
         (settled acks = Nack \<and> sent w' = sent w)"
  using assms publish_one [of dead_letter_topic "Message_json m" "msg_opts m" w]
  by (auto simp: archivedMsg_def settled_def split: prod.splits option.splits)

end

text \<open>The outcomes of a failed delivery that does not panic.\<close>

lemma retryable_cases:
  assumes run: "retryable PubSubGoogle_Publish m w = ((acks, Returns ()), w')"
  obtains (dead) n k j where "atoi (case go_get (attributes_of m) ''retry_count'' of None \<Rightarrow> ''0'' | Some v \<Rightarrow> v) = Some n"
      "atoi (go_lookup (attributes_of m) ''max_retries'') = Some k" "k \<le> n" "settled acks = Ack"
      "published w' = published w @ [pubsub_message dead_letter_topic (json_text j) (msg_opts m)]"
      "Message_json m = Inr j"
  | (again) n k j where "atoi (case go_get (attributes_of m) ''retry_count'' of None \<Rightarrow> ''0'' | Some v \<Rightarrow> v) = Some n"
      "atoi (go_lookup (attributes_of m) ''max_retries'') = Some k" "n < k" "settled acks = Ack"
      "Message_json (put_attribute ''retry_count'' (itoa (n + 1)) m) = Inr j"
      "published w' = published w @ [pubsub_message (go_lookup (attributes_of m) ''topic'') (json_text j)
         (msg_opts (put_attribute ''retry_count'' (itoa (n + 1)) m))]"
  | (lost) ts where "settled acks = Ack" "published w' = published w"
      "\<not> fst (wait_retry (Metric_Increment PubSubConsumerRetries ts w))"
  | (nacked) "settled acks = Nack" and "published w' = published w"
proof -
  let ?as = "attributes_of m"
  let ?topic = "go_lookup ?as ''topic''"
  obtain n where n: "atoi (case go_get ?as ''retry_count'' of None \<Rightarrow> ''0'' | Some v \<Rightarrow> v) = Some n"
    using run by (fastforce simp: retryable_def Let_def split: option.splits)
  obtain k where k: "atoi (go_lookup ?as ''max_retries'') = Some k"
    using run n by (fastforce simp: retryable_def Let_def split: option.splits)
  show thesis
  proof (cases "k \<le> n")
    case True
    obtain a w1 where ar: "archivedMsg PubSubGoogle_Publish m (Metric_Increment PubSubConsumerDlq [(''topic'', AStr ?topic)] w) = (a, w1)"
      by (metis prod.collapse)
    with run n k True have "acks = a @ [Ack]" "w' = w1" by (simp_all add: retryable_def Let_def)
    moreover have "a \<noteq> []" using ar by (auto simp: archivedMsg_def split: prod.splits option.splits)
    ultimately show thesis
      using gpubsub.archived_fate [OF ar] dead [OF n k True] nacked by (auto simp: settled_def)
  next
    case False
    let ?w0 = "Metric_Increment PubSubConsumerRetries [(''topic'', AStr ?topic)] w"
    let ?m1 = "put_attribute ''retry_count'' (itoa (n + 1)) m"
    show thesis
    proof (cases "fst (wait_retry ?w0)")
      case fired: True
      obtain e w2 where pub: "PubSubGoogle_Publish ?topic (Message_json ?m1) (msg_opts ?m1) (snd (wait_retry ?w0)) = (e, w2)"
        by (metis prod.collapse)
      with run n k False fired have "acks = (if e = None then [Ack] else [Nack, Ack])" "w' = w2"
        by (auto simp: retryable_def Let_def case_prod_beta split: option.splits)
      then show thesis
        using gpubsub.publish_one [OF pub] again [OF n k] False nacked by (auto simp: settled_def)
    next
      case no: False
      with run n k False have "acks = [Ack]" "w' = snd (wait_retry ?w0)"
        by (simp_all add: retryable_def Let_def case_prod_beta)
      with no lost show thesis by (simp add: settled_def)
    qed
  qed
qed

lemma atoi_zero: "atoi ''0'' = Some 0"
  by (simp add: atoi_def parse_int_def has_prefix_def dec_nat_def dec_val_def is_digit_def digit_val_def Let_def)

lemma handler_cases:
  assumes "silent h" and run: "ToGPubSubHandler h PubSubGoogle_Publish m w = ((acks, Returns ()), w')"
    and err: "Handler h (case msg_Data m of None \<Rightarrow> [] | Some b \<Rightarrow> b) w = (e, w1)"
  shows "published w1 = published w \<and>
    (case e of
       None \<Rightarrow> settled acks = Ack \<and> w' = w1
     | Some err \<Rightarrow> \<exists>acks1. retryable PubSubGoogle_Publish (put_attribute ''msg'' (error_msg err) m) w1
           = ((acks1, Returns ()), w') \<and> settled acks = settled acks1 \<and> msg_Attributes m \<noteq> None)"
proof -
  have "published w1 = published w" using assms(1) err by (metis silent_def snd_conv)
  moreover have "acks1 \<noteq> []" if "retryable PubSubGoogle_Publish m' w1 = ((acks1, Returns ()), w')" for m' acks1
    using that by (auto simp: retryable_def Let_def case_prod_beta split: option.splits if_splits prod.splits)
  ultimately show ?thesis
    using run by (auto simp: ToGPubSubHandler_def err settled_def split: option.splits prod.splits if_splits)
qed


text \<open>When the context ends during the wait, a message that failed is taken off the
  subscription although it was neither handled nor published again: it is lost.\<close>

lemma pubsub_cancel_loses:
  assumes "Handler h (case msg_Data m of None \<Rightarrow> [] | Some b \<Rightarrow> b) w = (Some e, w1)"
    and "msg_Attributes m = Some attrs" and "go_get attrs ''retry_count'' = None"
    and "go_get attrs ''max_retries'' = Some (itoa k)" and "0 < k" and "k < 2 ^ 63"
    and "\<not> fst (wait_retry (Metric_Increment PubSubConsumerRetries [(''topic'', AStr (go_lookup attrs ''topic''))] w1))"
  shows "case ToGPubSubHandler h PubSubGoogle_Publish m w of
    ((acks, res), w') \<Rightarrow> settled acks = Ack \<and> res = Returns () \<and> published w' = published w1"
proof -
  have kk: "atoi (itoa k) = Some k" using assms(5,6) by (intro atoi_itoa) simp_all
  show ?thesis
    using assms atoi_zero kk
    by (simp add: ToGPubSubHandler_def retryable_def attributes_of_def put_attribute_def Let_def go_lookup_def
        case_prod_beta settled_def)
qed

lemma calm_wait: "all_done w \<Longrightarrow> \<exists>w'. wait_retry w = (True, w') \<and> all_done w'"
  using calm_ask_err [of w "Other ''select'' [''time.After(5s)'', ''ctx.Done()'']"] calm_ask_err [of _ "Other ''ctx.Err'' []"]
  by (fastforce simp: wait_retry_def)

lemma calm_publish: "all_done w \<Longrightarrow> \<exists>w'. PubSubGoogle_Publish t (Inr j) opts w = (None, w')"
  using calm_ask_err [of w "PubSubPublish t (json_text j) (message_attributes t (Attributes opts))"]
  by (auto simp: PubSubGoogle_Publish_def json_Marshal_def)

text \<open>A concrete message and a handler that always fails, in a world where every call succeeds and in
  one whose context is cancelled.\<close>

definition failing_handle :: "'a world_scheme Handle" where
  "failing_handle = \<lparr>EventName = ''e'', Handler = (\<lambda>b w. (Some (ErrText ''no''), w))\<rparr>"

definition sample_attributes :: "string gomap" where
  "sample_attributes = [(''max_retries'', itoa 1), (''topic'', ''t'')]"

definition sample_message :: Message where
  "sample_message = \<lparr>msg_ID = ''1'', msg_Data = Some ''x'', msg_Attributes = Some sample_attributes,
     msg_PublishTime = \<lparr>unix_nano = 0, zone_min = 0\<rparr>, msg_DeliveryAttempt = None, msg_OrderingKey = []\<rparr>"

definition cancelled_world :: world where
  "cancelled_world = \<lparr>history = [],
     answer = (\<lambda>h c. case c of Other _ _ \<Rightarrow> Failed (ErrText ''context canceled'') | _ \<Rightarrow> Done)\<rparr>"

lemma silent_failing [simp]: "silent failing_handle"
  by (simp add: silent_def failing_handle_def)

lemma sample_publishable: "\<exists>j. Message_json (sample_message\<lparr>msg_Attributes := as\<rparr>) = Inr j"
  by (simp add: Message_json_def sample_message_def Time_MarshalJSON_def time_ok_def wall_clock_def
      epoch_days_def year_start_def multiples_def)

lemma sample_run:
  "\<exists>acks w' b. ToGPubSubHandler failing_handle PubSubGoogle_Publish sample_message calm_world = ((acks, Returns ()), w') \<and>
     settled acks = Ack \<and>
     published w' = [PubSubPublish ''t'' b (go_put ''retry_count'' (itoa 1) (go_put ''msg'' ''no'' sample_attributes))]"
proof -
  let ?attrs = "go_put ''retry_count'' (itoa 1) (go_put ''msg'' ''no'' sample_attributes)"
  obtain j where j: "Message_json (sample_message\<lparr>msg_Attributes := Some ?attrs\<rparr>) = Inr j"
    using sample_publishable by blast
  have one: "atoi (itoa 1) = Some 1" by (rule atoi_itoa) simp_all
  have m: "put_attribute ''retry_count'' (itoa 1) (put_attribute ''msg'' ''no'' sample_message)
      = sample_message\<lparr>msg_Attributes := Some ?attrs\<rparr>"
    by (simp add: put_attribute_def sample_message_def)
  have attrs: "attributes_of (put_attribute ''msg'' ''no'' sample_message) = go_put ''msg'' ''no'' sample_attributes"
    "msg_Attributes sample_message = Some sample_attributes"
    by (simp_all add: attributes_of_def put_attribute_def sample_message_def)
  have get: "go_get sample_attributes ''retry_count'' = None" "go_get sample_attributes ''max_retries'' = Some (itoa 1)"
    "go_get sample_attributes ''topic'' = Some ''t''"
    by (simp_all add: sample_attributes_def)
  let ?w1 = "Metric_Increment PubSubConsumerRetries [(''topic'', AStr ''t'')] calm_world"
  have "all_done ?w1" using all_done_calm by (simp add: all_done_def)
  then obtain w2 where w2: "wait_retry ?w1 = (True, w2)" "all_done w2"
    using calm_wait by blast
  have "published w2 = []" using published_wait [of ?w1] w2(1) by simp
  obtain w3 where w3: "PubSubGoogle_Publish ''t'' (Inr j) (msg_opts (sample_message\<lparr>msg_Attributes := Some ?attrs\<rparr>)) w2 = (None, w3)"
    using calm_publish [OF w2(2)] by blast
  from gpubsub.accept [OF w3] \<open>published w2 = []\<close> have "published w3 = [PubSubPublish ''t'' (json_text j) ?attrs]"
    by (auto simp: pubsub_message_def msg_opts_def)
  moreover have "ToGPubSubHandler failing_handle PubSubGoogle_Publish sample_message calm_world
      = (([Ack, Nack], Returns ()), w3)"
    using w2(1) w3
    by (simp add: ToGPubSubHandler_def failing_handle_def retryable_def Let_def attrs go_lookup_def get
        atoi_zero one m j)
  ultimately show ?thesis by (simp add: settled_def)
qed


section \<open>Retries end\<close>

text \<open>A message that failed \<open>n\<close> times and was published again each time: the next message has the
  attributes it was published with; its data, its identifier and the world are arbitrary.\<close>

inductive redelivered :: "'a world_scheme Handle \<Rightarrow> string gomap \<Rightarrow> nat \<Rightarrow> string gomap \<Rightarrow> bool"
  for h first where
  start: "redelivered h first 0 first"
| again: "redelivered h first n attrs \<Longrightarrow> msg_Attributes m = Some attrs \<Longrightarrow>
    ToGPubSubHandler h PubSubGoogle_Publish m w = ((acks, Returns ()), w') \<Longrightarrow>
    published w' = published w @ [PubSubPublish topic data attrs'] \<Longrightarrow> topic \<noteq> dead_letter_topic \<Longrightarrow>
    redelivered h first (Suc n) attrs'"

inductive_cases redelivered_SucE: "redelivered h first (Suc n) attrs"

definition counts :: "nat \<Rightarrow> string gomap \<Rightarrow> bool" where
  "counts n attrs \<longleftrightarrow> (if n = 0 then go_get attrs ''retry_count'' = None
                     else go_get attrs ''retry_count'' = Some (itoa (int n)))"

lemma redelivered_inv:
  assumes "silent h" and "redelivered h first n attrs" and "counts 0 first"
    and "go_get first ''max_retries'' = Some (itoa k)" and k: "0 \<le> k" "k < 2 ^ 63"
  shows "counts n attrs \<and> go_get attrs ''max_retries'' = Some (itoa k) \<and> int n \<le> k"
  using assms(2)
proof (induction rule: redelivered.induct)
  case start
  with assms(3-6) show ?case by (simp add: counts_def)
next
  case (again n attrs m w acks w' topic data attrs')
  have kk: "atoi (itoa k) = Some k" using k by (intro atoi_itoa) simp_all
  have nn: "atoi (case go_get attrs ''retry_count'' of None \<Rightarrow> ''0'' | Some v \<Rightarrow> v) = Some (int n)"
  proof (cases "n = 0")
    case True
    with again.IH show ?thesis by (simp add: counts_def atoi_zero)
  next
    case False
    have "atoi (itoa (int n)) = Some (int n)" using again.IH k by (intro atoi_itoa) simp_all
    with False again.IH show ?thesis by (simp add: counts_def)
  qed
  obtain e w1 where o: "Handler h (case msg_Data m of None \<Rightarrow> [] | Some b \<Rightarrow> b) w = (e, w1)"
    by (metis prod.collapse)
  note c = handler_cases [OF assms(1) again.hyps(3) o]
  from c again.hyps(4) obtain err acks1 where
    r: "retryable PubSubGoogle_Publish (put_attribute ''msg'' (error_msg err) m) w1 = ((acks1, Returns ()), w')"
    and p: "published w1 = published w"
    by (cases e) auto
  let ?m = "put_attribute ''msg'' (error_msg err) m"
  have attrs: "attributes_of ?m = go_put ''msg'' (error_msg err) attrs"
    using again.hyps(2) by (simp add: attributes_of_def)
  have max: "go_lookup (attributes_of ?m) ''max_retries'' = itoa k"
    using again.IH by (simp add: attrs) (simp add: go_lookup_def)
  have cnt: "go_get (attributes_of ?m) ''retry_count'' = go_get attrs ''retry_count''"
    by (simp add: attrs)
  from r show ?case
  proof (cases rule: retryable_cases)
    case (dead n' k' j)
    with p again.hyps(4,5) show ?thesis by (simp add: pubsub_message_def)
  next
    case (again n' k' j)
    have "n' = int n" "k' = k" using again(1,2) nn kk by (simp_all add: max cnt)
    moreover have "attrs' = go_put ''retry_count'' (itoa (n' + 1)) (attributes_of ?m)"
      using again(6) p \<open>published w' = published w @ [PubSubPublish topic data attrs']\<close>
        \<open>msg_Attributes m = Some attrs\<close>
      by (simp add: pubsub_message_def msg_opts_def attrs)
    ultimately show ?thesis
      using again(3) redelivered.again \<open>counts n attrs \<and> _\<close>
      by (simp add: counts_def attrs add.commute)
  next
    case (lost ts)
    with p again.hyps(4) show ?thesis by simp
  next
    case nacked
    with p again.hyps(4) show ?thesis by simp
  qed
qed

text \<open>Claim C16: the retries of a message end. However the handler fails and whatever the messages
  carry, one that starts without a counter and with \<open>max_retries = k\<close> is published again to its
  topic at most \<open>k\<close> times; the counter it carries is the number of these times.\<close>

theorem retries_bounded:
  assumes "silent h" and "go_get first ''retry_count'' = None"
    and "go_get first ''max_retries'' = Some (itoa k)" and "0 \<le> k" and "k < 2 ^ 63"
    and "redelivered h first n attrs"
  shows "int n \<le> k \<and> (0 < n \<longrightarrow> go_get attrs ''retry_count'' = Some (itoa (int n)))"
  using redelivered_inv [OF assms(1,6) _ assms(3-5)] assms(2) by (auto simp: counts_def)


lemma sample_topic: "''t'' \<noteq> dead_letter_topic"
proof -
  have "topic_ok dead_letter_topic" unfolding dead_letter_topic_def by (rule topic_ok_BuildTopicName)
  then have "length ''t'' \<noteq> length dead_letter_topic" by (simp add: topic_ok_def)
  then show ?thesis by metis
qed

theorem retries_bounded_witness:
  "\<exists>attrs. redelivered (failing_handle :: world Handle) sample_attributes 1 attrs \<and> go_get attrs ''retry_count'' = Some (itoa 1)"
proof -
  obtain acks b and w' :: world where run: "ToGPubSubHandler failing_handle PubSubGoogle_Publish sample_message calm_world
      = ((acks, Returns ()), w')"
    and p: "published w' = [PubSubPublish ''t'' b (go_put ''retry_count'' (itoa 1) (go_put ''msg'' ''no'' sample_attributes))]"
    using sample_run by blast
  have "published w' = published calm_world @
      [PubSubPublish ''t'' b (go_put ''retry_count'' (itoa 1) (go_put ''msg'' ''no'' sample_attributes))]"
    using p by simp
  moreover have "msg_Attributes sample_message = Some sample_attributes" by (simp add: sample_message_def)
  ultimately have "redelivered (failing_handle :: world Handle) sample_attributes (Suc 0)
      (go_put ''retry_count'' (itoa 1) (go_put ''msg'' ''no'' sample_attributes))"
    using redelivered.again [OF redelivered.start _ run] sample_topic by blast
  with retries_bounded [OF silent_failing _ _ _ _ this, of 1] show ?thesis
    by (auto simp: sample_attributes_def)
qed

end
