(* ===== verification/Taskapp.thy ===== *)
theory Taskapp
  imports Asyncadapter Fetcher Storests Interstore
begin

text \<open>
  \<open>internal/app/taskapp\<close>: publishing an event to the task queue (\<open>publisher_handle_http.go\<close>), the
  consumer that delivers the tasks (\<open>consumer_handle.go\<close>), and the tasks asynq has archived, read
  from Redis (\<open>cache_store.go\<close>, \<open>archived_task.go\<close>, \<open>msg_data.go\<close>).

  The interfaces the handlers call are arguments: \<open>get_event\<close> is \<open>Store.GetEvent\<close>, \<open>publish\<close> the
  \<open>GenericPublisher\<close>, \<open>insights\<close> stores a metric (its error is only logged; the panic of a missing
  configuration, already checked at start-up, is left out) and \<open>notify\<close> is \<open>Fetcher.Notify\<close>. The
  clock is read as UTC.
\<close>

section \<open>Payloads (internal_payload.go, publisher_handle_http.go)\<close>

record Metadata =
  md_Source :: string
  md_Version :: string
  md_Environment :: string
  md_Headers :: "string gomap option"

record InternalPayload =
  ip_EventName :: string
  ip_Data :: "json gomap option"
  ip_Metadata :: Metadata

definition InternalPayload_Validate :: "InternalPayload \<Rightarrow> error option" where
  "InternalPayload_Validate p =
     (if ip_EventName p = [] then Some (ErrText ''event name is required'')
      else if ip_Data p = None then Some (ErrText ''data is required'')
      else None)"

definition Data_ToBytes :: "json gomap option \<Rightarrow> bytes" where
  "Data_ToBytes d = json_text (enc_anymap d)"

definition zero_Metadata :: Metadata where
  "zero_Metadata = \<lparr>md_Source = [], md_Version = [], md_Environment = [], md_Headers = None\<rparr>"

definition Metadata_field :: "Metadata \<Rightarrow> string \<Rightarrow> json \<Rightarrow> Metadata \<times> error option" where
  "Metadata_field m k j =
     (if fold_eq k ''source''
      then (let (v, e) = into_string (md_Source m) j in (m\<lparr>md_Source := v\<rparr>, e))
      else if fold_eq k ''version''
      then (let (v, e) = into_string (md_Version m) j in (m\<lparr>md_Version := v\<rparr>, e))
      else if fold_eq k ''environment''
      then (let (v, e) = into_string (md_Environment m) j in (m\<lparr>md_Environment := v\<rparr>, e))
      else if fold_eq k ''headers''
      then (let (v, e) = into_strmap (md_Headers m) j in (m\<lparr>md_Headers := v\<rparr>, e))
      else (m, None))"

definition zero_InternalPayload :: InternalPayload where
  "zero_InternalPayload = \<lparr>ip_EventName = [], ip_Data = None, ip_Metadata = zero_Metadata\<rparr>"

definition InternalPayload_field :: "InternalPayload \<Rightarrow> string \<Rightarrow> json \<Rightarrow> InternalPayload \<times> error option" where
  "InternalPayload_field p k j =
     (if fold_eq k ''event_name''
      then (let (v, e) = into_string (ip_EventName p) j in (p\<lparr>ip_EventName := v\<rparr>, e))
      else if fold_eq k ''data''
      then (let (v, e) = into_anymap (ip_Data p) j in (p\<lparr>ip_Data := v\<rparr>, e))
      else if fold_eq k ''metadata''
      then (let (v, e) = into_struct Metadata_field (ip_Metadata p) j in (p\<lparr>ip_Metadata := v\<rparr>, e))
      else (p, None))"

definition into_InternalPayload :: "InternalPayload decoder" where
  "into_InternalPayload = into_struct InternalPayload_field"

record RequestPayload =
  rp_EventName :: string
  rp_Consumer :: Consumer
  rp_Data :: "json gomap option"
  rp_Headers :: "string gomap option"
  rp_PublishedAt :: int

definition RequestPayload_Validate :: "RequestPayload \<Rightarrow> error option" where
  "RequestPayload_Validate p =
     (if rp_EventName p = [] then Some (ErrText ''event_name is required'')
      else if c_BaseUrl (rp_Consumer p) = [] then Some (ErrText ''consumer.base_url is required'')
      else None)"

text \<open>The headers of the payload, overwritten by those given. The map of the payload is changed in
  place, which no caller looks at again.\<close>

definition mergeHeaders :: "RequestPayload \<Rightarrow> string gomap option \<Rightarrow> string gomap" where
  "mergeHeaders p headers =
     go_put_all (map_of_nil headers) (case rp_Headers p of None \<Rightarrow> [] | Some h \<Rightarrow> h)"

text \<open>\<open>omitempty\<close>: empty headers and a zero time are left out.\<close>

definition RequestPayload_json :: "RequestPayload \<Rightarrow> json" where
  "RequestPayload_json p =
     JObj ([(''event_name'', JStr (rp_EventName p)), (''consumer'', Consumer_json (rp_Consumer p)),
            (''data'', enc_anymap (rp_Data p))] @
           (if map_of_nil (rp_Headers p) = [] then [] else [(''headers'', enc_strmap (rp_Headers p))]) @
           (if rp_PublishedAt p = 0 then [] else [(''published_at'', enc_int (rp_PublishedAt p))]))"

definition zero_RequestPayload :: RequestPayload where
  "zero_RequestPayload = \<lparr>rp_EventName = [], rp_Consumer = zero_Consumer, rp_Data = None,
     rp_Headers = None, rp_PublishedAt = 0\<rparr>"

definition RequestPayload_field :: "RequestPayload \<Rightarrow> string \<Rightarrow> json \<Rightarrow> RequestPayload \<times> error option" where
  "RequestPayload_field p k j =
     (if fold_eq k ''event_name''
      then (let (v, e) = into_string (rp_EventName p) j in (p\<lparr>rp_EventName := v\<rparr>, e))
      else if fold_eq k ''consumer''
      then (let (v, e) = into_Consumer (rp_Consumer p) j in (p\<lparr>rp_Consumer := v\<rparr>, e))
      else if fold_eq k ''data''
      then (let (v, e) = into_anymap (rp_Data p) j in (p\<lparr>rp_Data := v\<rparr>, e))
      else if fold_eq k ''headers''
      then (let (v, e) = into_strmap (rp_Headers p) j in (p\<lparr>rp_Headers := v\<rparr>, e))
      else if fold_eq k ''published_at''
      then (let (v, e) = into_int64 (rp_PublishedAt p) j in (p\<lparr>rp_PublishedAt := v\<rparr>, e))
      else (p, None))"

definition into_RequestPayload :: "RequestPayload decoder" where
  "into_RequestPayload = into_struct RequestPayload_field"

section \<open>Publishing an event (publisher_handle_http.go)\<close>

definition utc :: "int \<Rightarrow> Time" where
  "utc t = \<lparr>unix_nano = t, zone_min = 0\<rparr>"

type_synonym 'w get_event = "string \<Rightarrow> 'w \<Rightarrow> Event result \<times> 'w"
type_synonym 'w publisher_insights = "PublisherMetric \<Rightarrow> 'w \<Rightarrow> error option \<times> 'w"
type_synonym 'w consumer_insights = "ConsumerMetric \<Rightarrow> 'w \<Rightarrow> error option \<times> 'w"

text \<open>\<open>isSuccess\<close> is not used: the metric always says \<open>ACK: true\<close>.\<close>

definition insert_published :: "'a world_scheme publisher_insights \<Rightarrow> InternalPayload \<Rightarrow> int \<Rightarrow> bool
    \<Rightarrow> 'a world_scheme \<Rightarrow> 'a world_scheme" where
  "insert_published insights payload started isSuccess w =
     (let (finished, w1) = time_now w
      in snd (insights \<lparr>pm_TopicName = ip_EventName payload, pm_TimeStarted = utc started,
                pm_TimeEnded = utc finished, pm_TimeDurationMs = milliseconds (finished - started),
                pm_ACK = True\<rparr> w1))"

definition request_topic :: string where
  "request_topic = BuildTopicName domain_ProjectID EventQueueRequestToExternal"

definition task_input :: "InternalPayload \<Rightarrow> Event \<Rightarrow> Consumer \<Rightarrow> RequestPayload" where
  "task_input payload event consumer =
     \<lparr>rp_EventName = event_Name event,
      rp_Consumer = \<lparr>c_ServiceName = c_ServiceName consumer, c_BaseUrl = c_BaseUrl consumer,
                     c_Path = c_Path consumer, c_Headers = c_Headers consumer\<rparr>,
      rp_Data = ip_Data payload, rp_Headers = md_Headers (ip_Metadata payload), rp_PublishedAt = 0\<rparr>"

definition task_opts :: "Event \<Rightarrow> Opts" where
  "task_opts event = \<lparr>Attributes = Some [], AsynqOpts = ToAsynqOptions (Option event), WqType = []\<rparr>"

fun publish_tasks :: "'w generic_publisher \<Rightarrow> InternalPayload \<Rightarrow> Event \<Rightarrow> Consumer list \<Rightarrow> response \<Rightarrow> 'w
    \<Rightarrow> response \<times> 'w" where
  "publish_tasks publish payload event [] resp w = (write_header 202 resp, w)"
| "publish_tasks publish payload event (consumer # cs) resp w =
     (case publish request_topic (Inr (RequestPayload_json (task_input payload event consumer)))
             (task_opts event) w of
        (Some e, w1) \<Rightarrow> (http_error ''failed to publish event'' 500 resp, w1)
      | (None, w1) \<Rightarrow> publish_tasks publish payload event cs resp w1)"

definition PublisherEvent :: "'a world_scheme get_event \<Rightarrow> 'a world_scheme generic_publisher
    \<Rightarrow> 'a world_scheme publisher_insights \<Rightarrow> bytes \<Rightarrow> 'a world_scheme \<Rightarrow> response \<times> 'a world_scheme" where
  "PublisherEvent get_event publish insights request_body w =
     (let (started, w0) = time_now w;
          resp = new_response
      in case decode into_InternalPayload zero_InternalPayload request_body of
           (_, Some e) \<Rightarrow> (http_error (error_msg e) 400 resp, w0)
         | (payload, None) \<Rightarrow>
             (case InternalPayload_Validate payload of
                Some e \<Rightarrow> (http_error (error_msg e) 400 resp, w0)
              | None \<Rightarrow>
                  (let (resp1, w2) =
                     (case get_event (ip_EventName payload) w0 of
                        (Inl e, w1) \<Rightarrow>
                          if errors_is e EventNotFound
                          then (http_error ''event not found'' 404 resp, w1)
                          else (http_error ''failed to get event'' 500 resp, w1)
                      | (Inr event, w1) \<Rightarrow>
                          publish_tasks publish payload event (consumers_of event) resp w1)
                   in (resp1, insert_published insights payload started True w2))))"

section \<open>Delivering a task (consumer_handle.go)\<close>

definition insert_consumed :: "'a world_scheme consumer_insights \<Rightarrow> RequestPayload \<Rightarrow> int \<Rightarrow> bool
    \<Rightarrow> 'a world_scheme \<Rightarrow> 'a world_scheme" where
  "insert_consumed insights payload started isSuccess w =
     (let (finished, w1) = time_now w
      in snd (insights \<lparr>cm_TopicName = rp_EventName payload,
                cm_ConsumerName = c_ServiceName (rp_Consumer payload), cm_TimeStarted = utc started,
                cm_TimeEnded = utc finished, cm_TimeDurationMs = milliseconds (finished - started),
                cm_ACK = isSuccess\<rparr> w1))"

definition consumer_attrs :: "string \<Rightarrow> RequestPayload \<Rightarrow> error option \<Rightarrow> attrs" where
  "consumer_attrs app payload err =
     [(''consumer.app_name'', AStr app), (''consumer.base_url'', AStr (c_BaseUrl (rp_Consumer payload))),
      (''consumer.path'', AStr (c_Path (rp_Consumer payload))),
      (''consumer.service_name'', AStr (c_ServiceName (rp_Consumer payload)))] @
     (case err of
        Some e \<Rightarrow> [(''success'', ABool False), (''error'', AStr (error_msg e))]
      | None \<Rightarrow> [(''success'', ABool True)])"

definition recordDuration :: "int \<Rightarrow> RequestPayload \<Rightarrow> error option \<Rightarrow> 'a world_scheme \<Rightarrow> 'a world_scheme" where
  "recordDuration started payload err w =
     (let (now, w1) = time_now w
      in Metric_Record TaskConsumerDuration (now - started) (consumer_attrs TASK_APP_NAME payload err) w1)"

definition GetRequestHandle :: "'a world_scheme notifier \<Rightarrow> 'a world_scheme consumer_insights
    \<Rightarrow> 'a world_scheme Handle" where
  "GetRequestHandle notify insights =
     \<lparr>EventName = EventQueueRequestToExternal,
      Handler = (\<lambda>b w.
        let (started, w0) = time_now w
        in case AsyncCtx_Payload into_RequestPayload zero_RequestPayload b of
             Inl e \<Rightarrow> (Some (ErrWrap ''get payload'' e), w0)
           | Inr payload \<Rightarrow>
               (case RequestPayload_Validate payload of
                  Some e \<Rightarrow> (Some (ErrWrap ''validate payload'' e), w0)
                | None \<Rightarrow>
                    (let headers = mergeHeaders payload (c_Headers (rp_Consumer payload))
                     in case notify (rp_Data payload) (Some headers) (rp_Consumer payload)
                               kind_LongRunning w0 of
                          (Some e, w1) \<Rightarrow>
                            (Some (ErrWrap ''fetch consumer'' e),
                             recordDuration started payload (Some e)
                               (insert_consumed insights payload started False w1))
                        | (None, w1) \<Rightarrow>
                            (None,
                             recordDuration started payload None
                               (insert_consumed insights payload started True w1)))))\<rparr>"

section \<open>What the publisher's handler does\<close>

text \<open>The message one consumer of an event gets.\<close>

definition task_body :: "InternalPayload \<Rightarrow> Event \<Rightarrow> Consumer \<Rightarrow> bytes" where
  "task_body payload event c = json_text (RequestPayload_json (task_input payload event c))"

context publisher
begin

lemma publish_tasks_sent:
  assumes "publish_tasks publish payload event cs resp w = (resp', w')" and "committed resp = None"
  shows "\<exists>n\<le>length cs. sent w' = sent w @
        map (\<lambda>c. message request_topic (task_body payload event c) (task_opts event)) (take n cs) \<and>
      status_of resp' = (if n = length cs then 202 else 500)"
  using assms(1)
proof (induction cs arbitrary: w)
  case Nil
  with assms(2) show ?case by auto
next
  case (Cons c cs)
  obtain e w1 where pub: "publish request_topic (Inr (RequestPayload_json (task_input payload event c)))
      (task_opts event) w = (e, w1)" by (metis prod.collapse)
  show ?case
  proof (cases e)
    case (Some err)
    with Cons.prems pub refuse [of _ _ _ w err w1] have "sent w' = sent w" "status_of resp' = 500"
      using assms(2) by auto
    then show ?thesis by (intro exI [of _ 0]) simp
  next
    case None
    then have s: "sent w1 = sent w @ [message request_topic (task_body payload event c) (task_opts event)]"
      using pub accept [of _ _ _ w w1] by (fastforce simp: task_body_def)
    from Cons.prems pub None have "publish_tasks publish payload event cs resp w1 = (resp', w')" by simp
    from Cons.IH [OF this] obtain n where "n \<le> length cs" "sent w' = sent w1 @
        map (\<lambda>c. message request_topic (task_body payload event c) (task_opts event)) (take n cs)"
      "status_of resp' = (if n = length cs then 202 else 500)" by blast
    with s show ?thesis by (intro exI [of _ "Suc n"]) simp
  qed
qed

end

text \<open>A store and insights that publish nothing themselves.\<close>

definition quiet :: "('a world_scheme \<Rightarrow> call list) \<Rightarrow> ('x \<Rightarrow> 'a world_scheme \<Rightarrow> 'y \<times> 'a world_scheme) \<Rightarrow> bool" where
  "quiet sent f \<longleftrightarrow> (\<forall>x w. sent (snd (f x w)) = sent w)"

lemma published_now [simp]: "published (snd (time_now w)) = published w"
  by simp

lemma insert_published_quiet:
  "quiet published insights \<Longrightarrow> published (insert_published insights p s ok w) = published w"
  by (simp add: insert_published_def quiet_def case_prod_beta)

lemma PublisherEvent_cases:
  assumes "quiet published get_event" and "quiet published insights"
    and run: "PublisherEvent get_event Task_Publish insights request_body w = (resp, w')"
  shows "case decode into_InternalPayload zero_InternalPayload request_body of
      (_, Some e) \<Rightarrow> status_of resp = 400 \<and> published w' = published w
    | (payload, None) \<Rightarrow>
        if InternalPayload_Validate payload \<noteq> None then status_of resp = 400 \<and> published w' = published w
        else (case fst (get_event (ip_EventName payload) (snd (time_now w))) of
            Inl e \<Rightarrow> status_of resp = (if errors_is e EventNotFound then 404 else 500) \<and> published w' = published w
          | Inr event \<Rightarrow> \<exists>n\<le>length (consumers_of event).
              published w' = published w @
                map (\<lambda>c. AsynqEnqueue request_topic (task_body payload event c)
                       (NewDefaultOpt @ ToAsynqOptions (Option event))) (take n (consumers_of event)) \<and>
              status_of resp = (if n = length (consumers_of event) then 202 else 500))"
proof -
  obtain started w0 where t: "time_now w = (started, w0)" by (cases "time_now w")
  have p0: "published w0 = published w" using published_now [of w] by (simp add: t)
  obtain payload e where d: "decode into_InternalPayload zero_InternalPayload request_body = (payload, e)"
    by (cases "decode into_InternalPayload zero_InternalPayload request_body")
  show ?thesis
  proof (cases "e = None \<and> InternalPayload_Validate payload = None")
    case False
    with run p0 show ?thesis
      by (auto simp: PublisherEvent_def t d split: option.splits)
  next
    case True
    obtain g w1 where g: "get_event (ip_EventName payload) w0 = (g, w1)"
      by (cases "get_event (ip_EventName payload) w0")
    have p1: "published w1 = published w" using assms(1) p0 g by (metis quiet_def snd_conv)
    note ins = insert_published_quiet [OF assms(2)]
    show ?thesis
    proof (cases g)
      case (Inl err)
      with run True p1 show ?thesis by (auto simp: PublisherEvent_def t d g ins)
    next
      case (Inr event)
      obtain resp2 w2 where pt: "publish_tasks Task_Publish payload event (consumers_of event) new_response w1 = (resp2, w2)"
        by (metis prod.collapse)
      have "resp = resp2" "published w' = published w2"
        using run True by (auto simp: PublisherEvent_def t d g Inr pt ins)
      with asynq.publish_tasks_sent [OF pt] p1 True show ?thesis
        by (simp add: t d g Inr asynq_message_def task_opts_def)
    qed
  qed
qed

text \<open>Claim C14: the answer of \<open>POST /api/v1/task\<close> tells what was queued. A body that does not decode
  or misses the name or the data is answered with 400, an unknown event with 404 and a failing
  store with 500, all without a task; otherwise the tasks of the consumers are queued in their
  order, and the answer is 202 exactly when all of them were, else 500 with the first ones queued.\<close>

theorem PublisherEvent_outcome:
  assumes "quiet published get_event" and "quiet published insights"
    and run: "PublisherEvent get_event Task_Publish insights request_body w = (resp, w')"
  shows "case decode into_InternalPayload zero_InternalPayload request_body of
      (_, Some e) \<Rightarrow> status_of resp = 400 \<and> published w' = published w
    | (payload, None) \<Rightarrow>
        if InternalPayload_Validate payload \<noteq> None then status_of resp = 400 \<and> published w' = published w
        else (case fst (get_event (ip_EventName payload) (snd (time_now w))) of
            Inl e \<Rightarrow> status_of resp = (if errors_is e EventNotFound then 404 else 500) \<and> published w' = published w
          | Inr event \<Rightarrow> \<exists>n\<le>length (consumers_of event).
              published w' = published w @
                map (\<lambda>c. AsynqEnqueue request_topic (task_body payload event c)
                       (NewDefaultOpt @ ToAsynqOptions (Option event))) (take n (consumers_of event)) \<and>
              status_of resp = (if n = length (consumers_of event) then 202 else 500))"
  by (rule PublisherEvent_cases [OF assms])

text \<open>Where every call succeeds the request is accepted.\<close>

lemma calm_publish_tasks:
  "all_done w \<Longrightarrow> fst (publish_tasks Task_Publish payload ev cs resp w) = write_header 202 resp"
proof (induction cs arbitrary: w)
  case (Cons c cs)
  let ?p = "json_text (RequestPayload_json (task_input payload ev c))"
  obtain w1 where "ask_err (AsynqEnqueue request_topic ?p (NewDefaultOpt @ AsynqOpts (task_opts ev))) w = (None, w1)"
    "all_done w1" using calm_ask_err [OF Cons.prems] by blast
  with Cons.IH [of w1] show ?case by (simp add: Task_Publish_def json_Marshal_def)
qed simp

text \<open>A request, a store without events and insights that are not kept.\<close>

definition sample_request :: bytes where
  "sample_request = json_text (JObj [(''event_name'', JStr ''paid''), (''data'', JObj [])])"

definition empty_store :: "'a world_scheme get_event" where
  "empty_store n w = (Inl EventNotFound, w)"

definition no_insights :: "'m \<Rightarrow> 'a world_scheme \<Rightarrow> error option \<times> 'a world_scheme" where
  "no_insights m w = (None, w)"

lemma quiet_samples [simp]: "quiet sent empty_store" "quiet sent no_insights"
  by (simp_all add: quiet_def empty_store_def no_insights_def)

lemma InternalPayload_fields [json_simps]:
  "InternalPayload_field p ''event_name'' (JStr s) = (p\<lparr>ip_EventName := s\<rparr>, None)"
  "InternalPayload_field p ''data'' j = (let (v, e) = into_anymap (ip_Data p) j in (p\<lparr>ip_Data := v\<rparr>, e))"
  by (simp_all add: InternalPayload_field_def fold_eq_def lower_char_def)

lemma sample_request_decoded:
  "decode into_InternalPayload zero_InternalPayload sample_request =
     (zero_InternalPayload\<lparr>ip_EventName := ''paid'', ip_Data := Some []\<rparr>, None)"
  unfolding sample_request_def
  by (subst decode_json_text)
    (simp_all add: into_InternalPayload_def into_struct_def InternalPayload_fields
      zero_InternalPayload_def into_anymap_def into_map_def)

theorem PublisherEvent_outcome_witness:
  "status_of (fst (PublisherEvent empty_store Task_Publish no_insights sample_request calm_world)) = 404"
proof -
  obtain resp w' where run: "PublisherEvent empty_store Task_Publish no_insights sample_request calm_world = (resp, w')"
    by (metis prod.collapse)
  from PublisherEvent_outcome [OF quiet_samples run] show ?thesis
    by (simp add: run sample_request_decoded InternalPayload_Validate_def empty_store_def)
qed

section \<open>A task is delivered\<close>

definition payload_ok :: "InternalPayload \<Rightarrow> bool" where
  "payload_ok p \<longleftrightarrow> anymap_wf (ip_Data p) \<and> strmap_ok (md_Headers (ip_Metadata p))"

lemma Metadata_field_keeps:
  "strmap_ok (md_Headers m) \<Longrightarrow> strmap_ok (md_Headers (fst (Metadata_field m k j)))"
  using into_strmap_keeps by (auto simp: Metadata_field_def case_prod_beta)

lemma InternalPayload_field_keeps:
  "json_wf j \<Longrightarrow> payload_ok p \<Longrightarrow> payload_ok (fst (InternalPayload_field p k j))"
  using into_anymap_keeps into_struct_keeps [of "\<lambda>m. strmap_ok (md_Headers m)" Metadata_field, OF Metadata_field_keeps]
  by (auto simp: InternalPayload_field_def payload_ok_def case_prod_beta)

lemma decoded_payload_ok: "payload_ok (fst (decode into_InternalPayload zero_InternalPayload b))"
proof (rule decode_keeps)
  show z: "payload_ok zero_InternalPayload"
    by (simp add: payload_ok_def zero_InternalPayload_def zero_Metadata_def anymap_wf_def anymap_ok_def
        enc_anymap_def strmap_ok_def)
  show "payload_ok (fst (into_InternalPayload zero_InternalPayload j))" if "json_wf j" for j
    unfolding into_InternalPayload_def
    by (rule into_struct_keeps [of payload_ok, OF InternalPayload_field_keeps z that])
qed

lemma RequestPayload_fields [json_simps]:
  "RequestPayload_field p ''event_name'' (JStr s) = (p\<lparr>rp_EventName := s\<rparr>, None)"
  "RequestPayload_field p ''consumer'' j = (let (v, e) = into_Consumer (rp_Consumer p) j in (p\<lparr>rp_Consumer := v\<rparr>, e))"
  "RequestPayload_field p ''data'' j = (let (v, e) = into_anymap (rp_Data p) j in (p\<lparr>rp_Data := v\<rparr>, e))"
  "RequestPayload_field p ''headers'' j = (let (v, e) = into_strmap (rp_Headers p) j in (p\<lparr>rp_Headers := v\<rparr>, e))"
  "RequestPayload_field p ''published_at'' j = (let (v, e) = into_int64 (rp_PublishedAt p) j in (p\<lparr>rp_PublishedAt := v\<rparr>, e))"
  by (simp_all add: RequestPayload_field_def fold_eq_def lower_char_def)

text \<open>What the JSON of a request keeps: empty headers come back as \<open>nil\<close>.\<close>

definition request_ok :: "RequestPayload \<Rightarrow> bool" where
  "request_ok p \<longleftrightarrow> consumer_ok (rp_Consumer p) \<and> anymap_wf (rp_Data p) \<and> strmap_ok (rp_Headers p) \<and>
     int64_ok (rp_PublishedAt p)"

definition headers_norm :: "string gomap option \<Rightarrow> string gomap option" where
  "headers_norm h = (if map_of_nil h = [] then None else h)"

lemma RequestPayload_read_back:
  assumes "request_ok p"
  shows "into_RequestPayload zero_RequestPayload (RequestPayload_json p) = (p\<lparr>rp_Headers := headers_norm (rp_Headers p)\<rparr>, None)"
  using assms unfolding request_ok_def anymap_wf_def int64_ok_def
  by (cases "map_of_nil (rp_Headers p) = []"; cases "rp_PublishedAt p = 0")
    (simp_all add: RequestPayload_json_def into_RequestPayload_def into_struct_def RequestPayload_fields
      zero_RequestPayload_def into_Consumer_json headers_norm_def)

lemma json_wf_RequestPayload: "anymap_wf (rp_Data p) \<Longrightarrow> json_wf (RequestPayload_json p)"
  by (auto simp: RequestPayload_json_def anymap_wf_def)

lemma RequestPayload_roundtrip:
  assumes "request_ok p"
  shows "AsyncCtx_Payload into_RequestPayload zero_RequestPayload (json_text (RequestPayload_json p)) =
    Inr (p\<lparr>rp_Headers := headers_norm (rp_Headers p)\<rparr>)"
  using assms RequestPayload_read_back [OF assms]
  by (simp add: AsyncCtx_Payload_def unmarshal_text json_wf_RequestPayload request_ok_def)

lemma delivered_record [simp]: "delivered (recordDuration s p e w) = delivered w"
  by (simp add: recordDuration_def case_prod_beta Let_def)

lemma insert_consumed_quiet:
  "quiet delivered insights \<Longrightarrow> delivered (insert_consumed insights p s ok w) = delivered w"
  by (simp add: insert_consumed_def quiet_def case_prod_beta)

text \<open>A task the publisher queued does its work in the handler of the queue.\<close>

lemma task_handled:
  assumes "decode into_InternalPayload zero_InternalPayload request_body = (payload, None)"
    and "consumer_ok c" and "event_Name event \<noteq> []" and "c_BaseUrl c \<noteq> []"
    and "quiet delivered insights"
    and "Handler (GetRequestHandle Notify insights) (task_body payload event c) w = (e, w')"
  shows "\<exists>h. delivered w' = delivered w @
      (if e = None then [HttpPost (Consumer_GetUrl c) (json_text (enc_anymap (ip_Data payload))) h] else [])"
proof -
  define p where "p = task_input payload event c"
  have "payload_ok payload" using decoded_payload_ok [of request_body] assms(1) by simp
  then have ok: "request_ok p"
    using assms(2) by (simp add: p_def request_ok_def task_input_def payload_ok_def int64_ok_def consumer_ok_def)
  have f: "rp_EventName p = event_Name event" "rp_Consumer p = c" "rp_Data p = ip_Data payload"
    by (simp_all add: p_def task_input_def)
  let ?p = "p\<lparr>rp_Headers := headers_norm (rp_Headers p)\<rparr>"
  have v: "RequestPayload_Validate ?p = None" using assms(3,4) f by (simp add: RequestPayload_Validate_def)
  obtain s w0 where t: "time_now w = (s, w0)" by (cases "time_now w")
  have d0: "delivered w0 = delivered w" using delivered_simps(1) [of w] by (simp add: t)
  obtain e1 w1 where n: "Notify (rp_Data p) (Some (mergeHeaders ?p (c_Headers c))) c kind_LongRunning w0 = (e1, w1)"
    by (metis prod.collapse)
  have b: "task_body payload event c = json_text (RequestPayload_json p)" by (simp add: task_body_def p_def)
  have "(e1 = None) = (e = None)" "delivered w' = delivered w1"
    using assms(6) n v f
    by (auto simp: GetRequestHandle_def b RequestPayload_roundtrip [OF ok] t insert_consumed_quiet [OF assms(5)]
        split: option.splits)
  with fetcher.outcome [OF n] show ?thesis by (auto simp: d0 f)
qed

definition sample_consumer :: Consumer where
  "sample_consumer = \<lparr>c_ServiceName = ''billing'', c_BaseUrl = ''http://a'', c_Path = ''/paid'', c_Headers = None\<rparr>"

definition sample_event :: Event where
  "sample_event = zero_Event\<lparr>event_Name := ''paid'', Consumers := Some [sample_consumer]\<rparr>"

definition sample_payload :: InternalPayload where
  "sample_payload = zero_InternalPayload\<lparr>ip_EventName := ''paid'', ip_Data := Some []\<rparr>"

lemma sample_task:
  "Consumer_GetUrl sample_consumer = ''http://a/paid''"
  "json_text (enc_anymap (ip_Data sample_payload)) = ''{}''"
  "consumer_ok sample_consumer" "event_Name sample_event \<noteq> []" "c_BaseUrl sample_consumer \<noteq> []"
  by (simp_all add: Consumer_GetUrl_def sample_consumer_def trim_suffix_def trim_prefix_def has_suffix_def
      has_prefix_def sample_payload_def enc_anymap_def consumer_ok_def sample_event_def strmap_ok_def)

section \<open>The headers and the metric\<close>

text \<open>The headers of the consumer win over those of the request.\<close>

lemma mergeHeaders_get:
  "strmap_ok headers \<Longrightarrow> go_get (mergeHeaders p headers) k =
     (case go_get (map_of_nil headers) k of
        Some v \<Rightarrow> Some v | None \<Rightarrow> go_get (map_of_nil (rp_Headers p)) k)"
  by (auto simp: mergeHeaders_def go_get_put_all strmap_ok_def map_of_nil_def map_add_def split: option.splits)

text \<open>The metric of a publication says that it was acknowledged whatever happened: the
  handler behaves the same when \<open>ACK\<close> is set to true before the metric is stored, also where it
  answers 404 or 500.\<close>

lemma PublisherEvent_always_ack:
  "PublisherEvent get_event publish insights request_body w =
     PublisherEvent get_event publish (\<lambda>m. insights (m\<lparr>pm_ACK := True\<rparr>)) request_body w"
proof -
  have "insert_published insights = insert_published (\<lambda>m. insights (m\<lparr>pm_ACK := True\<rparr>))"
    by (simp add: fun_eq_iff insert_published_def)
  then show ?thesis unfolding PublisherEvent_def by (simp only:)
qed

end
