(* ===== verification/Archived.thy ===== *)
theory Archived
  imports Taskapp
begin

text \<open>
  The tasks asynq has archived (\<open>internal/app/taskapp\<close>): the JSON text inside a task message
  (\<open>msg_data.go\<close>), the Redis keys asynq keeps the tasks under (\<open>cache_store.go\<close>) and the manager
  that lists them (\<open>archived_task.go\<close>), with the listing as a comprehension. The map of tasks
  by queue is walked in the order its keys were put in; Go walks it in any order.
\<close>

section \<open>The JSON inside a task message (msg_data.go)\<close>

text \<open>The loop of \<open>extractJSON\<close> from the first brace on: the text up to the brace that closes it.\<close>

fun scan_object :: "int \<Rightarrow> bool \<Rightarrow> bool \<Rightarrow> string \<Rightarrow> string option" where
  "scan_object braceCount inString escaped [] = None"
| "scan_object braceCount inString escaped (ch # s) =
     (if \<not> inString then
        (if ch = CHR ''{'' then map_option (Cons ch) (scan_object (braceCount + 1) False escaped s)
         else if ch = CHR ''}'' then
           (if braceCount - 1 = 0 then Some [ch]
            else map_option (Cons ch) (scan_object (braceCount - 1) False escaped s))
         else if ch = CHR 0x22 then map_option (Cons ch) (scan_object braceCount True escaped s)
         else map_option (Cons ch) (scan_object braceCount False escaped s))
      else
        (if escaped then map_option (Cons ch) (scan_object braceCount True False s)
         else if ch = CHR 0x5C then map_option (Cons ch) (scan_object braceCount True True s)
         else if ch = CHR 0x22 then map_option (Cons ch) (scan_object braceCount False False s)
         else map_option (Cons ch) (scan_object braceCount True False s)))"

definition extractJSON :: "string \<Rightarrow> string" where
  "extractJSON s =
     (case dropWhile (\<lambda>r. r \<noteq> CHR ''{'') s of
        [] \<Rightarrow> []
      | c # t \<Rightarrow> (case scan_object 0 False False (c # t) of None \<Rightarrow> [] | Some u \<Rightarrow> u))"

definition unmarshal_raw :: "string \<Rightarrow> json gomap option" where
  "unmarshal_raw raw =
     (case unmarshal into_anymap None (extractJSON raw) of
        (_, Some e) \<Rightarrow> None
      | (msg, None) \<Rightarrow> msg)"

type_synonym RawMsg = string

definition RawMsg_Msg :: "RawMsg \<Rightarrow> json gomap option" where
  "RawMsg_Msg m = unmarshal_raw m"

section \<open>Data (queues_data.go, queue_consumer_data.go, fetch_msg_data.go, errors_data.go)\<close>

type_synonym TaskQueue = string

definition TaskQueue_String :: "TaskQueue \<Rightarrow> string" where
  "TaskQueue_String q = q"

record TaskConsumer =
  tc_Host :: string
  tc_Headers :: "string gomap option"

type_synonym QueueConsumers = "TaskConsumer list gomap"

record TaskArchivedData =
  ta_ID :: string
  ta_Queue :: string
  ta_Consumers :: "TaskConsumer list option"
  ta_Msg :: "json gomap option"
  ta_Tasks :: "string list"

definition ErrorNotFound :: error where
  "ErrorNotFound = ErrNew ''taskapp.ErrorNotFound'' ''not found''"

section \<open>The cache (cache_store.go)\<close>

definition redis_Nil :: error where
  "redis_Nil = ErrNew ''redis.Nil'' ''redis: nil''"

definition ask_text :: "call \<Rightarrow> 'a world_scheme \<Rightarrow> string result \<times> 'a world_scheme" where
  "ask_text c w =
     (case ask c w of (r, w1) \<Rightarrow>
        (case r of Failed e \<Rightarrow> Inl e | GotText t \<Rightarrow> Inr t | _ \<Rightarrow> Inr [], w1))"

definition archivedKey :: string where
  "archivedKey = ''gqueue:consumers:schedule:archived''"

definition zrange_key :: "string \<Rightarrow> string" where
  "zrange_key queue = ''asynq:{'' @ queue @ ''}:archived''"

definition task_key :: "string \<Rightarrow> string \<Rightarrow> string" where
  "task_key queue task = ''asynq:{'' @ queue @ ''}:t:'' @ task"

definition FindAllConsumers :: "(string \<Rightarrow> string option) \<Rightarrow> 'a world_scheme
    \<Rightarrow> Event list option result \<times> 'a world_scheme" where
  "FindAllConsumers parse_uuid w =
     (case ask_text (RedisGet archivedKey) w of
        (Inl e, w1) \<Rightarrow>
          (Inl (if errors_is e redis_Nil then ErrorNotFound
                else ErrWrap ''failed to get consumers'' e), w1)
      | (Inr cResult, w1) \<Rightarrow>
          (case unmarshal (into_slice (into_Event parse_uuid) zero_Event) None cResult of
             (_, Some e) \<Rightarrow> (Inl (ErrWrap ''failed to unmarshal consumers'' e), w1)
           | (results, None) \<Rightarrow> (Inr results, w1)))"

definition FindAllQueues :: "'a world_scheme \<Rightarrow> TaskQueue list result \<times> 'a world_scheme" where
  "FindAllQueues w =
     (case ask_texts (RedisSMembers ''asynq:queues'') w of
        (Inl e, w1) \<Rightarrow>
          (Inl (if errors_is e redis_Nil then ErrorNotFound
                else ErrWrap ''failed to get queues'' e), w1)
      | (Inr qResult, w1) \<Rightarrow> (Inr qResult, w1))"

definition FindArchivedTasks :: "string \<Rightarrow> 'a world_scheme \<Rightarrow> string list result \<times> 'a world_scheme" where
  "FindArchivedTasks queue w =
     (case ask_texts (RedisZRange (zrange_key queue)) w of
        (Inl e, w1) \<Rightarrow> (Inl (ErrWrap ''failed to fetch archived tasks'' e), w1)
      | (Inr result, w1) \<Rightarrow> (Inr result, w1))"

definition RemoveItemsArchivedTasks :: "string \<Rightarrow> string list \<Rightarrow> 'a world_scheme
    \<Rightarrow> error option \<times> 'a world_scheme" where
  "RemoveItemsArchivedTasks queue tasks w =
     (case ask_err (RedisZRem (zrange_key queue) tasks) w of
        (Some e, w1) \<Rightarrow> (Some (ErrWrap (''failed to remove archived tasks from queue '' @ queue) e), w1)
      | (None, w1) \<Rightarrow> (None, w1))"

definition GetMsgArchivedTask :: "string \<Rightarrow> string \<Rightarrow> 'a world_scheme \<Rightarrow> RawMsg result \<times> 'a world_scheme" where
  "GetMsgArchivedTask queue taskName w =
     (case ask_text (RedisHGet (task_key queue taskName) ''msg'') w of
        (Inl e, w1) \<Rightarrow> (Inl (ErrWrap ''failed to fetch DLQ task'' e), w1)
      | (Inr result, w1) \<Rightarrow> (Inr result, w1))"

definition Cache_Remove :: "string \<Rightarrow> 'a world_scheme \<Rightarrow> error option \<times> 'a world_scheme" where
  "Cache_Remove key w =
     (case ask_err (RedisDel key) w of
        (Some e, w1) \<Rightarrow> (Some (ErrWrap (''failed to remove key '' @ key) e), w1)
      | (None, w1) \<Rightarrow> (None, w1))"

definition RemoveMsgArchivedTask :: "string \<Rightarrow> string \<Rightarrow> 'a world_scheme
    \<Rightarrow> error option \<times> 'a world_scheme" where
  "RemoveMsgArchivedTask queue task w =
     (case Cache_Remove (task_key queue task) w of
        (Some e, w1) \<Rightarrow>
          (Some (ErrWrap (''failed to remove archived task '' @ task @ '' from queue '' @ queue) e), w1)
      | (None, w1) \<Rightarrow> (None, w1))"

definition SetArchivedTasks :: "'a world_scheme get_config \<Rightarrow> Event list option \<Rightarrow> 'a world_scheme
    \<Rightarrow> error option run \<times> 'a world_scheme" where
  "SetArchivedTasks conf events w =
     (case Events_json events of
        Inl e \<Rightarrow> (Returns (Some (ErrWrap ''failed to marshal events'' e)), w)
      | Inr j \<Rightarrow>
          (case conf w of
             (Panics p, w1) \<Rightarrow> (Panics p, w1)
           | (Returns c, w1) \<Rightarrow>
               (case ask_err (RedisSet archivedKey (json_text j) (DefaultTTL (config_cache c))) w1 of
                  (Some e, w2) \<Rightarrow> (Returns (Some (ErrWrap ''failed to set archived tasks'' e)), w2)
                | (None, w2) \<Rightarrow> (Returns None, w2))))"

section \<open>The manager (archived_task.go)\<close>

text \<open>The interface \<open>CacheManager\<close>, as far as the manager calls it.\<close>

record 'w CacheManager =
  cm_FindAllQueues :: "'w \<Rightarrow> TaskQueue list result \<times> 'w"
  cm_FindArchivedTasks :: "string \<Rightarrow> 'w \<Rightarrow> string list result \<times> 'w"
  cm_GetMsgArchivedTask :: "string \<Rightarrow> string \<Rightarrow> 'w \<Rightarrow> RawMsg result \<times> 'w"

definition redis_cache :: "'a world_scheme CacheManager" where
  "redis_cache = \<lparr>cm_FindAllQueues = FindAllQueues, cm_FindArchivedTasks = FindArchivedTasks,
     cm_GetMsgArchivedTask = GetMsgArchivedTask\<rparr>"

text \<open>Queues and tasks that cannot be read are logged and skipped.\<close>

fun archived_by_queue :: "'w CacheManager \<Rightarrow> TaskQueue list \<Rightarrow> string list gomap \<Rightarrow> 'w
    \<Rightarrow> string list gomap \<times> 'w" where
  "archived_by_queue cm [] archived w = (archived, w)"
| "archived_by_queue cm (queue # qs) archived w =
     (case cm_FindArchivedTasks cm queue w of
        (Inl e, w1) \<Rightarrow> archived_by_queue cm qs archived w1
      | (Inr result, w1) \<Rightarrow> archived_by_queue cm qs (go_put queue result archived) w1)"

fun read_tasks :: "'w CacheManager \<Rightarrow> TaskConsumer list option \<Rightarrow> string \<Rightarrow> string list \<Rightarrow> string list
    \<Rightarrow> TaskArchivedData list \<Rightarrow> 'w \<Rightarrow> TaskArchivedData list \<times> 'w" where
  "read_tasks cm consumers queue tasks [] out w = (out, w)"
| "read_tasks cm consumers queue tasks (task # ts) out w =
     (case cm_GetMsgArchivedTask cm queue task w of
        (Inl e, w1) \<Rightarrow> read_tasks cm consumers queue tasks ts out w1
      | (Inr result, w1) \<Rightarrow>
          read_tasks cm consumers queue tasks ts
            (out @ [\<lparr>ta_ID = task, ta_Queue = queue, ta_Consumers = consumers,
                     ta_Msg = RawMsg_Msg result, ta_Tasks = tasks\<rparr>]) w1)"

fun read_queues :: "'w CacheManager \<Rightarrow> string list gomap \<Rightarrow> TaskArchivedData list \<Rightarrow> 'w
    \<Rightarrow> TaskArchivedData list \<times> 'w" where
  "read_queues cm [] out w = (out, w)"
| "read_queues cm ((queue, tasks) # qs) out w =
     (case read_tasks cm (Some []) queue tasks tasks out w of (out1, w1) \<Rightarrow> read_queues cm qs out1 w1)"

definition GetMsgsArchived :: "'w CacheManager \<Rightarrow> 'w \<Rightarrow> TaskArchivedData list result \<times> 'w" where
  "GetMsgsArchived cm w =
     (case cm_FindAllQueues cm w of
        (Inl e, w1) \<Rightarrow>
          if errors_is e ErrorNotFound then (Inr [], w1)
          else (Inl (ErrWrap ''failed to get queues'' e), w1)
      | (Inr queues, w1) \<Rightarrow>
          (case archived_by_queue cm queues [] w1 of
             (archived, w2) \<Rightarrow> (case read_queues cm archived [] w2 of (out, w3) \<Rightarrow> (Inr out, w3))))"

definition GetAllMsgsByQueue :: "'w CacheManager \<Rightarrow> string \<Rightarrow> 'w \<Rightarrow> TaskArchivedData list result \<times> 'w" where
  "GetAllMsgsByQueue cm queue w =
     (case cm_FindArchivedTasks cm queue w of
        (Inl e, w1) \<Rightarrow>
          if errors_is e ErrorNotFound then (Inr [], w1)
          else (Inl (ErrWrap ''failed to get archived tasks'' e), w1)
      | (Inr tasksResult, w1) \<Rightarrow>
          (case read_tasks cm None queue tasksResult tasksResult [] w1 of
             (out, w2) \<Rightarrow> (Inr out, w2)))"

section \<open>The object is cut out whole\<close>

text \<open>Text without braces and quotes is passed over, and so is a quoted string.\<close>

definition plain_char :: "char \<Rightarrow> bool" where
  "plain_char c \<longleftrightarrow> c \<notin> {CHR ''{'', CHR ''}'', CHR 0x22}"

abbreviation passes :: "string \<Rightarrow> bool" where
  "passes u \<equiv> (\<forall>n r t. 1 \<le> n \<longrightarrow> scan_object n False False r = Some t \<longrightarrow>
     scan_object n False False (u @ r) = Some (u @ t))"

lemma passes_append: "passes u \<Longrightarrow> passes v \<Longrightarrow> passes (u @ v)"
  by simp

lemma passes_plain: "list_all plain_char u \<Longrightarrow> passes u"
  by (induction u) (auto simp: plain_char_def)

lemma passes_chars: "passes [CHR '','']" "passes [CHR '':'']" "passes [CHR ''['']" "passes [CHR '']'']"
  by (simp_all add: plain_char_def)

lemma hex_char_plain:
  assumes "d < 16"
  shows "hex_char d \<noteq> CHR 0x22 \<and> hex_char d \<noteq> CHR 0x5C"
proof -
  have "of_char (hex_char d) = (if d < 10 then 48 + d else 87 + d)"
    using assms by (simp add: hex_char_def)
  moreover have "of_char (CHR 0x22) = (34 :: nat)" "of_char (CHR 0x5C) = (92 :: nat)" by simp_all
  ultimately show ?thesis using assms by (auto split: if_splits)
qed

lemma scan_esc:
  assumes "scan_object n True False r = Some t"
  shows "scan_object n True False (esc_char c @ r) = Some (esc_char c @ t)"
proof -
  have "of_char c div 16 < (16::nat)" by (rule less_mult_imp_div_less) (simp add: byte_bound)
  then show ?thesis
    using assms hex_char_plain by (auto simp: esc_char_def)
qed

lemma scan_quoted:
  "scan_object n False False r = Some t \<Longrightarrow>
     scan_object n True False (concat (map esc_char s) @ CHR 0x22 # r) =
       Some (concat (map esc_char s) @ CHR 0x22 # t)"
  by (induction s) (simp_all add: scan_esc)

lemma passes_quote: "passes (quote s)"
  by (simp add: quote_def scan_quoted)

lemma passes_join:
  "(\<And>x. x \<in> set xs \<Longrightarrow> passes (f x)) \<Longrightarrow> passes (str_join '','' (map f xs))"
proof (induction xs)
  case (Cons x xs)
  then have x: "passes (f x)" and xs: "passes (str_join '','' (map f xs))" by auto
  show ?case
  proof (cases "xs = []")
    case False
    then have "str_join '','' (map f (x # xs)) = f x @ '','' @ str_join '','' (map f xs)"
      by (simp add: str_join_Cons)
    with passes_append [OF x passes_append [OF passes_chars(1) xs]] show ?thesis by (simp only:)
  qed (use x in simp)
qed simp

text \<open>The members of an object, without the braces.\<close>

definition members_text :: "(string \<times> json) list \<Rightarrow> string" where
  "members_text ms = str_join '','' (map (\<lambda>(k, v). quote k @ '':'' @ json_text v) ms)"

lemma passes_members: "(\<And>k v. (k, v) \<in> set ms \<Longrightarrow> passes (json_text v)) \<Longrightarrow> passes (members_text ms)"
  unfolding members_text_def
proof (rule passes_join)
  fix p assume all: "\<And>k v. (k, v) \<in> set ms \<Longrightarrow> passes (json_text v)" and p: "p \<in> set ms"
  obtain k v where "p = (k, v)" by (cases p)
  with passes_append [OF passes_quote passes_append [OF passes_chars(2) all [of k v]]] p
  show "passes (case p of (k, v) \<Rightarrow> quote k @ '':'' @ json_text v)" by simp
qed

lemma json_text_obj: "json_text (JObj ms) = CHR ''{'' # members_text ms @ ''}''"
  by (simp add: members_text_def)

lemma passes_json: "json_wf j \<Longrightarrow> passes (json_text j)"
proof (induction j)
  case (JNum lit)
  then have "list_all plain_char lit"
    using num_char_not_struct by (fastforce simp: list_all_iff plain_char_def)
  then show ?case using passes_plain by simp
next
  case (JStr s)
  then show ?case using passes_quote by simp
next
  case (JArr xs)
  have "passes (str_join '','' (map json_text xs))"
    using JArr by (intro passes_join) (auto simp: list_all_iff)
  from passes_append [OF passes_chars(3) passes_append [OF this passes_chars(4)]] show ?case by simp
next
  case (JObj ms)
  have m: "passes (members_text ms)"
    using JObj by (intro passes_members) (fastforce simp: list_all_iff)
  show ?case
    unfolding json_text_obj using m by simp
next
  case (JBool b)
  then show ?case using passes_plain [of "json_text (JBool b)"] by (simp add: plain_char_def)
next
  case JNull
  then show ?case using passes_plain [of "json_text JNull"] by (simp add: plain_char_def)
qed

lemma scan_whole_object:
  assumes "json_wf (JObj ms)"
  shows "scan_object 0 False False (json_text (JObj ms) @ rest) = Some (json_text (JObj ms))"
proof -
  have "passes (members_text ms)"
    using assms by (intro passes_members passes_json) (auto simp: list_all_iff)
  then show ?thesis unfolding json_text_obj by simp
qed

lemma message_found:
  assumes "CHR ''{'' \<notin> set before" and "json_wf (JObj ms)" and "any_ok (JObj ms)"
  shows "RawMsg_Msg (before @ json_text (JObj ms) @ after) = Some ms"
proof -
  have "dropWhile (\<lambda>r. r \<noteq> CHR ''{'') (before @ json_text (JObj ms) @ after) = json_text (JObj ms) @ after"
    using assms(1) by (subst dropWhile_append2) (auto simp: json_text_obj simp del: json_text.simps)
  moreover obtain t where "json_text (JObj ms) @ after = CHR ''{'' # t" by (simp add: json_text_obj)
  ultimately have x: "extractJSON (before @ json_text (JObj ms) @ after) = json_text (JObj ms)"
    using scan_whole_object [OF assms(2), of after] by (simp add: extractJSON_def del: json_text.simps scan_object.simps)
  have "into_anymap None (JObj ms) = (Some ms, None)"
    using into_anymap_enc_anymap [of "Some ms"] assms(3) by (simp add: anymap_ok_def enc_anymap_def)
  then show ?thesis
    by (simp add: RawMsg_Msg_def unmarshal_raw_def x unmarshal_text [OF assms(2)] del: json_text.simps)
qed



section \<open>What is listed\<close>

text \<open>Redis while nothing writes to it: a read is answered by what it asks for, whenever it comes.\<close>

definition is_redis_read :: "call \<Rightarrow> bool" where
  "is_redis_read c \<longleftrightarrow> (case c of RedisSMembers k \<Rightarrow> True | RedisZRange k \<Rightarrow> True | RedisHGet k f \<Rightarrow> True | _ \<Rightarrow> False)"

lemma cache_calls:
  "cm_FindAllQueues redis_cache = FindAllQueues" "cm_FindArchivedTasks redis_cache = FindArchivedTasks"
  "cm_GetMsgArchivedTask redis_cache = GetMsgArchivedTask"
  by (simp_all add: redis_cache_def)

definition steady :: "'a world_scheme \<Rightarrow> bool" where
  "steady w \<longleftrightarrow> (\<forall>c h h'. is_redis_read c \<longrightarrow> answer w h c = answer w h' c)"

lemma steady_reads:
  assumes "steady w" and "answer v = answer w"
  shows "fst (FindAllQueues v) = fst (FindAllQueues w)" "answer (snd (FindAllQueues v)) = answer w"
    "fst (FindArchivedTasks q v) = fst (FindArchivedTasks q w)" "answer (snd (FindArchivedTasks q v)) = answer w"
    "fst (GetMsgArchivedTask q t v) = fst (GetMsgArchivedTask q t w)" "answer (snd (GetMsgArchivedTask q t v)) = answer w"
proof -
  have same: "fst (ask c v) = fst (ask c w)" if "is_redis_read c" for c
    using that assms unfolding steady_def ask_def Let_def by (metis fst_conv)
  have texts: "fst (ask_texts c v) = fst (ask_texts c w)" "fst (ask_text c v) = fst (ask_text c w)" if "is_redis_read c" for c
    using same [OF that] by (simp_all add: ask_texts_def ask_text_def case_prod_beta)
  have ans: "answer (snd (ask_texts c v)) = answer w" "answer (snd (ask_text c v)) = answer w" for c
    using assms(2) by (simp_all add: ask_texts_def ask_text_def case_prod_beta)
  show "fst (FindAllQueues v) = fst (FindAllQueues w)" "fst (FindArchivedTasks q v) = fst (FindArchivedTasks q w)"
    "fst (GetMsgArchivedTask q t v) = fst (GetMsgArchivedTask q t w)"
    using texts(1) [of "RedisSMembers ''asynq:queues''"] texts(1) [of "RedisZRange (zrange_key q)"]
      texts(2) [of "RedisHGet (task_key q t) ''msg''"]
    by (auto simp: FindAllQueues_def FindArchivedTasks_def GetMsgArchivedTask_def is_redis_read_def split: prod.splits sum.splits)
  show "answer (snd (FindAllQueues v)) = answer w" "answer (snd (FindArchivedTasks q v)) = answer w"
    "answer (snd (GetMsgArchivedTask q t v)) = answer w"
    using ans(1) [of "RedisSMembers ''asynq:queues''"] ans(1) [of "RedisZRange (zrange_key q)"]
      ans(2) [of "RedisHGet (task_key q t) ''msg''"]
    by (auto simp: FindAllQueues_def FindArchivedTasks_def GetMsgArchivedTask_def split: prod.splits sum.splits)
qed

text \<open>The entry of a task, none when its message cannot be read.\<close>

definition task_entry :: "'a world_scheme \<Rightarrow> TaskConsumer list option \<Rightarrow> TaskQueue \<Rightarrow> string list \<Rightarrow> string
    \<Rightarrow> TaskArchivedData list" where
  "task_entry w consumers queue tasks task =
     (case fst (GetMsgArchivedTask queue task w) of
        Inl e \<Rightarrow> []
      | Inr raw \<Rightarrow> [\<lparr>ta_ID = task, ta_Queue = queue, ta_Consumers = consumers, ta_Msg = RawMsg_Msg raw, ta_Tasks = tasks\<rparr>])"

definition listed_queues :: "'a world_scheme \<Rightarrow> TaskQueue list \<Rightarrow> string list gomap" where
  "listed_queues w qs = concat (map (\<lambda>q. case fst (FindArchivedTasks q w) of Inl e \<Rightarrow> [] | Inr ts \<Rightarrow> [(q, ts)]) qs)"

definition queue_entries :: "'a world_scheme \<Rightarrow> TaskConsumer list option \<Rightarrow> string \<times> string list \<Rightarrow> TaskArchivedData list" where
  "queue_entries w consumers = (\<lambda>(q, ts). concat (map (task_entry w consumers q ts) ts))"

lemma read_tasks_entries:
  assumes "steady w" and "answer v = answer w"
  shows "fst (read_tasks redis_cache consumers q tasks ts out v) = out @ concat (map (task_entry w consumers q tasks) ts) \<and>
    answer (snd (read_tasks redis_cache consumers q tasks ts out v)) = answer w"
  using assms(2)
proof (induction ts arbitrary: out v)
  case (Cons t ts)
  obtain r v1 where g: "GetMsgArchivedTask q t v = (r, v1)" by (metis prod.collapse)
  note reads = steady_reads(5,6) [OF assms(1) Cons.prems, of q t, unfolded g fst_conv snd_conv]
  show ?case
    using Cons.IH [OF reads(2)] g by (cases r) (simp_all add: cache_calls task_entry_def reads(1) [symmetric])
qed simp

lemma read_queues_entries:
  assumes "steady w" and "answer v = answer w"
  shows "fst (read_queues redis_cache qs out v) = out @ concat (map (queue_entries w (Some [])) qs)"
  using assms(2)
proof (induction qs arbitrary: out v)
  case (Cons x qs)
  obtain q ts where x: "x = (q, ts)" by (cases x)
  obtain o1 v1 where g: "read_tasks redis_cache (Some []) q ts ts out v = (o1, v1)" by (metis prod.collapse)
  note r = read_tasks_entries [OF assms(1) Cons.prems, of "Some []" q ts ts out, unfolded g fst_conv snd_conv]
  show ?case using Cons.IH [OF conjunct2 [OF r]] r by (simp add: x g queue_entries_def)
qed simp

lemma archived_by_queue_listed:
  assumes "steady w" and "answer v = answer w" and "distinct qs" and "fst ` set m \<inter> set qs = {}"
  shows "fst (archived_by_queue redis_cache qs m v) = m @ listed_queues w qs \<and>
    answer (snd (archived_by_queue redis_cache qs m v)) = answer w"
  using assms(2,3,4)
proof (induction qs arbitrary: m v)
  case (Cons q qs)
  obtain r v1 where g: "FindArchivedTasks q v = (r, v1)" by (metis prod.collapse)
  note reads = steady_reads(3,4) [OF assms(1) Cons.prems(1), of q, unfolded g fst_conv snd_conv]
  show ?case
  proof (cases r)
    case (Inl e)
    then have "fst (FindArchivedTasks q w) = Inl e" using reads(1) by simp
    with Cons.IH [OF reads(2), of m] Cons.prems g Inl show ?thesis
      by (simp add: cache_calls listed_queues_def)
  next
    case (Inr ts)
    have "q \<notin> fst ` set m" using Cons.prems by auto
    then have "go_put q ts m = m @ [(q, ts)]" by (induction m) (auto simp: go_put_def)
    moreover have "distinct qs" "fst ` set (m @ [(q, ts)]) \<inter> set qs = {}" using Cons.prems by auto
    moreover have "fst (FindArchivedTasks q w) = Inr ts" using reads(1) Inr by simp
    ultimately show ?thesis using Cons.IH [OF reads(2)] g Inr
      by (simp add: cache_calls listed_queues_def)
  qed
qed (simp add: listed_queues_def)


definition sample_archive :: world where
  "sample_archive = \<lparr>history = [], answer = (\<lambda>h c. case c of
       RedisSMembers k \<Rightarrow> GotTexts [''default'']
     | RedisZRange k \<Rightarrow> GotTexts [''1'', ''2'']
     | RedisHGet k f \<Rightarrow> if k = task_key ''default'' ''1'' then GotText (''x'' @ json_text (JObj [(''a'', JStr ''b'')])) else Failed redis_Nil
     | _ \<Rightarrow> Done)\<rparr>"


end
