(* ===== verification/Pubsubapp.thy ===== *)
theory Pubsubapp
  imports Taskapp "HOL-Library.Sublist"
begin

text \<open>
  \<open>internal/app/pubsubapp\<close>: publishing an event over Google Pub/Sub (\<open>publisher_handle_http.go\<close>),
  the consumer that delivers the messages (\<open>consumer_handle.go\<close>) and the one of the dead-letter
  topic (\<open>deadletter_handle.go\<close>). The package repeats the payload types of the task application
  word for word, except that its request has no \<open>Validate\<close>; they are the same types here.
\<close>

section \<open>Payloads (internal_payload_dto.go, publisher_handle_http.go)\<close>

type_synonym pubsub_Metadata = Metadata

type_synonym pubsub_InternalPayload = InternalPayload

type_synonym pubsub_RequestPayload = RequestPayload

definition pubsub_Validate :: "pubsub_InternalPayload \<Rightarrow> error option" where
  "pubsub_Validate p =
     (if ip_EventName p = [] then Some (ErrText ''event name is required'')
      else if ip_Data p = None then Some (ErrText ''data is required'')
      else None)"

definition pubsub_ToBytes :: "json gomap option \<Rightarrow> bytes" where
  "pubsub_ToBytes d = json_text (enc_anymap d)"

definition pubsub_mergeHeaders :: "pubsub_RequestPayload \<Rightarrow> string gomap option \<Rightarrow> string gomap" where
  "pubsub_mergeHeaders p headers =
     (let own = (case rp_Headers p of None \<Rightarrow> [] | Some h \<Rightarrow> h)
      in go_put_all (map_of_nil headers) own)"

lemma pubsub_same [simp]:
  "pubsub_Validate = InternalPayload_Validate" "pubsub_ToBytes = Data_ToBytes"
  "pubsub_mergeHeaders = mergeHeaders"
  by (simp_all add: fun_eq_iff pubsub_Validate_def InternalPayload_Validate_def pubsub_ToBytes_def
      Data_ToBytes_def pubsub_mergeHeaders_def mergeHeaders_def)

section \<open>Publishing an event (publisher_handle_http.go)\<close>

definition message_input :: "pubsub_InternalPayload \<Rightarrow> Event \<Rightarrow> Consumer \<Rightarrow> int \<Rightarrow> pubsub_RequestPayload" where
  "message_input payload event consumer nowMs =
     \<lparr>rp_EventName = event_Name event,
      rp_Consumer = \<lparr>c_ServiceName = c_ServiceName consumer, c_BaseUrl = c_BaseUrl consumer,
                     c_Path = c_Path consumer, c_Headers = c_Headers consumer\<rparr>,
      rp_Data = ip_Data payload, rp_Headers = md_Headers (ip_Metadata payload), rp_PublishedAt = nowMs\<rparr>"

definition message_opts :: "Event \<Rightarrow> Opts" where
  "message_opts event =
     \<lparr>Attributes = Some [(''topic'', request_topic), (''max_retries'', ''1'')],
      AsynqOpts = ToAsynqOptions (Option event), WqType = []\<rparr>"

fun publish_messages :: "'a world_scheme generic_publisher \<Rightarrow> pubsub_InternalPayload \<Rightarrow> Event \<Rightarrow> Consumer list
    \<Rightarrow> response \<Rightarrow> 'a world_scheme \<Rightarrow> response \<times> 'a world_scheme" where
  "publish_messages publish payload event [] resp w = (write_header 201 resp, w)"
| "publish_messages publish payload event (consumer # cs) resp w =
     (let (now, w1) = time_now w;
          input = message_input payload event consumer (milliseconds now)
      in case publish request_topic (Inr (RequestPayload_json input)) (message_opts event) w1 of
           (Some e, w2) \<Rightarrow> (http_error ''failed to publish event'' 500 resp, w2)
         | (None, w2) \<Rightarrow> publish_messages publish payload event cs resp w2)"

text \<open>The type of the event only decides whether a warning is logged.\<close>

definition pubsub_PublisherEvent :: "'a world_scheme get_event \<Rightarrow> 'a world_scheme generic_publisher
    \<Rightarrow> 'a world_scheme publisher_insights \<Rightarrow> bytes \<Rightarrow> 'a world_scheme \<Rightarrow> response \<times> 'a world_scheme" where
  "pubsub_PublisherEvent get_event publish insights request_body w =
     (let (started, w0) = time_now w;
          resp = new_response
      in case decode into_InternalPayload zero_InternalPayload request_body of
           (_, Some e) \<Rightarrow> (http_error (error_msg e) 400 resp, w0)
         | (payload, None) \<Rightarrow>
             (case pubsub_Validate payload of
                Some e \<Rightarrow> (http_error (error_msg e) 400 resp, w0)
              | None \<Rightarrow>
                  (let (resp1, w2) =
                     (case get_event (ip_EventName payload) w0 of
                        (Inl e, w1) \<Rightarrow>
                          if errors_is e EventNotFound
                          then (http_error ''event not found'' 404 resp, w1)
                          else (http_error ''failed to get event'' 500 resp, w1)
                      | (Inr event, w1) \<Rightarrow>
                          publish_messages publish payload event (consumers_of event) resp w1)
                   in (resp1, insert_published insights payload started True w2))))"

section \<open>Delivering a message (consumer_handle.go)\<close>

text \<open>\<open>Time.Sub\<close> stays in the range of a duration.\<close>

definition time_sub :: "int \<Rightarrow> int \<Rightarrow> int" where
  "time_sub a b = max (- (2 ^ 63)) (min (2 ^ 63 - 1) (a - b))"

definition pubsub_recordDuration :: "int \<Rightarrow> pubsub_RequestPayload \<Rightarrow> error option \<Rightarrow> 'a world_scheme
    \<Rightarrow> 'a world_scheme" where
  "pubsub_recordDuration started payload err w =
     (let (now, w1) = time_now w
      in Metric_Record PubSubConsumerDuration (now - started) (consumer_attrs PUBSUB_APP_NAME payload err) w1)"

definition pubsub_GetRequestHandle :: "'a world_scheme notifier \<Rightarrow> 'a world_scheme consumer_insights
    \<Rightarrow> 'a world_scheme Handle" where
  "pubsub_GetRequestHandle notify insights =
     \<lparr>EventName = EventQueueRequestToExternal,
      Handler = (\<lambda>b w.
        let (started, w0) = time_now w
        in case AsyncCtx_Payload into_RequestPayload zero_RequestPayload b of
             Inl e \<Rightarrow> (Some (ErrWrap ''get payload'' e), w0)
           | Inr payload \<Rightarrow>
               (let headers = pubsub_mergeHeaders payload (c_Headers (rp_Consumer payload))
                in case notify (rp_Data payload) (Some headers) (rp_Consumer payload)
                          kind_HighThroughput w0 of
                     (Some e, w1) \<Rightarrow>
                       (Some (ErrWrap ''fetch consumer'' e),
                        pubsub_recordDuration started payload (Some e)
                          (insert_consumed insights payload started False w1))
                   | (None, w1) \<Rightarrow>
                       (let lag = time_sub started (rp_PublishedAt payload * 1000000);
                            w2 = Metric_Record PubSubConsumerLagSeconds lag
                              [(''topic'', AStr request_topic),
                               (''consumer.service_name'', AStr (c_ServiceName (rp_Consumer payload)))] w1
                        in (None,
                            pubsub_recordDuration started payload None
                              (insert_consumed insights payload started True w2)))))\<rparr>"

section \<open>The dead-letter topic (deadletter_handle.go)\<close>

text \<open>Reading a \<open>pubsub.Message\<close>: bytes are a string in base64 or an array of numbers. An error
  in the base64 text is kept like a type error, the decoding goes on.\<close>

definition into_byte :: "char decoder" where
  "into_byte old j =
     (case j of
        JNum lit \<Rightarrow> (case parse_uint 8 lit of Some n \<Rightarrow> (char_of n, None) | None \<Rightarrow> (old, Some type_error))
      | JNull \<Rightarrow> (old, None)
      | _ \<Rightarrow> (old, Some type_error))"

definition into_bytes :: "bytes option decoder" where
  "into_bytes old j =
     (case j of
        JStr s \<Rightarrow> (case b64_decode s of Some bs \<Rightarrow> (Some bs, None) | None \<Rightarrow> (old, Some type_error))
      | _ \<Rightarrow> into_slice into_byte (CHR 0x00) old j)"

definition into_int_ptr :: "int option decoder" where
  "into_int_ptr old j =
     (if j = JNull then (None, None)
      else let (i, e) = into_int64 (case old of None \<Rightarrow> 0 | Some i \<Rightarrow> i) j in (Some i, e))"

definition zero_Message :: Message where
  "zero_Message = \<lparr>msg_ID = [], msg_Data = None, msg_Attributes = None, msg_PublishTime = zero_Time,
     msg_DeliveryAttempt = None, msg_OrderingKey = []\<rparr>"

definition Message_field :: "Message \<Rightarrow> string \<Rightarrow> json \<Rightarrow> Message \<times> error option" where
  "Message_field m k j =
     (if fold_eq k ''ID''
      then (let (v, e) = into_string (msg_ID m) j in (m\<lparr>msg_ID := v\<rparr>, e))
      else if fold_eq k ''Data''
      then (let (v, e) = into_bytes (msg_Data m) j in (m\<lparr>msg_Data := v\<rparr>, e))
      else if fold_eq k ''Attributes''
      then (let (v, e) = into_strmap (msg_Attributes m) j in (m\<lparr>msg_Attributes := v\<rparr>, e))
      else if fold_eq k ''PublishTime''
      then (let (v, e) = Time_UnmarshalJSON (msg_PublishTime m) j in (m\<lparr>msg_PublishTime := v\<rparr>, e))
      else if fold_eq k ''DeliveryAttempt''
      then (let (v, e) = into_int_ptr (msg_DeliveryAttempt m) j in (m\<lparr>msg_DeliveryAttempt := v\<rparr>, e))
      else if fold_eq k ''OrderingKey''
      then (let (v, e) = into_string (msg_OrderingKey m) j in (m\<lparr>msg_OrderingKey := v\<rparr>, e))
      else (m, None))"

definition into_Message :: "Message decoder" where
  "into_Message = into_struct Message_field"

text \<open>The data of the notification, keys in the order they are written; a time that was read can
  always be written.\<close>

definition dead_letter_data :: "Event \<Rightarrow> Message \<Rightarrow> json \<Rightarrow> json gomap" where
  "dead_letter_data event p at =
     [(''data'', enc_bytes (msg_Data p)), (''event'', JStr (event_Name event)), (''event_at'', at),
      (''id'', JStr (msg_ID p)), (''metadata'', enc_strmap (msg_Attributes p))]"

text \<open>The loops over the events and their consumers; the answer of \<open>Notify\<close> is not looked at.\<close>

definition notify_dead_letter :: "'w notifier \<Rightarrow> Message \<Rightarrow> Event \<Rightarrow> Consumer \<Rightarrow> 'w \<Rightarrow> 'w" where
  "notify_dead_letter notify p event consumer w =
     (case Time_MarshalJSON (msg_PublishTime p) of
        Inl e \<Rightarrow> w
      | Inr at \<Rightarrow>
          snd (notify (Some (dead_letter_data event p at)) (c_Headers consumer)
                 \<lparr>c_ServiceName = c_ServiceName consumer, c_BaseUrl = c_BaseUrl consumer,
                  c_Path = c_Path consumer, c_Headers = c_Headers consumer\<rparr> kind_HighThroughput w))"

definition notify_all :: "'w notifier \<Rightarrow> Message \<Rightarrow> Event list \<Rightarrow> 'w \<Rightarrow> 'w" where
  "notify_all notify p events w =
     fold (\<lambda>event. fold (notify_dead_letter notify p event) (consumers_of event)) events w"

type_synonym 'w get_schedulers = "string \<Rightarrow> 'w \<Rightarrow> events_result \<times> 'w"

definition NewDeadLatterQueue :: "'w get_schedulers \<Rightarrow> 'w notifier \<Rightarrow> 'w Handle" where
  "NewDeadLatterQueue get_schedulers notify =
     \<lparr>EventName = EventQueueDeadLetter,
      Handler = (\<lambda>b w.
        case AsyncCtx_Payload into_Message zero_Message b of
          Inl e \<Rightarrow> (Some (ErrWrap ''failed to get payload'' e), w)
        | Inr p \<Rightarrow>
            (case get_schedulers ''archived'' w of
               ((_, Some e), w1) \<Rightarrow>
                 if errors_is e EventNotFound then (None, w1)
                 else (Some (ErrWrap ''failed to get all schedulers'' e), w1)
             | ((events, None), w1) \<Rightarrow>
                 (None, notify_all notify p (case events of None \<Rightarrow> [] | Some es \<Rightarrow> es) w1)))\<rparr>"

section \<open>What the publisher's handler does\<close>

text \<open>A publisher whose messages the clock does not touch.\<close>

locale timed_publisher = publisher publish sent message
  for publish :: "'a world_scheme generic_publisher" and sent :: "'a world_scheme \<Rightarrow> call list"
    and message :: "string \<Rightarrow> bytes \<Rightarrow> Opts \<Rightarrow> call" +
  assumes clock: "sent (snd (time_now w)) = sent w"
begin

lemma publish_messages_sent:
  assumes "publish_messages publish payload event cs resp w = (resp', w')" and "committed resp = None"
  shows "\<exists>ts. length ts \<le> length cs \<and> sent w' = sent w @
        map (\<lambda>(c, t). message request_topic
               (json_text (RequestPayload_json (message_input payload event c t))) (message_opts event)) (zip cs ts) \<and>
      status_of resp' = (if length ts = length cs then 201 else 500)"
  using assms(1)
proof (induction cs arbitrary: w)
  case Nil
  with assms(2) show ?case by auto
next
  case (Cons c cs)
  obtain now w1 where t: "time_now w = (now, w1)" by (cases "time_now w")
  let ?j = "RequestPayload_json (message_input payload event c (milliseconds now))"
  obtain e w2 where pub: "publish request_topic (Inr ?j) (message_opts event) w1 = (e, w2)"
    by (metis prod.collapse)
  have w1: "sent w1 = sent w" using clock [of w] by (simp add: t)
  show ?case
  proof (cases e)
    case (Some err)
    with Cons.prems pub t w1 refuse [of _ _ _ w1 err w2] have "sent w' = sent w" "status_of resp' = 500"
      using assms(2) by auto
    then show ?thesis by (intro exI [of _ "[]"]) simp
  next
    case None
    then have s: "sent w2 = sent w @ [message request_topic (json_text ?j) (message_opts event)]"
      using pub accept [of _ _ _ w1 w2] w1 by fastforce
    from Cons.prems pub None t have "publish_messages publish payload event cs resp w2 = (resp', w')" by simp
    from Cons.IH [OF this] obtain ts where "length ts \<le> length cs" "sent w' = sent w2 @
        map (\<lambda>(c, t). message request_topic
               (json_text (RequestPayload_json (message_input payload event c t))) (message_opts event)) (zip cs ts)"
      "status_of resp' = (if length ts = length cs then 201 else 500)" by blast
    with s show ?thesis by (intro exI [of _ "milliseconds now # ts"]) simp
  qed
qed

end

interpretation gpubsub_clock: timed_publisher PubSubGoogle_Publish published pubsub_message
  by unfold_locales simp

interpretation asynq_clock: timed_publisher Task_Publish published asynq_message
  by unfold_locales simp

definition message_call :: "InternalPayload \<Rightarrow> Event \<Rightarrow> Consumer \<Rightarrow> int \<Rightarrow> call" where
  "message_call payload event c t =
     PubSubPublish request_topic (json_text (RequestPayload_json (message_input payload event c t)))
       [(''topic'', request_topic), (''max_retries'', ''1'')]"

lemma pubsub_message_call:
  "pubsub_message request_topic (json_text (RequestPayload_json (message_input payload event c t))) (message_opts event)
     = message_call payload event c t"
  by (simp add: pubsub_message_def message_opts_def message_attributes_def message_call_def)

lemma pubsub_PublisherEvent_cases:
  assumes "quiet published get_event" and "quiet published insights"
    and run: "pubsub_PublisherEvent get_event PubSubGoogle_Publish insights request_body w = (resp, w')"
  shows "case decode into_InternalPayload zero_InternalPayload request_body of
      (_, Some e) \<Rightarrow> status_of resp = 400 \<and> published w' = published w
    | (payload, None) \<Rightarrow>
        if InternalPayload_Validate payload \<noteq> None then status_of resp = 400 \<and> published w' = published w
        else (case fst (get_event (ip_EventName payload) (snd (time_now w))) of
            Inl e \<Rightarrow> status_of resp = (if errors_is e EventNotFound then 404 else 500) \<and> published w' = published w
          | Inr event \<Rightarrow> \<exists>ts. length ts \<le> length (consumers_of event) \<and>
              published w' = published w @
                map (\<lambda>(c, t). message_call payload event c t) (zip (consumers_of event) ts) \<and>
              status_of resp = (if length ts = length (consumers_of event) then 201 else 500))"
proof -
  obtain started w0 where t: "time_now w = (started, w0)" by (cases "time_now w")
  have p0: "published w0 = published w" using published_now [of w] by (simp add: t)
  obtain payload e where d: "decode into_InternalPayload zero_InternalPayload request_body = (payload, e)"
    by (cases "decode into_InternalPayload zero_InternalPayload request_body")
  show ?thesis
  proof (cases "e = None \<and> InternalPayload_Validate payload = None")
    case False
    with run p0 show ?thesis
      by (auto simp: pubsub_PublisherEvent_def t d split: option.splits)
  next
    case True
    obtain g w1 where g: "get_event (ip_EventName payload) w0 = (g, w1)"
      by (cases "get_event (ip_EventName payload) w0")
    have p1: "published w1 = published w" using assms(1) p0 g by (metis quiet_def snd_conv)
    note ins = insert_published_quiet [OF assms(2)]
    show ?thesis
    proof (cases g)
      case (Inl err)
      with run True p1 show ?thesis by (auto simp: pubsub_PublisherEvent_def t d g ins)
    next
      case (Inr event)
      obtain resp2 w2 where pt: "publish_messages PubSubGoogle_Publish payload event (consumers_of event) new_response w1 = (resp2, w2)"
        by (metis prod.collapse)
      have "resp = resp2" "published w' = published w2"
        using run True by (auto simp: pubsub_PublisherEvent_def t d g Inr pt ins)
      with gpubsub_clock.publish_messages_sent [OF pt] p1 True show ?thesis
        by (simp add: t d g Inr pubsub_message_call)
    qed
  qed
qed

text \<open>Claim C28: the answer of \<open>POST /api/v1/pubsub\<close> tells what was published, as for the task
  queue: 400, 404 and 500 before any message; otherwise one message per consumer in their order,
  each with the time it was published at, its topic and \<open>max_retries=1\<close> whatever the event asks
  for, and 201 exactly when all of them were accepted, else 500 with the first ones published.\<close>

theorem pubsub_PublisherEvent_outcome:
  assumes "quiet published get_event" and "quiet published insights"
    and run: "pubsub_PublisherEvent get_event PubSubGoogle_Publish insights request_body w = (resp, w')"
  shows "case decode into_InternalPayload zero_InternalPayload request_body of
      (_, Some e) \<Rightarrow> status_of resp = 400 \<and> published w' = published w
    | (payload, None) \<Rightarrow>
        if InternalPayload_Validate payload \<noteq> None then status_of resp = 400 \<and> published w' = published w
        else (case fst (get_event (ip_EventName payload) (snd (time_now w))) of
            Inl e \<Rightarrow> status_of resp = (if errors_is e EventNotFound then 404 else 500) \<and> published w' = published w
          | Inr event \<Rightarrow> \<exists>ts. length ts \<le> length (consumers_of event) \<and>
              published w' = published w @
                map (\<lambda>(c, t). message_call payload event c t) (zip (consumers_of event) ts) \<and>
              status_of resp = (if length ts = length (consumers_of event) then 201 else 500))"
  by (rule pubsub_PublisherEvent_cases [OF assms])

theorem pubsub_PublisherEvent_outcome_witness:
  "status_of (fst (pubsub_PublisherEvent empty_store PubSubGoogle_Publish no_insights sample_request calm_world)) = 404"
proof -
  obtain resp w' where run: "pubsub_PublisherEvent empty_store PubSubGoogle_Publish no_insights sample_request calm_world = (resp, w')"
    by (metis prod.collapse)
  from pubsub_PublisherEvent_outcome [OF quiet_samples run] show ?thesis
    by (simp add: run sample_request_decoded InternalPayload_Validate_def empty_store_def)
qed

section \<open>Messages read back\<close>

lemma Message_fields [json_simps]:
  "Message_field m ''ID'' (JStr s) = (m\<lparr>msg_ID := s\<rparr>, None)"
  "Message_field m ''Data'' j = (let (v, e) = into_bytes (msg_Data m) j in (m\<lparr>msg_Data := v\<rparr>, e))"
  "Message_field m ''Attributes'' j = (let (v, e) = into_strmap (msg_Attributes m) j in (m\<lparr>msg_Attributes := v\<rparr>, e))"
  "Message_field m ''PublishTime'' j = (let (v, e) = Time_UnmarshalJSON (msg_PublishTime m) j in (m\<lparr>msg_PublishTime := v\<rparr>, e))"
  "Message_field m ''DeliveryAttempt'' j = (let (v, e) = into_int_ptr (msg_DeliveryAttempt m) j in (m\<lparr>msg_DeliveryAttempt := v\<rparr>, e))"
  "Message_field m ''OrderingKey'' (JStr s) = (m\<lparr>msg_OrderingKey := s\<rparr>, None)"
  by (simp_all add: Message_field_def fold_eq_def lower_char_def)

lemma into_bytes_enc [simp, json_simps]: "into_bytes None (enc_bytes b) = (b, None)"
  by (cases b) (simp_all add: into_bytes_def enc_bytes_def into_slice_def)

definition message_ok :: "Message \<Rightarrow> bool" where
  "message_ok m \<longleftrightarrow> strmap_ok (msg_Attributes m) \<and>
     (case msg_DeliveryAttempt m of None \<Rightarrow> True | Some i \<Rightarrow> int64_ok i)"

lemma json_wf_Message: "Message_json m = Inr j \<Longrightarrow> json_wf j"
  by (auto simp: Message_json_def enc_bytes_def json_wf_time split: sum.splits option.splits)

lemma enc_int_not_null: "enc_int i \<noteq> JNull"
  by (simp add: enc_int_def)

lemma Time_MarshalJSON_not_null: "Time_MarshalJSON t = Inr j \<Longrightarrow> j \<noteq> JNull"
  by (auto simp: Time_MarshalJSON_def split: if_splits)

lemma Message_roundtrip:
  assumes "message_ok m" and "Message_json m = Inr j"
  shows "AsyncCtx_Payload into_Message zero_Message (json_text j) = Inr m"
proof -
  obtain t where t: "Time_MarshalJSON (msg_PublishTime m) = Inr t"
    using assms(2) by (auto simp: Message_json_def split: sum.splits)
  have "into_int_ptr None (case msg_DeliveryAttempt m of None \<Rightarrow> JNull | Some i \<Rightarrow> enc_int i) = (msg_DeliveryAttempt m, None)"
    using assms(1) by (cases "msg_DeliveryAttempt m") (simp_all add: into_int_ptr_def enc_int_not_null message_ok_def int64_ok_def)
  then have "into_Message zero_Message j = (m, None)"
    using assms t Time_json
    by (auto simp: Message_json_def into_Message_def into_struct_def Message_fields zero_Message_def message_ok_def)
  with json_wf_Message [OF assms(2)] show ?thesis by (simp add: AsyncCtx_Payload_def unmarshal_text)
qed

section \<open>A message that is retried\<close>

lemma char_of_d: "char_of (100 :: nat) = CHR ''d''"
  by (subst of_char_eq_iff [where 'a = nat, symmetric]) simp

lemma RequestPayload_other_fields [json_simps]:
  "RequestPayload_field p ''ID'' j = (p, None)" "RequestPayload_field p ''Attributes'' j = (p, None)"
  "RequestPayload_field p ''PublishTime'' j = (p, None)" "RequestPayload_field p ''DeliveryAttempt'' j = (p, None)"
  "RequestPayload_field p ''OrderingKey'' j = (p, None)"
  "RequestPayload_field p ''Data'' (JStr s) = (p, Some type_error)"
  by (simp_all add: RequestPayload_field_def fold_eq_def lower_char_def char_of_d into_anymap_def into_map_def)

text \<open>The retry publishes the message itself, with its bytes in base64 where a request has an object.\<close>

lemma envelope_undecodable:
  assumes "Message_json m = Inr j" and "msg_Data m \<noteq> None"
  shows "AsyncCtx_Payload into_RequestPayload zero_RequestPayload (json_text j) =
    Inl (ErrWrap ''unmarshal payload'' type_error)"
proof -
  obtain t bs where "Time_MarshalJSON (msg_PublishTime m) = Inr t" "msg_Data m = Some bs"
    using assms by (auto simp: Message_json_def split: sum.splits)
  with assms(1) have "into_RequestPayload zero_RequestPayload j = (zero_RequestPayload, Some type_error)"
    by (auto simp: Message_json_def into_RequestPayload_def into_struct_def RequestPayload_other_fields
        enc_bytes_def join_err_def)
  with json_wf_Message [OF assms(1)] show ?thesis by (simp add: AsyncCtx_Payload_def unmarshal_text)
qed

text \<open>Claim C27: a retry over Pub/Sub is never delivered. What a failed delivery publishes again
  to its topic is the whole message, not its data: whatever the consumer and the insights do, the
  handler of that topic cannot read it, notifies nobody, and fails with a type error.\<close>

theorem retry_never_delivers:
  assumes "silent h" and "ToGPubSubHandler h PubSubGoogle_Publish m w = ((acks, Returns ()), w')"
    and "published w' = published w @ [PubSubPublish topic data attrs]" and "topic \<noteq> dead_letter_topic"
    and "msg_Data m \<noteq> None"
  shows "Handler (pubsub_GetRequestHandle notify insights) data w2 =
    (Some (ErrWrap ''get payload'' (ErrWrap ''unmarshal payload'' type_error)), snd (time_now w2))"
proof -
  obtain e w1 where o: "Handler h (case msg_Data m of None \<Rightarrow> [] | Some b \<Rightarrow> b) w = (e, w1)"
    by (metis prod.collapse)
  from handler_cases [OF assms(1,2) o] assms(3) obtain err acks1 where
    r: "retryable PubSubGoogle_Publish (put_attribute ''msg'' (error_msg err) m) w1 = ((acks1, Returns ()), w')"
    and p: "published w1 = published w"
    by (cases e) auto
  from r obtain k j where j: "Message_json (put_attribute ''retry_count'' k (put_attribute ''msg'' (error_msg err) m)) = Inr j"
    and "data = json_text j"
    by (cases rule: retryable_cases) (use p assms(3,4) in \<open>auto simp: pubsub_message_def\<close>)
  with envelope_undecodable [OF j] assms(5) show ?thesis
    by (simp add: pubsub_GetRequestHandle_def case_prod_beta Let_def)
qed

theorem retry_never_delivers_witness:
  "\<exists>b. fst (Handler (pubsub_GetRequestHandle Notify no_insights) b calm_world) =
     Some (ErrWrap ''get payload'' (ErrWrap ''unmarshal payload'' type_error))"
proof -
  obtain acks b and w' :: world where run: "ToGPubSubHandler failing_handle PubSubGoogle_Publish sample_message calm_world
      = ((acks, Returns ()), w')"
    and p: "published w' = [PubSubPublish ''t'' b (go_put ''retry_count'' (itoa 1) (go_put ''msg'' ''no'' sample_attributes))]"
    using sample_run by blast
  have "published w' = published calm_world @
      [PubSubPublish ''t'' b (go_put ''retry_count'' (itoa 1) (go_put ''msg'' ''no'' sample_attributes))]"
    using p by simp
  moreover have "msg_Data sample_message \<noteq> None" by (simp add: sample_message_def)
  ultimately have "Handler (pubsub_GetRequestHandle Notify no_insights) b calm_world =
      (Some (ErrWrap ''get payload'' (ErrWrap ''unmarshal payload'' type_error)), snd (time_now calm_world))"
    using retry_never_delivers [OF silent_failing run _ sample_topic] by blast
  then show ?thesis by (intro exI [of _ b]) simp
qed

section \<open>The dead-letter queue\<close>

lemma dead_letter_acked:
  assumes "message_ok m" and "Message_json m = Inr j" and "msg_Data letter = Some (json_text j)"
  shows "ToGPubSubHandler (NewDeadLatterQueue MemStore_GetAllSchedulers notify) pub letter w =
    (([Ack, Nack], Returns ()), w)"
  using assms(3) Message_roundtrip [OF assms(1,2)]
  by (simp add: ToGPubSubHandler_def NewDeadLatterQueue_def MemStore_GetAllSchedulers_def)

text \<open>Claim C29: with the memory store, which the service passes to it, the dead-letter consumer
  reads every dead letter, notifies nobody, changes nothing and acknowledges the message.\<close>

theorem dead_letter_dropped:
  assumes "message_ok m" and "Message_json m = Inr j" and "msg_Data letter = Some (json_text j)"
  shows "ToGPubSubHandler (NewDeadLatterQueue MemStore_GetAllSchedulers notify) pub letter w =
    (([Ack, Nack], Returns ()), w)"
  by (rule dead_letter_acked [OF assms])

theorem dead_letter_dropped_witness:
  "\<exists>letter. msg_Data letter \<noteq> None \<and>
     settled (fst (fst (ToGPubSubHandler (NewDeadLatterQueue MemStore_GetAllSchedulers Notify)
       PubSubGoogle_Publish letter (calm_store [])))) = Ack"
proof -
  obtain j where j: "Message_json sample_message = Inr j"
    using sample_publishable [of "Some sample_attributes"] by (auto simp: sample_message_def)
  have ok: "message_ok sample_message"
    by (simp add: message_ok_def sample_message_def strmap_ok_def sample_attributes_def gomap_ok_def)
  from dead_letter_dropped [OF ok j, of "zero_Message\<lparr>msg_Data := Some (json_text j)\<rparr>" Notify
      PubSubGoogle_Publish "calm_store []"]
  show ?thesis by (intro exI [of _ "zero_Message\<lparr>msg_Data := Some (json_text j)\<rparr>"]) (simp add: settled_def)
qed

fun post_of :: "call \<Rightarrow> string \<times> bytes" where
  "post_of (HttpPost url b h) = (url, b)"
| "post_of _ = ([], [])"

definition letter_post :: "Message \<Rightarrow> json \<Rightarrow> Event \<times> Consumer \<Rightarrow> string \<times> bytes" where
  "letter_post p at = (\<lambda>(e, c). (Consumer_GetUrl c, json_text (enc_anymap (Some (dead_letter_data e p at)))))"

context notifier
begin

abbreviation posts_of :: "'w \<Rightarrow> (string \<times> bytes) list" where
  "posts_of w \<equiv> map post_of (sent w)"

lemma letter_sent:
  assumes "Time_MarshalJSON (msg_PublishTime p) = Inr at"
  shows "\<exists>ps. subseq ps [(e, c)] \<and>
    posts_of (notify_dead_letter notify p e c w) = posts_of w @ map (letter_post p at) ps"
proof -
  let ?c = "\<lparr>c_ServiceName = c_ServiceName c, c_BaseUrl = c_BaseUrl c, c_Path = c_Path c, c_Headers = c_Headers c\<rparr>"
  obtain err w1 where n: "notify (Some (dead_letter_data e p at)) (c_Headers c) ?c kind_HighThroughput w = (err, w1)"
    by (metis prod.collapse)
  have w1: "notify_dead_letter notify p e c w = w1" by (simp add: notify_dead_letter_def assms n)
  show ?thesis
  proof (cases err)
    case None
    with outcome [OF n] show ?thesis
      by (intro exI [of _ "[(e, c)]"]) (auto simp: w1 letter_post_def Consumer_GetUrl_def)
  next
    case (Some x)
    with outcome [OF n] show ?thesis by (intro exI [of _ "[]"]) (simp add: w1)
  qed
qed

lemma fold_sent:
  assumes "\<And>x w. \<exists>ps. subseq ps (f x) \<and> posts_of (step x w) = posts_of w @ map g ps"
  shows "\<exists>ps. subseq ps (concat (map f xs)) \<and> posts_of (fold step xs w) = posts_of w @ map g ps"
proof (induction xs arbitrary: w)
  case (Cons x xs)
  obtain ps where ps: "subseq ps (f x)" "posts_of (step x w) = posts_of w @ map g ps"
    using assms by blast
  obtain qs where qs: "subseq qs (concat (map f xs))"
    "posts_of (fold step xs (step x w)) = posts_of (step x w) @ map g qs"
    using Cons.IH by blast
  have "subseq (ps @ qs) (concat (map f (x # xs)))" using list_emb_append_mono [OF ps(1) qs(1)] by simp
  with ps(2) qs(2) show ?case by (intro exI [of _ "ps @ qs"]) simp
qed simp

lemma letters_sent:
  assumes "Time_MarshalJSON (msg_PublishTime p) = Inr at"
  shows "\<exists>ps. subseq ps (concat (map (\<lambda>e. map (Pair e) (consumers_of e)) events)) \<and>
    posts_of (notify_all notify p events w) = posts_of w @ map (letter_post p at) ps"
  unfolding notify_all_def
proof (rule fold_sent)
  fix e w
  have "\<exists>ps. subseq ps (concat (map (\<lambda>c. [(e, c)]) (consumers_of e))) \<and>
      posts_of (fold (notify_dead_letter notify p e) (consumers_of e) w) = posts_of w @ map (letter_post p at) ps"
    by (rule fold_sent) (rule letter_sent [OF assms])
  then show "\<exists>ps. subseq ps (map (Pair e) (consumers_of e)) \<and>
      posts_of (fold (notify_dead_letter notify p e) (consumers_of e) w) = posts_of w @ map (letter_post p at) ps"
    by (simp add: concat_map_singleton)
qed

end

text \<open>With a store that returns the archived events, the dead-letter consumer offers
  the dead letter to every consumer of every event, in their order: those that accept it, a
  subsequence, have got its identifier, data, attributes and time with the name of the event; the
  handler succeeds whatever they answer.\<close>

lemma dead_letter_notifies:
  assumes "message_ok m" and "Message_json m = Inr j"
    and "get_schedulers ''archived'' w = ((Some events, None), w1)" and "delivered w1 = delivered w"
  shows "\<exists>at ps w'. Handler (NewDeadLatterQueue get_schedulers Notify) (json_text j) w = (None, w') \<and>
    Time_MarshalJSON (msg_PublishTime m) = Inr at \<and>
    subseq ps (concat (map (\<lambda>e. map (Pair e) (consumers_of e)) events)) \<and>
    map post_of (delivered w') = map post_of (delivered w) @ map (letter_post m at) ps"
proof -
  obtain at where at: "Time_MarshalJSON (msg_PublishTime m) = Inr at"
    using assms(2) by (auto simp: Message_json_def split: sum.splits)
  from fetcher.letters_sent [OF at, of events w1] assms(3,4) Message_roundtrip [OF assms(1,2)] at
  show ?thesis by (auto simp: NewDeadLatterQueue_def)
qed


end
