(* ===== verification/Queryparser.thy ===== *)
theory Queryparser
  imports Json Domain
begin

text \<open>
  \<open>pkg/queryparser\<close>: URL query parameters put into the fields of a struct by reflection, with
  defaults for the fields left zero. A struct is the list of its fields, each with its tag, kind and
  value; what is set before an error stays set. Floating-point numbers are an abstract type: reading
  one of a given width and making one of an integer are arguments. Element types with names of their
  own, where \<open>reflect.Append\<close> panics, are left out: no target of the program has one.
\<close>

section \<open>Reflection\<close>

datatype kind = KString | KInt nat | KUint nat | KFloat nat | KBool | KSlice kind | KOther string

datatype 'f reflect_value =
    VString string
  | VInt int
  | VUint nat
  | VFloat 'f
  | VBool bool
  | VSlice "'f reflect_value list option"
  | VOther

record 'f field =
  field_Name :: string
  field_Tag :: string
  can_set :: bool
  field_Kind :: kind
  field_Value :: "'f reflect_value"

datatype 'f target = NotStructPointer | StructPointer "'f field list"

type_synonym url_values = "string list gomap"

type_synonym 'f parse_float = "nat \<Rightarrow> string \<Rightarrow> 'f option"

definition values_Get :: "url_values \<Rightarrow> string \<Rightarrow> string" where
  "values_Get vs k = (case go_get vs k of Some (v # _) \<Rightarrow> v | _ \<Rightarrow> [])"

definition values_all :: "url_values \<Rightarrow> string \<Rightarrow> string list" where
  "values_all vs k = (case go_get vs k of Some xs \<Rightarrow> xs | None \<Rightarrow> [])"

text \<open>\<open>SetInt\<close>, \<open>SetUint\<close> and \<open>Convert\<close> to a type of \<open>b\<close> bits keep the low bits.\<close>

definition wrap_int :: "nat \<Rightarrow> int \<Rightarrow> int" where
  "wrap_int b i = (i + 2 ^ (b - 1)) mod 2 ^ b - 2 ^ (b - 1)"

definition wrap_uint :: "nat \<Rightarrow> nat \<Rightarrow> nat" where
  "wrap_uint b n = n mod 2 ^ b"

definition parse_bool :: "string \<Rightarrow> bool option" where
  "parse_bool s =
     (if s \<in> {''1'', ''t'', ''T'', ''TRUE'', ''true'', ''True''} then Some True
      else if s \<in> {''0'', ''f'', ''F'', ''FALSE'', ''false'', ''False''} then Some False
      else None)"

fun kind_name :: "kind \<Rightarrow> string" where
  "kind_name KString = ''string''"
| "kind_name (KInt b) = ''int'' @ nat_dec b"
| "kind_name (KUint b) = ''uint'' @ nat_dec b"
| "kind_name (KFloat b) = ''float'' @ nat_dec b"
| "kind_name KBool = ''bool''"
| "kind_name (KSlice k) = ''slice''"
| "kind_name (KOther n) = n"

section \<open>Parsing (parser.go)\<close>

fun parseSliceElement :: "'f parse_float \<Rightarrow> kind \<Rightarrow> string \<Rightarrow> 'f reflect_value result" where
  "parseSliceElement pf KString v = Inr (VString v)"
| "parseSliceElement pf (KInt b) v =
     (case parse_int 64 v of
        None \<Rightarrow> Inl (ErrText (''invalid integer value in slice: '' @ v))
      | Some i \<Rightarrow> Inr (VInt (wrap_int b i)))"
| "parseSliceElement pf (KUint b) v =
     (case parse_uint 64 v of
        None \<Rightarrow> Inl (ErrText (''invalid unsigned integer value in slice: '' @ v))
      | Some n \<Rightarrow> Inr (VUint (wrap_uint b n)))"
| "parseSliceElement pf (KFloat b) v =
     (case pf b v of
        None \<Rightarrow> Inl (ErrText (''invalid float value in slice: '' @ v)) | Some f \<Rightarrow> Inr (VFloat f))"
| "parseSliceElement pf KBool v =
     (case parse_bool v of
        None \<Rightarrow> Inl (ErrText (''invalid boolean value in slice: '' @ v)) | Some b \<Rightarrow> Inr (VBool b))"
| "parseSliceElement pf k v = Inl (ErrText (''unsupported slice element type: '' @ kind_name k))"

text \<open>The two inner loops: the parts of a value with commas, and a value without.\<close>

fun append_parts :: "'f parse_float \<Rightarrow> kind \<Rightarrow> string list \<Rightarrow> 'f reflect_value list \<Rightarrow> 'f reflect_value list result" where
  "append_parts pf k [] slice = Inr slice"
| "append_parts pf k (subValue # vs) slice =
     (let v = trim_space subValue
      in if v \<noteq> [] then
           (case parseSliceElement pf k v of
              Inl e \<Rightarrow> Inl e | Inr elem \<Rightarrow> append_parts pf k vs (slice @ [elem]))
         else append_parts pf k vs slice)"

fun append_values :: "'f parse_float \<Rightarrow> kind \<Rightarrow> string list \<Rightarrow> 'f reflect_value list \<Rightarrow> 'f reflect_value list result" where
  "append_values pf k [] slice = Inr slice"
| "append_values pf k (v # vs) slice =
     (if CHR '','' \<in> set v then
        (case append_parts pf k (str_split (CHR '','') v) slice of
           Inl e \<Rightarrow> Inl e | Inr slice1 \<Rightarrow> append_values pf k vs slice1)
      else
        (let t = trim_space v
         in if t \<noteq> [] then
              (case parseSliceElement pf k t of
                 Inl e \<Rightarrow> Inl e | Inr elem \<Rightarrow> append_values pf k vs (slice @ [elem]))
            else append_values pf k vs slice))"

definition setSliceValue :: "'f parse_float \<Rightarrow> kind \<Rightarrow> string list \<Rightarrow> 'f reflect_value result" where
  "setSliceValue pf elemType vs =
     (case append_values pf elemType vs [] of Inl e \<Rightarrow> Inl e | Inr slice \<Rightarrow> Inr (VSlice (Some slice)))"

text \<open>The value the field has afterwards; \<open>old\<close> is the one it had.\<close>

fun setFieldValue :: "'f parse_float \<Rightarrow> 'f reflect_value \<Rightarrow> kind \<Rightarrow> string \<Rightarrow> string list \<Rightarrow> 'f reflect_value result" where
  "setFieldValue pf old KString single multiple =
     Inr (if single \<noteq> [] then VString single else old)"
| "setFieldValue pf old (KInt b) single multiple =
     (if single \<noteq> [] then
        (case parse_int 64 single of
           None \<Rightarrow> Inl (ErrText (''invalid integer value: '' @ single))
         | Some i \<Rightarrow> Inr (VInt (wrap_int b i)))
      else Inr old)"
| "setFieldValue pf old (KUint b) single multiple =
     (if single \<noteq> [] then
        (case parse_uint 64 single of
           None \<Rightarrow> Inl (ErrText (''invalid unsigned integer value: '' @ single))
         | Some n \<Rightarrow> Inr (VUint (wrap_uint b n)))
      else Inr old)"
| "setFieldValue pf old (KFloat b) single multiple =
     (if single \<noteq> [] then
        (case pf b single of
           None \<Rightarrow> Inl (ErrText (''invalid float value: '' @ single)) | Some f \<Rightarrow> Inr (VFloat f))
      else Inr old)"
| "setFieldValue pf old KBool single multiple =
     (if single \<noteq> [] then
        (case parse_bool single of
           None \<Rightarrow> Inl (ErrText (''invalid boolean value: '' @ single)) | Some b \<Rightarrow> Inr (VBool b))
      else Inr old)"
| "setFieldValue pf old (KSlice k) single multiple =
     (if length multiple > 0 then setSliceValue pf k multiple else Inr old)"
| "setFieldValue pf old (KOther n) single multiple = Inl (ErrText (''unsupported field type: '' @ n))"

fun parse_fields :: "'f parse_float \<Rightarrow> url_values \<Rightarrow> 'f field list \<Rightarrow> 'f field list \<times> error option" where
  "parse_fields pf vs [] = ([], None)"
| "parse_fields pf vs (fd # fds) =
     (if \<not> can_set fd \<or> field_Tag fd = [] then
        (let (r, e) = parse_fields pf vs fds in (fd # r, e))
      else
        (case setFieldValue pf (field_Value fd) (field_Kind fd) (values_Get vs (field_Tag fd))
                (values_all vs (field_Tag fd)) of
           Inl e \<Rightarrow> (fd # fds, Some (ErrWrap (''failed to set field '' @ field_Name fd) e))
         | Inr v \<Rightarrow> (let (r, e) = parse_fields pf vs fds in (fd\<lparr>field_Value := v\<rparr> # r, e))))"

definition ParseQueryParams :: "'f parse_float \<Rightarrow> url_values \<Rightarrow> 'f target \<Rightarrow> 'f target \<times> error option" where
  "ParseQueryParams pf vs t =
     (case t of
        NotStructPointer \<Rightarrow> (t, Some (ErrText ''target must be a pointer to struct''))
      | StructPointer fds \<Rightarrow> (let (r, e) = parse_fields pf vs fds in (StructPointer r, e)))"

section \<open>Defaults\<close>

fun is_zero :: "(int \<Rightarrow> 'f) \<Rightarrow> 'f reflect_value \<Rightarrow> bool" where
  "is_zero fi (VString s) \<longleftrightarrow> s = []"
| "is_zero fi (VInt i) \<longleftrightarrow> i = 0"
| "is_zero fi (VUint n) \<longleftrightarrow> n = 0"
| "is_zero fi (VFloat f) \<longleftrightarrow> f = fi 0"
| "is_zero fi (VBool b) \<longleftrightarrow> \<not> b"
| "is_zero fi (VSlice xs) \<longleftrightarrow> xs = None"
| "is_zero fi VOther \<longleftrightarrow> True"

text \<open>\<open>ConvertibleTo\<close> and \<open>Convert\<close> of a default: values of the same kind, and integers to every
  numeric kind. The integer to string conversion and the conversions of floating-point defaults,
  which no caller uses, do not apply here.\<close>

fun convert_to :: "(int \<Rightarrow> 'f) \<Rightarrow> kind \<Rightarrow> 'f reflect_value \<Rightarrow> 'f reflect_value option" where
  "convert_to fi KString (VString s) = Some (VString s)"
| "convert_to fi (KInt b) (VInt i) = Some (VInt (wrap_int b i))"
| "convert_to fi (KInt b) (VUint n) = Some (VInt (wrap_int b (int n)))"
| "convert_to fi (KUint b) (VInt i) = Some (VUint (nat (i mod 2 ^ b)))"
| "convert_to fi (KUint b) (VUint n) = Some (VUint (wrap_uint b n))"
| "convert_to fi (KFloat b) (VInt i) = Some (VFloat (fi i))"
| "convert_to fi (KFloat b) (VUint n) = Some (VFloat (fi (int n)))"
| "convert_to fi KBool (VBool b) = Some (VBool b)"
| "convert_to fi (KSlice k) (VSlice xs) = Some (VSlice xs)"
| "convert_to fi k v = None"

definition default_field :: "(int \<Rightarrow> 'f) \<Rightarrow> 'f reflect_value gomap \<Rightarrow> 'f field \<Rightarrow> 'f field" where
  "default_field fi defaults fd =
     (if \<not> can_set fd \<or> field_Tag fd = [] then fd
      else (case go_get defaults (field_Tag fd) of
          None \<Rightarrow> fd
        | Some defaultValue \<Rightarrow>
            if is_zero fi (field_Value fd)
            then (case convert_to fi (field_Kind fd) defaultValue of
                    None \<Rightarrow> fd | Some v \<Rightarrow> fd\<lparr>field_Value := v\<rparr>)
            else fd))"

definition applyDefaults :: "(int \<Rightarrow> 'f) \<Rightarrow> 'f field list \<Rightarrow> 'f reflect_value gomap \<Rightarrow> 'f field list" where
  "applyDefaults fi fds defaults = map (default_field fi defaults) fds"

definition ParseQueryParamsWithDefaults :: "'f parse_float \<Rightarrow> (int \<Rightarrow> 'f) \<Rightarrow> url_values \<Rightarrow> 'f target
    \<Rightarrow> 'f reflect_value gomap \<Rightarrow> 'f target \<times> error option" where
  "ParseQueryParamsWithDefaults pf fi vs t defaults =
     (case ParseQueryParams pf vs t of
        (t1, Some e) \<Rightarrow> (t1, Some e)
      | (NotStructPointer, None) \<Rightarrow> (NotStructPointer, None)
      | (StructPointer fds, None) \<Rightarrow> (StructPointer (applyDefaults fi fds defaults), None))"

section \<open>The filter of the event listing\<close>

text \<open>\<open>FilterEvents\<close> as the parser sees it. It has no floating-point field.\<close>

definition strings_field :: "string \<Rightarrow> string \<Rightarrow> unit field" where
  "strings_field n tag = \<lparr>field_Name = n, field_Tag = tag, can_set = True,
     field_Kind = KSlice KString, field_Value = VSlice None\<rparr>"

definition uint_field :: "string \<Rightarrow> string \<Rightarrow> unit field" where
  "uint_field n tag = \<lparr>field_Name = n, field_Tag = tag, can_set = True,
     field_Kind = KUint 64, field_Value = VUint 0\<rparr>"

definition zero_filter :: "unit field list" where
  "zero_filter = [strings_field ''TeamOwner'' ''team_owner'', strings_field ''ServiceName'' ''service_name'',
     strings_field ''State'' ''state'', uint_field ''Page'' ''page'', uint_field ''Limit'' ''limit'']"

fun value_strings :: "'f reflect_value \<Rightarrow> string list" where
  "value_strings (VSlice (Some xs)) = map (\<lambda>v. case v of VString s \<Rightarrow> s | _ \<Rightarrow> []) xs"
| "value_strings v = []"

fun value_uint :: "'f reflect_value \<Rightarrow> nat" where
  "value_uint (VUint n) = n"
| "value_uint v = 0"

definition read_filter :: "unit field list \<Rightarrow> FilterEvents" where
  "read_filter fds =
     \<lparr>f_TeamOwner = value_strings (field_Value (fds ! 0)), f_ServiceName = value_strings (field_Value (fds ! 1)),
      f_State = value_strings (field_Value (fds ! 2)), f_Page = value_uint (field_Value (fds ! 3)),
      f_Limit = value_uint (field_Value (fds ! 4))\<rparr>"

definition filter_defaults :: "unit reflect_value gomap" where
  "filter_defaults = [(''page'', VUint 1), (''limit'', VUint 500), (''state'', VSlice (Some [VString ''active'']))]"

definition parse_filter :: "url_values \<Rightarrow> FilterEvents result" where
  "parse_filter vs =
     (case ParseQueryParamsWithDefaults (\<lambda>_ _. None) (\<lambda>_. ()) vs (StructPointer zero_filter) filter_defaults of
        (_, Some e) \<Rightarrow> Inl e
      | (StructPointer fds, None) \<Rightarrow> Inr (read_filter fds)
      | (NotStructPointer, None) \<Rightarrow> Inr (read_filter []))"

section \<open>What the parser promises\<close>

text \<open>A list parameter may be repeated and each value may hold several elements between commas: the
  elements are the pieces that are not blank, trimmed, in order.\<close>

definition pieces :: "string list \<Rightarrow> string list" where
  "pieces vs = filter (\<lambda>p. p \<noteq> []) (map trim_space (concat (map (str_split (CHR '','')) vs)))"

lemma append_parts_strings:
  "append_parts pf KString vs slice =
     Inr (slice @ map VString (filter (\<lambda>p. p \<noteq> []) (map trim_space vs)))"
  by (induction vs arbitrary: slice) (simp_all add: Let_def)

lemma str_split_no_sep: "c \<notin> set s \<Longrightarrow> str_split c s = [s]"
  by (induction s) auto

lemma append_values_strings:
  "append_values pf KString vs slice = Inr (slice @ map VString (pieces vs))"
proof (induction vs arbitrary: slice)
  case (Cons v vs)
  then show ?case
    by (cases "CHR '','' \<in> set v")
      (simp_all add: append_parts_strings pieces_def str_split_no_sep Let_def)
qed (simp add: pieces_def)

text \<open>A parameter for a list of strings gives the pieces of all its values, in order: split
  at the commas, trimmed, the blank ones left out; it never fails.\<close>

lemma setSliceValue_strings:
  "setSliceValue pf KString vs = Inr (VSlice (Some (map VString (pieces vs))))"
  by (simp add: setSliceValue_def append_values_strings)

text \<open>A number too large for its field is not refused, it is cut down to the bits of the
  field: an unsigned field of \<open>b\<close> bits set to the decimal text of \<open>n\<close> below \<open>2 ^ 64\<close> holds
  \<open>n mod 2 ^ b\<close>, so it holds \<open>n\<close> itself exactly when \<open>n\<close> fits.\<close>

lemma setFieldValue_uint_wraps:
  assumes "n < 2 ^ 64"
  shows "setFieldValue pf old (KUint b) (nat_dec n) vs = Inr (VUint (n mod 2 ^ b)) \<and>
    (n mod 2 ^ b = n \<longleftrightarrow> n < 2 ^ b)"
proof -
  have "n mod 2 ^ b = n" if "n < 2 ^ b" using that by simp
  moreover have "n < 2 ^ b" if "n mod 2 ^ b = n"
    using that mod_less_divisor [of "2 ^ b" n] by simp
  ultimately show ?thesis
    using assms by (auto simp: parse_uint_nat_dec wrap_uint_def)
qed

definition strings_of :: "url_values \<Rightarrow> string \<Rightarrow> string list" where
  "strings_of vs k = pieces (values_all vs k)"

definition uint_of :: "url_values \<Rightarrow> string \<Rightarrow> nat option" where
  "uint_of vs k = (if values_Get vs k = [] then Some 0 else parse_uint 64 (values_Get vs k))"

lemma uint_of_range: "uint_of vs k = Some n \<Longrightarrow> n < 2 ^ 64"
  by (auto simp: uint_of_def dest: parse_uint_range split: if_splits)

text \<open>Claim C33: the filter of \<open>GET /api/v1/events\<close> is refused exactly when its page or limit is not
  an unsigned 64-bit number; otherwise the page and the limit are at least 1 (zero stands for the
  defaults 1 and 500), so the offset of the query never wraps around, and the states are
  \<open>active\<close> only when the parameter is missing altogether: a blank one gives no state at all.\<close>

theorem parse_filter_ok:
  "case parse_filter vs of
     Inl e \<Rightarrow> uint_of vs ''page'' = None \<or> uint_of vs ''limit'' = None
   | Inr f \<Rightarrow> \<exists>p l. uint_of vs ''page'' = Some p \<and> uint_of vs ''limit'' = Some l \<and>
       f_Page f = (if p = 0 then 1 else p) \<and> f_Limit f = (if l = 0 then 500 else l) \<and>
       f_State f = (if values_all vs ''state'' = [] then [''active''] else strings_of vs ''state'') \<and>
       f_TeamOwner f = strings_of vs ''team_owner'' \<and> f_ServiceName f = strings_of vs ''service_name''"
proof -
  have u: "setFieldValue (\<lambda>_ _. None) (VUint 0) (KUint 64) (values_Get vs k) xs =
      (case uint_of vs k of
         None \<Rightarrow> Inl (ErrText (''invalid unsigned integer value: '' @ values_Get vs k)) | Some n \<Rightarrow> Inr (VUint n))"
    for k xs
    by (auto simp: uint_of_def wrap_uint_def dest: parse_uint_range split: option.splits)
  have s: "setFieldValue (\<lambda>_ _. None) (VSlice None) (KSlice KString) x (values_all vs k) =
      Inr (VSlice (if values_all vs k = [] then None else Some (map VString (strings_of vs k))))" for k x
    by (simp add: setSliceValue_def append_values_strings strings_of_def)
  have none: "values_all vs k = [] \<Longrightarrow> strings_of vs k = []" for k by (simp add: strings_of_def pieces_def)
  have vs: "map ((\<lambda>v. case v of VString s \<Rightarrow> s | _ \<Rightarrow> []) \<circ> VString) xs = xs" for xs :: "string list"
    by (induction xs) simp_all
  note defs = parse_filter_def ParseQueryParamsWithDefaults_def ParseQueryParams_def zero_filter_def
    strings_field_def uint_field_def u s applyDefaults_def default_field_def filter_defaults_def read_filter_def
  show ?thesis
  proof (cases "uint_of vs ''page''")
    case None
    then show ?thesis by (simp add: defs del: setFieldValue.simps)
  next
    case p: (Some p)
    show ?thesis
    proof (cases "uint_of vs ''limit''")
      case None
      with p show ?thesis by (simp add: defs del: setFieldValue.simps)
    next
      case l: (Some l)
      have wrap: "wrap_uint 64 (Suc 0) = 1" "wrap_uint 64 500 = 500" by (simp_all add: wrap_uint_def)
      show ?thesis
        using none by (simp add: defs p l wrap vs del: setFieldValue.simps)
    qed
  qed
qed

end
