(* ===== verification/Backofficeapp.thy ===== *)
theory Backofficeapp
  imports Interstore Storests Queryparser Http
begin

text \<open>
  \<open>internal/app/backofficeapp\<close> and \<open>internal/app/health\<close>: the HTTP handlers that register, list and
  remove events and show the insights. The repository is the PostgreSQL store; \<open>parse_uuid\<close> is
  \<open>uuid.Parse\<close>. The configuration is a package variable read again from the environment by every
  \<open>cfg.Get\<close>; a panic in a handler is recovered by the server, which then sends nothing.
  A response is written to a connection that takes it.
\<close>

section \<open>Validation against the configuration\<close>

definition Validate_event :: "Event \<Rightarrow> 'a db_world_scheme \<Rightarrow> error option run \<times> 'a db_world_scheme" where
  "Validate_event e w =
     (case Event_Validate (env_vars w) e (package_cfg w) of (r, c) \<Rightarrow> (r, w\<lparr>package_cfg := c\<rparr>))"

text \<open>\<open>json.NewEncoder(w).Encode(v)\<close> ends the text with a newline.\<close>

definition encode_json :: "json \<Rightarrow> response \<Rightarrow> response" where
  "encode_json j r = write_body (json_text j @ [CHR 0x0A]) r"

section \<open>Registering an event (register_consumer.go)\<close>

record EventDto =
  d_Name :: string
  d_Type :: event_type
  d_Option :: Opt
  d_Consumers :: "Consumer list option"

definition zero_EventDto :: EventDto where
  "zero_EventDto = \<lparr>d_Name = [], d_Type = [], d_Option = zero_Opt, d_Consumers = None\<rparr>"

definition EventDto_field :: "EventDto \<Rightarrow> string \<Rightarrow> json \<Rightarrow> EventDto \<times> error option" where
  "EventDto_field r k j =
     (if fold_eq k ''name''
      then (let (v, e) = into_string (d_Name r) j in (r\<lparr>d_Name := v\<rparr>, e))
      else if fold_eq k ''type''
      then (let (v, e) = into_string (d_Type r) j in (r\<lparr>d_Type := v\<rparr>, e))
      else if fold_eq k ''option''
      then (let (v, e) = into_Opt (d_Option r) j in (r\<lparr>d_Option := v\<rparr>, e))
      else if fold_eq k ''consumers''
      then (let (v, e) = into_slice into_Consumer zero_Consumer (d_Consumers r) j in (r\<lparr>d_Consumers := v\<rparr>, e))
      else (r, None))"

definition into_EventDto :: "EventDto decoder" where
  "into_EventDto = into_struct EventDto_field"

definition EventDto_json :: "EventDto \<Rightarrow> json result" where
  "EventDto_json e =
     (case Opt_json (d_Option e) of
        Inl err \<Rightarrow> Inl err
      | Inr o1 \<Rightarrow>
          Inr (JObj [(''name'', JStr (d_Name e)), (''type'', JStr (d_Type e)), (''option'', o1),
            (''consumers'', enc_slice Consumer_json (d_Consumers e))]))"

definition EventDto_ToDomain :: "EventDto \<Rightarrow> 'a db_world_scheme \<Rightarrow> Event run \<times> 'a db_world_scheme" where
  "EventDto_ToDomain e w =
     (case Cfg_Get w of
        (Panics p, w1) \<Rightarrow> (Panics p, w1)
      | (Returns env, w1) \<Rightarrow>
          (let (i, w2) = new_uuid w1
           in (Returns \<lparr>ID = i, event_Name = d_Name e, ServiceName = InternalServiceName env, State = [],
                 Type = d_Type e, Option = d_Option e, Consumers = d_Consumers e\<rparr>, w2)))"

definition SaveConsumerHandle :: "bytes \<Rightarrow> 'a db_world_scheme \<Rightarrow> response run \<times> 'a db_world_scheme" where
  "SaveConsumerHandle request_body w =
     (case decode into_EventDto zero_EventDto request_body of
        (_, Some e) \<Rightarrow> (Returns (http_error (error_msg e) 400 new_response), w)
      | (payload, None) \<Rightarrow>
          (case EventDto_ToDomain payload w of
             (Panics p, w1) \<Rightarrow> (Panics p, w1)
           | (Returns event, w1) \<Rightarrow>
               (case Validate_event event w1 of
                  (Panics p, w2) \<Rightarrow> (Panics p, w2)
                | (Returns (Some e), w2) \<Rightarrow>
                    (Returns (http_error (''invalid event payload: '' @ error_msg e) 400 new_response), w2)
                | (Returns None, w2) \<Rightarrow>
                    (case Upsert event w2 of
                       (Some e, w3) \<Rightarrow> (Returns (http_error ''failed to save consumer'' 500 new_response), w3)
                     | (None, w3) \<Rightarrow>
                         (let resp = write_header 200 new_response
                          in case EventDto_json payload of
                               Inl e \<Rightarrow> (Returns (http_error ''failed to encode response'' 500 resp), w3)
                             | Inr j \<Rightarrow> (Returns (encode_json j resp), w3))))))"

section \<open>Archived events (register_event_consumer_archived.go)\<close>

text \<open>There is no \<open>return\<close> after the error of \<open>Upsert\<close>.\<close>

definition GetRegisterTaskConsumerArchived :: "(string \<Rightarrow> string option) \<Rightarrow> bytes \<Rightarrow> 'a db_world_scheme
    \<Rightarrow> response \<times> 'a db_world_scheme" where
  "GetRegisterTaskConsumerArchived parse_uuid request_body w =
     (case decode (into_Event parse_uuid) zero_Event request_body of
        (_, Some e) \<Rightarrow> (http_error (error_msg e) 400 new_response, w)
      | (payload, None) \<Rightarrow>
          (case Upsert (payload\<lparr>State := ''archived''\<rparr>) w of
             (Some e, w1) \<Rightarrow>
               (write_header 201 (http_error ''failed to upsert internal event'' 500 new_response), w1)
           | (None, w1) \<Rightarrow> (write_header 201 new_response, w1)))"

section \<open>Reading events (get_event_handle.go, get_events_handle.go)\<close>

definition GetEvent :: "string \<Rightarrow> 'a db_world_scheme \<Rightarrow> response \<times> 'a db_world_scheme" where
  "GetEvent event_name w =
     (case GetInternalEvent event_name w of
        (Inl e, w1) \<Rightarrow> (http_error (error_msg e) 500 new_response, w1)
      | (Inr event, w1) \<Rightarrow>
          (let resp = write_header 200 new_response
           in case Event_json event of
                Inl e \<Rightarrow> (http_error (error_msg e) 500 resp, w1)
              | Inr j \<Rightarrow> (encode_json j resp, w1)))"

definition GetEvents :: "url_values \<Rightarrow> 'a db_world_scheme \<Rightarrow> response \<times> 'a db_world_scheme" where
  "GetEvents query w =
     (case parse_filter query of
        Inl e \<Rightarrow> (http_error (''Invalid query parameters: '' @ error_msg e) 400 new_response, w)
      | Inr flt \<Rightarrow>
          (case GetInternalEvents flt w of
             ((_, Some e), w1) \<Rightarrow> (http_error (error_msg e) 500 new_response, w1)
           | ((events, None), w1) \<Rightarrow>
               (let resp = write_header 200 new_response
                in case Events_json events of
                     Inl e \<Rightarrow> (http_error (error_msg e) 500 resp, w1)
                   | Inr j \<Rightarrow> (encode_json j resp, w1))))"

section \<open>Removing an event (remove_event_handle.go)\<close>

definition RemoveEvent :: "(string \<Rightarrow> string option) \<Rightarrow> string \<Rightarrow> 'a db_world_scheme
    \<Rightarrow> response \<times> 'a db_world_scheme" where
  "RemoveEvent parse_uuid i w =
     (case parse_uuid i of
        None \<Rightarrow> (http_error ''Invalid event ID'' 400 new_response, w)
      | Some eventID \<Rightarrow>
          (case DisabledEvent eventID w of
             (Some e, w1) \<Rightarrow> (http_error ''Failed to remove event'' 500 new_response, w1)
           | (None, w1) \<Rightarrow> (write_header 204 new_response, w1)))"

section \<open>Insights (insights_handle.go) and health (health_check_handle.go)\<close>

text \<open>Durations in milliseconds are printed as floating-point numbers, below \<open>2 ^ 53\<close> without
  exponent or fraction.\<close>

definition enc_counts :: "nat gomap \<Rightarrow> json" where
  "enc_counts m = JObj (map (\<lambda>(k, n). (k, enc_int (int n))) m)"

definition enc_durations :: "int gomap \<Rightarrow> json" where
  "enc_durations m = JObj (map (\<lambda>(k, v). (k, enc_int v)) m)"

definition RPM_json :: "RPM \<Rightarrow> json result" where
  "RPM_json r =
     (case all_results (map Time_MarshalJSON (Timeseries r)) of
        Inl e \<Rightarrow> Inl e
      | Inr ts \<Rightarrow> Inr (JObj [(''timeseries'', JArr ts),
                             (''values'', JArr (map enc_int (Values r)))]))"

definition RPMs_json :: "RPM gomap \<Rightarrow> json result" where
  "RPMs_json m =
     (case all_results (map (\<lambda>(k, r). RPM_json r) m) of
        Inl e \<Rightarrow> Inl e | Inr js \<Rightarrow> Inr (JObj (zip (map fst m) js)))"

definition Insights_json :: "Insights \<Rightarrow> json result" where
  "Insights_json i =
     (case (RPMs_json (RpmPublisher i), RPMs_json (RpmConsumer i)) of
        (Inl e, _) \<Rightarrow> Inl e
      | (_, Inl e) \<Rightarrow> Inl e
      | (Inr rp, Inr rc) \<Rightarrow>
          Inr (JObj [(''total_published'', enc_int (int (TotalPublished i))),
            (''total_consumed'', enc_int (int (TotalConsumed i))),
            (''percentage_published_success'', JStr (PercentagePublishedSuccess i)),
            (''percentage_consumed_success'', JStr (PercentageConsumedSuccess i)),
            (''total_published_with_success'', enc_int (int (TotalPublishedWithSuccess i))),
            (''total_consumed_with_success'', enc_int (int (TotalConsumedWithSuccess i))),
            (''total_published_with_err'', enc_int (int (TotalPublishedWithErr i))),
            (''total_consumed_with_err'', enc_int (int (TotalConsumedWithErr i))),
            (''total_segmentation_published'', enc_counts (TotalSegmentationPublished i)),
            (''total_segmentation_consumed'', enc_counts (TotalSegmentationConsumed i)),
            (''rpm_publisher'', rp), (''rpm_consumer'', rc),
            (''consumers_p99'', enc_durations (P99Consumed i)),
            (''consumers_p75'', enc_durations (P75Consumed i)),
            (''publishers_p99'', enc_durations (P99Published i)),
            (''publishers_p75'', enc_durations (P75Published i))]))"

text \<open>An error of the encoder is dropped: the body stays empty.\<close>

definition GetInsightsHandle :: "('w \<Rightarrow> (sample list \<times> error option) \<times> 'w) \<Rightarrow> 'w \<Rightarrow> response \<times> 'w" where
  "GetInsightsHandle get_all w =
     (case get_all w of
        ((_, Some e), w1) \<Rightarrow> (http_error (error_msg e) 500 new_response, w1)
      | ((metrics, None), w1) \<Rightarrow>
          (let resp = set_header ''Content-Type'' ''application/json'' new_response
           in case Insights_json (Metrics_Insights metrics) of
                Inl e \<Rightarrow> (resp, w1)
              | Inr j \<Rightarrow> (encode_json j resp, w1)))"

definition GetHealthCheckHandler :: response where
  "GetHealthCheckHandler = write_body ''pong'' (write_header 200 new_response)"

section \<open>What registering does\<close>

definition dto_ok :: "EventDto \<Rightarrow> bool" where
  "dto_ok r \<longleftrightarrow> opt_ok (d_Option r) \<and> list_all consumer_ok (case d_Consumers r of None \<Rightarrow> [] | Some l \<Rightarrow> l)"

lemma EventDto_field_keeps: "json_wf j \<Longrightarrow> dto_ok r \<Longrightarrow> dto_ok (fst (EventDto_field r k j))"
  by (auto simp: EventDto_field_def dto_ok_def case_prod_beta into_Opt_keeps into_consumers_keeps)

lemma decoded_dto_ok: "dto_ok (fst (decode into_EventDto zero_EventDto b))"
proof (rule decode_keeps)
  show z: "dto_ok zero_EventDto"
    by (simp add: dto_ok_def zero_EventDto_def opt_ok_def zero_Opt_def int64_ok_def)
  show "dto_ok (fst (into_EventDto zero_EventDto j))" if "json_wf j" for j
    unfolding into_EventDto_def by (rule into_struct_keeps [of dto_ok, OF EventDto_field_keeps z that])
qed

lemma Cfg_Get_keeps: "Cfg_Get w = (r, w') \<Longrightarrow> events_table w' = events_table w \<and> jsonb w' = jsonb w"
  by (auto simp: Cfg_Get_def split: prod.splits)

lemma Validate_event_keeps: "Validate_event e w = (r, w') \<Longrightarrow> events_table w' = events_table w \<and> jsonb w' = jsonb w"
  by (auto simp: Validate_event_def split: prod.splits)

lemma EventDto_ToDomain_effect:
  assumes "EventDto_ToDomain dto w = (r, w')"
  shows "events_table w' = events_table w \<and> jsonb w' = jsonb w \<and>
    (\<forall>e. r = Returns e \<longrightarrow> event_Name e = d_Name dto \<and> State e = [] \<and> Type e = d_Type dto \<and>
       Option e = d_Option dto \<and> Consumers e = d_Consumers dto)"
proof -
  obtain g w1 where g: "Cfg_Get w = (g, w1)" by (cases "Cfg_Get w")
  obtain u w2 where u: "new_uuid w1 = (u, w2)" by (cases "new_uuid w1")
  have "events_table w2 = events_table w1" "jsonb w2 = jsonb w1"
    using now_uuid_keeps(3,4) [of w1] by (simp_all add: u)
  with assms Cfg_Get_keeps [OF g] show ?thesis
    by (cases g) (auto simp: EventDto_ToDomain_def g u)
qed

text \<open>The event that is stored, when one is.\<close>

lemma SaveConsumer_cases:
  assumes run: "SaveConsumerHandle request_body w = (res, w')"
    and d: "decode into_EventDto zero_EventDto request_body = (dto, None)"
  obtains (rejected) "events_table w' = events_table w" "\<forall>resp. res = Returns resp \<longrightarrow> status_of resp \<in> {400, 500}"
  | (stored) resp e w1 c where "res = Returns resp" "status_of resp = 200"
      "Upsert e w1 = (None, w')" "events_table w1 = events_table w" "jsonb w1 = jsonb w"
      "event_Name e = d_Name dto" "State e = []" "Type e = d_Type dto" "Option e = d_Option dto"
      "Consumers e = d_Consumers dto" "fst (Event_Validate (env_vars w) e c) = Returns None"
proof -
  obtain r w1 where t: "EventDto_ToDomain dto w = (r, w1)" by (cases "EventDto_ToDomain dto w")
  note te = EventDto_ToDomain_effect [OF t]
  show thesis
  proof (cases r)
    case (Panics p)
    with run te rejected show thesis by (auto simp: SaveConsumerHandle_def d t)
  next
    case r: (Returns e)
    obtain v w2 where v: "Validate_event e w1 = (v, w2)" by (cases "Validate_event e w1")
    note ve = Validate_event_keeps [OF v]
    show thesis
    proof (cases "v = Returns None")
      case False
      with run te ve rejected show thesis
        by (auto simp: SaveConsumerHandle_def d t r v split: run.splits option.splits)
    next
      case True
      obtain u w3 where u: "Upsert e w2 = (u, w3)" by (cases "Upsert e w2")
      show thesis
      proof (cases u)
        case (Some err)
        with run te ve True Upsert_effect [OF u] rejected show thesis
          by (auto simp: SaveConsumerHandle_def d t r v u)
      next
        case None
        have env: "env_vars w1 = env_vars w"
          using t by (auto simp: EventDto_ToDomain_def Cfg_Get_def new_uuid_def ask_def Let_def case_prod_beta
              split: run.splits)
        have "fst (Event_Validate (env_vars w) e (package_cfg w1)) = Returns None"
          using v True env by (auto simp: Validate_event_def split: prod.splits)
        moreover have "status_of resp = 200 \<and> w3 = w'" if "res = Returns resp" for resp
          using run that None True
          by (auto simp: SaveConsumerHandle_def d t r v u Let_def encode_json_def split: sum.splits)
        moreover have "\<exists>resp. res = Returns resp" using run None True
          by (auto simp: SaveConsumerHandle_def d t r v u Let_def split: sum.splits)
        ultimately show thesis using stored u None te ve r by metis
      qed
    qed
  qed
qed


lemma disable_row_deleted: "r \<in> set (disable_row i t) \<Longrightarrow> r_id r = i \<Longrightarrow> r_deleted r"
proof -
  let ?g = "\<lambda>r. if r_id r = i \<and> \<not> r_deleted r then r\<lparr>r_state := ''disabled'', r_deleted := True\<rparr> else r"
  assume "r \<in> set (disable_row i t)" and i: "r_id r = i"
  then have "r \<in> ?g ` set t" by (simp only: disable_row_def set_map)
  then obtain r0 where r: "r = ?g r0" by (rule imageE)
  show "r_deleted r"
  proof (cases "r_id r0 = i \<and> \<not> r_deleted r0")
    case False
    then have "r = r0" unfolding r by (simp only: if_False)
    with False i show ?thesis by blast
  qed (simp add: r)
qed

text \<open>\<open>DELETE /api/v1/event/{id}\<close> answers 204 exactly when the statement was accepted,
  and then no row with that id is left alive; it answers 204 also for an id that no row has. A text
  that is no UUID is answered with 400, a failing database with 500, and the table is as before.\<close>

lemma RemoveEvent_outcome:
  assumes "RemoveEvent parse_uuid i w = (resp, w')"
  shows "if status_of resp = 204
    then \<exists>eventID. parse_uuid i = Some eventID \<and> events_table w' = disable_row eventID (events_table w) \<and>
      (\<forall>r\<in>set (events_table w'). r_id r = eventID \<longrightarrow> r_deleted r)
    else events_table w' = events_table w \<and> status_of resp = (if parse_uuid i = None then 400 else 500)"
proof (cases "parse_uuid i")
  case None
  with assms show ?thesis by (auto simp: RemoveEvent_def)
next
  case (Some eventID)
  obtain e w1 where d: "DisabledEvent eventID w = (e, w1)" by (cases "DisabledEvent eventID w")
  from assms Some d DisabledEvent_effect [OF d] disable_row_deleted [of _ eventID] show ?thesis
    by (cases e) (auto simp: RemoveEvent_def)
qed

text \<open>\<open>POST /events/schedule/archived\<close> stores whatever event it could decode, without the
  checks of the other handler, as archived: 201 means that it is in the table, and a failing
  database is answered with 500, the second status the handler writes having no effect.\<close>

lemma Archived_outcome:
  assumes "GetRegisterTaskConsumerArchived parse_uuid request_body w = (resp, w')"
    and "decode (into_Event parse_uuid) zero_Event request_body = (payload, None)"
  shows "if status_of resp = 201
    then \<exists>new. upsert_row new (events_table w) = Inr (events_table w') \<and>
      r_name new = event_Name payload \<and> r_state new = ''archived''
    else status_of resp = 500 \<and> events_table w' = events_table w"
proof -
  obtain e w1 where u: "Upsert (payload\<lparr>State := ''archived''\<rparr>) w = (e, w1)"
    by (cases "Upsert (payload\<lparr>State := ''archived''\<rparr>) w")
  have "r_name (new_row u now cj oj (payload\<lparr>State := ''archived''\<rparr>)) = event_Name payload \<and>
      r_state (new_row u now cj oj (payload\<lparr>State := ''archived''\<rparr>)) = ''archived''" for u now cj oj
    by (simp add: new_row_def)
  moreover have "status_of (write_header 201 (http_error m 500 new_response)) = 500" for m
    by (simp add: committed_http_error)
  ultimately show ?thesis
    using assms u Upsert_effect [OF u]
    by (cases e) (auto simp: GetRegisterTaskConsumerArchived_def)
qed

text \<open>A writer that remembers the last status, as the metrics do, sees 201 for the failure too.\<close>

lemma Archived_recorded:
  assumes "decode (into_Event parse_uuid) zero_Event request_body = (payload, None)"
  shows "recorded (fst (GetRegisterTaskConsumerArchived parse_uuid request_body w)) = 201"
  using assms by (auto simp: GetRegisterTaskConsumerArchived_def split: prod.splits option.splits)

text \<open>An unknown name is answered like a failing database.\<close>

lemma GetEvent_outcome:
  "status_of (fst (GetEvent n w)) =
     (case fst (GetInternalEvent n w) of Inl e \<Rightarrow> 500 | Inr event \<Rightarrow> 200)"
  by (auto simp: GetEvent_def encode_json_def Let_def split: prod.splits sum.splits)



section \<open>Concrete requests\<close>

definition sample_dto :: EventDto where
  "sample_dto = \<lparr>d_Name = ''paid'', d_Type = EventTypeExternal, d_Option = zero_Opt\<lparr>o_WqType := LowLatency\<rparr>,
     d_Consumers = Some [zero_Consumer]\<rparr>"

lemma EventDto_fields [json_simps]:
  "EventDto_field r ''name'' j = (let (v, e) = into_string (d_Name r) j in (r\<lparr>d_Name := v\<rparr>, e))"
  "EventDto_field r ''type'' j = (let (v, e) = into_string (d_Type r) j in (r\<lparr>d_Type := v\<rparr>, e))"
  "EventDto_field r ''option'' j = (let (v, e) = into_Opt (d_Option r) j in (r\<lparr>d_Option := v\<rparr>, e))"
  "EventDto_field r ''consumers'' j =
     (let (v, e) = into_slice into_Consumer zero_Consumer (d_Consumers r) j in (r\<lparr>d_Consumers := v\<rparr>, e))"
  by (simp_all add: EventDto_field_def fold_eq_def lower_char_def)

lemma EventDto_roundtrip:
  assumes "dto_ok r" and "EventDto_json r = Inr j"
  shows "decode into_EventDto zero_EventDto (json_text j) = (r, None)"
proof -
  obtain o1 where o1: "Opt_json (d_Option r) = Inr o1"
    using assms(2) by (auto simp: EventDto_json_def split: sum.splits)
  have cs: "into_slice into_Consumer zero_Consumer None (enc_slice Consumer_json (d_Consumers r)) = (d_Consumers r, None)"
    using assms(1) by (intro into_slice_enc_slice into_Consumer_json) (auto simp: dto_ok_def list_all_iff)
  have "json_wf j"
    using assms(2) o1 by (auto simp: EventDto_json_def json_wf_Opt json_wf_enc_slice)
  moreover have "into_EventDto zero_EventDto j = (r, None)"
    using assms o1 cs into_Opt_json [OF _ o1]
    by (auto simp: into_EventDto_def into_struct_def EventDto_json_def EventDto_fields zero_EventDto_def dto_ok_def)
  ultimately show ?thesis by (simp add: decode_json_text)
qed

lemma sample_dto_json: "\<exists>j. EventDto_json sample_dto = Inr j"
  by (simp add: EventDto_json_def sample_dto_def Opt_json_def zero_Opt_def enc_deadline_def)

lemma sample_dto_ok: "dto_ok sample_dto"
  by (simp add: dto_ok_def sample_dto_def opt_ok_def zero_Opt_def int64_ok_def zero_consumer_ok)

lemma sample_saved:
  assumes "EventDto_json sample_dto = Inr j"
  shows "\<exists>resp w'. SaveConsumerHandle (json_text j) (calm_db []) = (Returns resp, w') \<and> status_of resp = 200"
  using assms EventDto_roundtrip [OF sample_dto_ok assms]
  by (simp add: SaveConsumerHandle_def EventDto_ToDomain_def Cfg_Get_def cfg_Get_ok calm_db_def
      sample_cfg_def new_uuid_def ask_def Validate_event_def Event_Validate_def sample_dto_def Opt_Validate_def
      WQType_Validate_def zero_Opt_def consumers_of_def Upsert_def marshal_columns_def Opt_json_def
      enc_deadline_def time_now_def exec_sql_def ask_err_def err_of_def upsert_row_def encode_json_def Let_def)


end
