(* ===== verification/Lifecycle.thy ===== *)
theory Lifecycle
  imports Backofficeapp Pubsubapp
begin

text \<open>
  The components together: what the backoffice stores in PostgreSQL (\<open>Backofficeapp\<close>,
  \<open>Interstore\<close>) is what the publishing services load into memory and queue (\<open>Taskapp\<close>). The two
  run in processes of their own or in one; all they share is the table of events.
\<close>

section \<open>From the registration to the queue\<close>

lemma find_filter: "find P xs = (case filter P xs of [] \<Rightarrow> None | x # _ \<Rightarrow> Some x)"
  by (induction xs) auto

lemma find_active:
  "find (\<lambda>r. r_name r = n \<and> \<not> r_deleted r \<and> r_state r \<noteq> ''archived'') (rev t) =
     (case rev (filter (\<lambda>r. r_state r \<noteq> ''archived'') (live n t)) of [] \<Rightarrow> None | r # _ \<Rightarrow> Some r)"
  by (simp add: find_filter rev_filter conj_ac)

text \<open>What a process that shares the database answers once it has loaded the table.\<close>

lemma served_after_upsert:
  assumes "table_ok t" and "upsert_row new t = Inr (events_table v)" and "\<not> r_deleted new"
    and "GetAllEvents v = ((es, None), v1)"
  shows "if (\<exists>r\<in>set t. r_name r = r_name new \<and> r_deleted r) \<or> r_state new = ''archived''
    then fst (MemStore_GetEvent (r_name new) (snd (LoadInMemStore GetAllEvents v))) = Inl EventNotFound
    else \<exists>i. fst (MemStore_GetEvent (r_name new) (snd (LoadInMemStore GetAllEvents v))) =
      Inr (ToDomain (scan_row v (new\<lparr>r_id := i\<rparr>)))"
proof -
  note served = conjunct2 [OF MemStore_serves [OF assms(4), of "r_name new"], unfolded find_active]
  note live = upsert_row_live [OF assms(1-3)]
  show ?thesis
  proof (cases "\<exists>r\<in>set t. r_name r = r_name new \<and> r_deleted r")
    case True
    with live(1) served show ?thesis by simp
  next
    case False
    from live(2) [OF False] obtain r where r: "live (r_name new) (events_table v) = [r]"
      "r_name r = r_name new" "r_service_name r = r_service_name new" "r_state r = r_state new"
      "r_consumers r = r_consumers new" "r_opts r = r_opts new"
      by (auto simp: map_eq_Cons_conv)
    have "scan_row v r = scan_row v (new\<lparr>r_id := r_id r\<rparr>)" using r by (simp add: scan_row_def)
    with r False served show ?thesis by auto
  qed
qed

lemma registered_served:
  assumes "SaveConsumerHandle request_body w = (Returns resp, w')" and "status_of resp = 200"
    and "decode into_EventDto zero_EventDto request_body = (dto, None)"
    and "table_ok (events_table w)" and "\<not> (\<exists>r\<in>set (events_table w). r_name r = d_Name dto \<and> r_deleted r)"
    and "events_table v = events_table w'" and "jsonb_keeps (jsonb v)" and "GetAllEvents v = ((es, None), v1)"
  shows "\<exists>ev. fst (MemStore_GetEvent (d_Name dto) (snd (LoadInMemStore GetAllEvents v))) = Inr ev \<and>
     event_Name ev = d_Name dto \<and> Option ev = d_Option dto \<and> Consumers ev = d_Consumers dto"
  using assms(1,3)
proof (cases rule: SaveConsumer_cases)
  case rejected
  with assms(2) show ?thesis by auto
next
  case (stored resp' e w1 c)
  from Upsert_effect [OF stored(3)] stored(4) obtain cj oj u now where
    cols: "marshal_columns e = Inr (cj, oj)"
    and up: "upsert_row (new_row u now cj oj e) (events_table w) = Inr (events_table w')"
    by auto
  let ?new = "new_row u now cj oj e"
  have new: "\<not> r_deleted ?new" "r_name ?new = d_Name dto" "r_state ?new \<noteq> ''archived''"
    using stored by (simp_all add: new_row_def)
  have "dto_ok dto" using decoded_dto_ok [of request_body] assms(3) by simp
  then have "event_ok e" using stored by (simp add: event_ok_def dto_ok_def consumers_of_def)
  from columns_decode [OF assms(7) this cols] have dec: "unmarshal into_consumers None (jsonb v cj) = (d_Consumers dto, None)"
    "unmarshal into_Opt zero_Opt (jsonb v oj) = (d_Option dto, None)"
    using stored by simp_all
  from served_after_upsert [OF assms(4) up [folded assms(6)] new(1) assms(8)] assms(5) new obtain i where
    "fst (MemStore_GetEvent (d_Name dto) (snd (LoadInMemStore GetAllEvents v))) =
       Inr (ToDomain (scan_row v (?new\<lparr>r_id := i\<rparr>)))" by auto
  moreover have "ToDomain (scan_row v (?new\<lparr>r_id := i\<rparr>)) = ev \<longrightarrow>
     event_Name ev = d_Name dto \<and> Option ev = d_Option dto \<and> Consumers ev = d_Consumers dto" for ev
    using dec stored by (auto simp: ToDomain_def scan_row_def new_row_def)
  ultimately show ?thesis by blast
qed

lemma MemStore_GetEvent_now: "fst (MemStore_GetEvent n (snd (time_now w))) = fst (MemStore_GetEvent n w)"
  by (simp add: MemStore_GetEvent_def split: option.splits)

lemma quiet_MemStore: "quiet published (MemStore_GetEvent :: 'a store_world_scheme get_event)"
  by (simp add: quiet_def MemStore_GetEvent_def split: option.splits)


text \<open>Claim C13: an event removed with 204 is no longer published: after the next load of the
  table its name is unknown.\<close>

theorem removed_event_not_served:
  assumes "RemoveEvent parse_uuid i w = (resp, w')" and "status_of resp = 204" and "parse_uuid i = Some eventID"
    and "table_ok (events_table w)" and "r \<in> set (events_table w)" and "r_id r = eventID"
    and "events_table v = events_table w'" and "GetAllEvents v = ((es, None), v1)"
  shows "fst (MemStore_GetEvent (r_name r) (snd (LoadInMemStore GetAllEvents v))) = Inl EventNotFound"
proof -
  let ?g = "\<lambda>x. if r_id x = eventID \<and> \<not> r_deleted x then x\<lparr>r_state := ''disabled'', r_deleted := True\<rparr> else x"
  obtain e w1 where d: "DisabledEvent eventID w = (e, w1)" by (cases "DisabledEvent eventID w")
  have t: "events_table v = map ?g (events_table w)"
    using assms(1-3,7) DisabledEvent_effect [OF d] by (auto simp: RemoveEvent_def d disable_row_def split: option.splits)
  have "live (r_name r) (events_table v) = map ?g (filter (\<lambda>x. \<not> r_deleted (?g x)) (filter (\<lambda>x. r_name x = r_name r) (events_table w)))"
    unfolding t by (simp add: filter_map comp_def conj_ac if_distrib cong: if_cong)
  also have "filter (\<lambda>x. r_name x = r_name r) (events_table w) = [r]"
    using assms(4,5) by (intro filter_key) (simp_all add: table_ok_def)
  finally have "live (r_name r) (events_table v) = []" using assms(6) by simp
  with conjunct2 [OF MemStore_serves [OF assms(8), of "r_name r"], unfolded find_active] show ?thesis by simp
qed

text \<open>An event stored as archived is not published: after the next load of the table
  its name is unknown, also when it was active before.\<close>

lemma archived_event_not_served:
  assumes "GetRegisterTaskConsumerArchived parse_uuid request_body w = (resp, w')" and "status_of resp = 201"
    and "decode (into_Event parse_uuid) zero_Event request_body = (payload, None)"
    and "table_ok (events_table w)" and "events_table v = events_table w'" and "GetAllEvents v = ((es, None), v1)"
  shows "fst (MemStore_GetEvent (event_Name payload) (snd (LoadInMemStore GetAllEvents v))) = Inl EventNotFound"
proof -
  obtain e w1 where u: "Upsert (payload\<lparr>State := ''archived''\<rparr>) w = (e, w1)"
    by (cases "Upsert (payload\<lparr>State := ''archived''\<rparr>) w")
  have "status_of (write_header 201 (http_error m 500 new_response)) = 500" for m
    by (simp add: committed_http_error)
  then have "e = None" "w1 = w'"
    using assms(1-3) u by (auto simp: GetRegisterTaskConsumerArchived_def split: option.splits)
  with Upsert_effect [OF u] obtain cj oj i now where
    up: "upsert_row (new_row i now cj oj (payload\<lparr>State := ''archived''\<rparr>)) (events_table w) = Inr (events_table w')"
    by auto
  have "\<not> r_deleted (new_row i now cj oj (payload\<lparr>State := ''archived''\<rparr>))" by (simp add: new_row_def)
  from served_after_upsert [OF assms(4) up [folded assms(5)] this assms(6)] show ?thesis
    by (simp add: new_row_def)
qed

section \<open>Concrete runs\<close>

lemma calm_scan: "all_done w \<Longrightarrow> \<exists>es w'. scan_rows what rows acc w = (Inr es, w')"
proof (induction rows arbitrary: acc w)
  case Nil
  then show ?case using calm_ask_err [of w "Other ''rows.Err'' []"] by auto
next
  case (Cons r rows)
  then obtain w1 where "ask_err (Other ''rows.Scan'' []) w = (None, w1)" "all_done w1"
    using calm_ask_err [of w "Other ''rows.Scan'' []"] by blast
  with Cons.IH [of w1] show ?case by auto
qed

lemma calm_GetAllEvents: "\<exists>es v1. GetAllEvents (calm_store t) = ((es, None), v1)"
proof -
  have calm: "all_done (calm_store t)" by (simp add: all_done_def calm_store_def)
  let ?sql = "SqlQuery (''SELECT '' @ modelEventFields @
    '' FROM events WHERE deleted_at IS NULL AND state != '' @ quoted ''archived'')"
  obtain w1 where q: "ask_err ?sql (calm_store t) = (None, w1)" "all_done w1"
    using calm_ask_err [OF calm] by blast
  let ?rows = "filter (\<lambda>r. \<not> r_deleted r \<and> r_state r \<noteq> ''archived'') (events_table w1)"
  obtain es w2 where "scan_rows ''failed to iterate over events'' ?rows [] w1 = (Inr es, w2)"
    using calm_scan [OF q(2)] by blast
  with q(1) show ?thesis by (simp add: GetAllEvents_def read_events_def query_sql_def)
qed


definition sample_row :: row where
  "sample_row = new_row ''1'' 0 ''null'' ''null'' sample_event"

theorem removed_event_not_served_witness:
  "fst (MemStore_GetEvent ''paid'' (snd (LoadInMemStore GetAllEvents
     (calm_store (events_table (snd (RemoveEvent Some ''1'' (calm_db [sample_row])))))))) = Inl EventNotFound"
proof -
  obtain resp w' where run: "RemoveEvent Some ''1'' (calm_db [sample_row]) = (resp, w')" by (metis prod.collapse)
  have ok: "status_of resp = 204"
    using run by (auto simp: RemoveEvent_def DisabledEvent_def exec_sql_def ask_err_def ask_def calm_db_def err_of_def Let_def)
  obtain es v1 where load: "GetAllEvents (calm_store (events_table w')) = ((es, None), v1)"
    using calm_GetAllEvents by blast
  have "table_ok (events_table (calm_db [sample_row]))" "sample_row \<in> set (events_table (calm_db [sample_row]))"
    "r_id sample_row = ''1''" "events_table (calm_store (events_table w')) = events_table w'"
    "r_name sample_row = ''paid''"
    by (simp_all add: calm_db_def table_ok_def sample_row_def new_row_def calm_store_def sample_event_def)
  with removed_event_not_served [OF run ok, of "''1''" sample_row "calm_store (events_table w')"] load run
  show ?thesis by simp
qed

end
