(* ===== verification/Requests.thy ===== *)
theory Requests
  imports Logs Telemetry Http
begin

text \<open>
  What a request carries through the handlers: its context (\<open>pkg/ctxlogger\<close>,
  \<open>pkg/telemetry/context.go\<close>, \<open>pkg/auth/ctx.go\<close>), the auditor that logs through the logger of a
  context (\<open>pkg/httpclient\<close>), the type of a handler with its route
  (\<open>pkg/httpadapter\<close>) and what the program uses of \<open>http.ServeMux\<close>. A context is an interface value,
  \<open>None\<close> when it is nil; a value of it is present or not, and the logger in it is a pointer. A meter is
  known by its name.
\<close>

section \<open>Contexts\<close>

record ctx_values =
  ctx_User :: "string option"
  ctx_Logger :: "Logger option option"
  ctx_Meter :: "string option"

type_synonym go_ctx = "ctx_values option"

definition ctx_Background :: go_ctx where
  "ctx_Background = Some \<lparr>ctx_User = None, ctx_Logger = None, ctx_Meter = None\<rparr>"

definition nil_context :: error where
  "nil_context = ErrText ''invalid memory address or nil pointer dereference''"

definition nil_parent :: error where
  "nil_parent = ErrText ''cannot create context from nil parent''"

text \<open>\<open>context.WithValue\<close> panics on a nil parent, and \<open>ctx.Value\<close> on a nil interface.\<close>

definition with_value :: "(ctx_values \<Rightarrow> ctx_values) \<Rightarrow> go_ctx \<Rightarrow> go_ctx run" where
  "with_value f c = (case c of None \<Rightarrow> Panics nil_parent | Some v \<Rightarrow> Returns (Some (f v)))"

definition ctx_value :: "(ctx_values \<Rightarrow> 'v) \<Rightarrow> go_ctx \<Rightarrow> 'v run" where
  "ctx_value f c = (case c of None \<Rightarrow> Panics nil_context | Some v \<Rightarrow> Returns (f v))"

section \<open>The logger of a context (logger.go)\<close>

definition WithLogger :: "go_ctx \<Rightarrow> Logger option \<Rightarrow> go_ctx run" where
  "WithLogger c l = with_value (\<lambda>v. v\<lparr>ctx_Logger := Some l\<rparr>) c"

definition GetLogger :: "go_ctx \<Rightarrow> 'a log_world_scheme \<Rightarrow> Logger option run \<times> 'a log_world_scheme" where
  "GetLogger c w =
     (case ctx_value ctx_Logger c of
        Panics p \<Rightarrow> (Panics p, w)
      | Returns (Some l) \<Rightarrow> (Returns l, w)
      | Returns None \<Rightarrow> logs_Default w)"

section \<open>The auditor of the HTTP client (client_http_with_logger.go)\<close>

text \<open>What \<open>clienthttp\<close> hands to its auditor, of a request and of its response. The headers are the
  text \<open>slog\<close> makes of them, \<open>status_text\<close> is \<open>http.StatusText\<close>.\<close>

record AuditRequest =
  au_Method :: string
  au_URL :: string
  au_Headers :: string
  au_Body :: bytes

record AuditResponse =
  au_StatusCode :: int
  au_RespHeaders :: string
  au_RespBody :: bytes

text \<open>The logger is that of the context the client was created with; the context of the call is not
  used.\<close>

definition LoggerAuditor_Log :: "(int \<Rightarrow> string) \<Rightarrow> go_ctx \<Rightarrow> go_ctx \<Rightarrow> AuditRequest \<Rightarrow> AuditResponse
    \<Rightarrow> 'a log_world_scheme \<Rightarrow> unit run \<times> 'a log_world_scheme" where
  "LoggerAuditor_Log status_text a_ctx ctx req resp w =
     (case GetLogger a_ctx w of
        (Panics p, w1) \<Rightarrow> (Panics p, w1)
      | (Returns logger, w1) \<Rightarrow>
          (case Logger_Info logger ''HTTP client request started''
                  [''method'', au_Method req, ''url'', au_URL req, ''headers'', au_Headers req,
                   ''body'', au_Body req] w1 of
             (Panics p, w2) \<Rightarrow> (Panics p, w2)
           | (Returns _, w2) \<Rightarrow>
               Logger_Info logger ''HTTP client request completed''
                 [''method'', au_Method req, ''url'', au_URL req,
                  ''status_code'', itoa (au_StatusCode resp), ''status'', status_text (au_StatusCode resp),
                  ''response_headers'', au_RespHeaders resp, ''response_body'', au_RespBody resp] w2))"

text \<open>Every exchange is logged as two records, the request before its response, or not at all when
  the level of the logger is above the one of information.\<close>

lemma LoggerAuditor_Log_records:
  assumes "a_ctx = Some v" and "ctx_Logger v = Some (Some lg)"
    and "LoggerAuditor_Log status_text a_ctx ctx req resp w = (r, w')"
  shows "r = Returns ()"
    and "calls w' = calls w @
      (if lg_level lg \<le> 0
       then [Other ''log'' (''HTTP client request started'' # lg_attrs lg @
               [''method'', au_Method req, ''url'', au_URL req, ''headers'', au_Headers req,
                ''body'', au_Body req]),
             Other ''log'' (''HTTP client request completed'' # lg_attrs lg @
               [''method'', au_Method req, ''url'', au_URL req,
                ''status_code'', itoa (au_StatusCode resp), ''status'', status_text (au_StatusCode resp),
                ''response_headers'', au_RespHeaders resp, ''response_body'', au_RespBody resp])]
       else [])"
  using assms
  by (auto simp: LoggerAuditor_Log_def GetLogger_def ctx_value_def Logger_Info_def log_at_def tell_def
      split: if_splits)

section \<open>The meter of a context (context.go)\<close>

definition WithMeter :: "go_ctx \<Rightarrow> string \<Rightarrow> go_ctx run" where
  "WithMeter c m = with_value (\<lambda>v. v\<lparr>ctx_Meter := Some m\<rparr>) c"

text \<open>A warning on a nil logger panics.\<close>

definition MeterFromContext :: "go_ctx \<Rightarrow> 'a log_world_scheme \<Rightarrow> string run \<times> 'a log_world_scheme" where
  "MeterFromContext c w =
     (case GetLogger c w of
        (Panics p, w1) \<Rightarrow> (Panics p, w1)
      | (Returns l, w1) \<Rightarrow>
          (let default = (\<lambda>msg.
             case Logger_Warn l msg [] w1 of
               (Panics p, w2) \<Rightarrow> (Panics p, w2) | (Returns _, w2) \<Rightarrow> (Returns ''default'', w2))
           in case c of
                None \<Rightarrow> default ''context is nil when getting meter from context''
              | Some v \<Rightarrow>
                  (case ctx_Meter v of
                     Some m \<Rightarrow> (Returns m, w1)
                   | None \<Rightarrow> default ''meter not found in context'')))"

section \<open>The authenticated user of a context (ctx.go)\<close>

definition WithUser :: "go_ctx \<Rightarrow> string \<Rightarrow> go_ctx run" where
  "WithUser c username = with_value (\<lambda>v. v\<lparr>ctx_User := Some username\<rparr>) c"

definition UserFromContext :: "go_ctx \<Rightarrow> (string \<times> bool) run" where
  "UserFromContext c =
     (case ctx_value ctx_User c of
        Panics p \<Rightarrow> Panics p
      | Returns None \<Rightarrow> Returns ([], False)
      | Returns (Some u) \<Rightarrow> Returns (u, True))"

definition MustUserFromContext :: "go_ctx \<Rightarrow> string run" where
  "MustUserFromContext c =
     (case UserFromContext c of
        Panics p \<Rightarrow> Panics p
      | Returns (username, ok) \<Rightarrow>
          (if \<not> ok then Panics (ErrText ''authenticated user not found in context'')
           else Returns username))"

definition HasUser :: "go_ctx \<Rightarrow> bool run" where
  "HasUser c =
     (case UserFromContext c of Panics p \<Rightarrow> Panics p | Returns (_, ok) \<Rightarrow> Returns ok)"

text \<open>What was put into a context is found in it, and the other values stay.\<close>

lemma context_values:
  assumes "WithUser c u = Returns c1" and "WithLogger c l = Returns c2" and "WithMeter c m = Returns c3"
  shows "UserFromContext c1 = Returns (u, True)" "MustUserFromContext c1 = Returns u" "HasUser c1 = Returns True"
    and "GetLogger c2 w = (Returns l, w)" "UserFromContext c2 = UserFromContext c"
    and "UserFromContext c3 = UserFromContext c" "GetLogger c1 w = GetLogger c w"
    and "GetLogger c3 w = GetLogger c w"
  using assms
  by (auto simp: WithUser_def WithLogger_def WithMeter_def with_value_def UserFromContext_def
      MustUserFromContext_def HasUser_def GetLogger_def ctx_value_def split: option.splits)

text \<open>The check for a nil context in \<open>MeterFromContext\<close> is never reached: the logger is asked
  for first, which panics.\<close>

lemma MeterFromContext_nil: "MeterFromContext None w = (Panics nil_context, w)"
  by (simp add: MeterFromContext_def GetLogger_def ctx_value_def)

text \<open>A context with a logger and a meter gives that meter and logs nothing.\<close>

lemma MeterFromContext_found:
  assumes "ctx_Meter v = Some m" and "ctx_Logger v = Some l"
  shows "MeterFromContext (Some v) w = (Returns m, w)"
  using assms by (simp add: MeterFromContext_def GetLogger_def ctx_value_def Let_def)

section \<open>Requests and handlers\<close>

record request =
  req_Method :: string
  req_Path :: string
  req_Query :: "string list gomap"
  req_Header :: header
  req_RemoteAddr :: string
  req_Body :: bytes
  req_PathValues :: "string gomap"
  req_ctx :: go_ctx

text \<open>A handler writes to the response it is given; a panic ends the request without one.\<close>

type_synonym 'w http_handler = "request \<Rightarrow> response \<Rightarrow> 'w \<Rightarrow> response run \<times> 'w"

record 'w HttpHandle =
  hh_Path :: string
  hh_Handler :: "'w http_handler"

definition PathValue :: "request \<Rightarrow> string \<Rightarrow> string" where
  "PathValue r k = go_lookup (req_PathValues r) k"

text \<open>The models of the handlers start from an empty response. On a writer that has headers they set
  theirs beside them; none of them reads or removes a header that was set before.\<close>

definition on_writer :: "response \<Rightarrow> response \<Rightarrow> response" where
  "on_writer w r =
     \<lparr>hdr = go_put_all (hdr r) (hdr w),
      committed = (case committed w of
          Some c \<Rightarrow> Some c
        | None \<Rightarrow> map_option (\<lambda>(code, h). (code, go_put_all h (hdr w))) (committed r)),
      body = body w @ body r, explicit = explicit w @ explicit r\<rparr>"

lemma on_writer_simps [simp, http_simps]:
  "committed w = None \<Longrightarrow> status_of (on_writer w r) = status_of r"
  "explicit w = [] \<Longrightarrow> recorded (on_writer w r) = recorded r"
  "body (on_writer w r) = body w @ body r" "explicit (on_writer w r) = explicit w @ explicit r"
  by (auto simp: on_writer_def status_of_def recorded_def split: option.splits)

section \<open>Routes\<close>

text \<open>The patterns of \<open>http.ServeMux\<close>: an optional method and a path of literal segments and
  wildcards. The path of a request is clean (the multiplexer redirects the others before matching).
  A wildcard matches one non-empty segment; \<open>GET\<close> matches \<open>HEAD\<close> too.\<close>

definition split_pattern :: "string \<Rightarrow> string option \<times> string" where
  "split_pattern p =
     (case str_split2 (CHR '' '') p of [m, path] \<Rightarrow> (Some m, path) | _ \<Rightarrow> (None, p))"

definition method_matches :: "string option \<Rightarrow> string \<Rightarrow> bool" where
  "method_matches m meth \<longleftrightarrow>
     (case m of None \<Rightarrow> True | Some x \<Rightarrow> x = meth \<or> x = ''GET'' \<and> meth = ''HEAD'')"

definition wildcard :: "string \<Rightarrow> string option" where
  "wildcard seg =
     (if has_prefix ''{'' seg \<and> has_suffix ''}'' seg then Some (butlast (tl seg)) else None)"

fun match_segments :: "string list \<Rightarrow> string list \<Rightarrow> string gomap option" where
  "match_segments [] [] = Some []"
| "match_segments (p # ps) (s # ss) =
     (case wildcard p of
        None \<Rightarrow> if p = s then match_segments ps ss else None
      | Some n \<Rightarrow> if s = [] then None else map_option (\<lambda>m. (n, s) # m) (match_segments ps ss))"
| "match_segments _ _ = None"

definition match_path :: "string \<Rightarrow> string \<Rightarrow> string gomap option" where
  "match_path p path = match_segments (str_split (CHR ''/'') p) (str_split (CHR ''/'') path)"

definition route_matches :: "string \<Rightarrow> request \<Rightarrow> bool" where
  "route_matches pattern r \<longleftrightarrow>
     (case split_pattern pattern of (m, p) \<Rightarrow>
        method_matches m (req_Method r) \<and> match_path p (req_Path r) \<noteq> None)"

text \<open>Serving a request: the handler of the route that matches gets the values of the wildcards. When
  only the method is wrong the answer is 405 (its \<open>Allow\<close> header is left out).\<close>

definition serve_route :: "'w HttpHandle \<Rightarrow> 'w http_handler" where
  "serve_route h r =
     hh_Handler h (r\<lparr>req_PathValues :=
       (case match_path (snd (split_pattern (hh_Path h))) (req_Path r) of None \<Rightarrow> [] | Some m \<Rightarrow> m)\<rparr>)"

definition mux_serve :: "'w HttpHandle list \<Rightarrow> 'w http_handler" where
  "mux_serve routes r resp w =
     (case find (\<lambda>h. route_matches (hh_Path h) r) routes of
        Some h \<Rightarrow> serve_route h r resp w
      | None \<Rightarrow>
          (if \<exists>h\<in>set routes. match_path (snd (split_pattern (hh_Path h))) (req_Path r) \<noteq> None
           then (Returns (http_error ''Method Not Allowed'' 405 resp), w)
           else (Returns (http_error ''404 page not found'' 404 resp), w)))"

lemma match_segments_length: "match_segments ps ss = Some m \<Longrightarrow> length ps = length ss"
  by (induction ps ss arbitrary: m rule: match_segments.induct) (auto split: option.splits if_splits)

text \<open>Where a pattern has a literal, the path has it too.\<close>

lemma match_segments_literal:
  "match_segments ps ss = Some m \<Longrightarrow> i < length ps \<Longrightarrow> wildcard (ps ! i) = None \<Longrightarrow> ss ! i = ps ! i"
proof (induction ps ss arbitrary: m i rule: match_segments.induct)
  case (2 p ps s ss)
  then show ?case by (cases i) (auto split: option.splits if_splits)
qed simp_all

end
