(* ===== verification/Auth.thy ===== *)
theory Auth
  imports Requests Base64
begin

text \<open>
  \<open>pkg/auth/basic.go\<close>: basic authentication against a map of users and passwords. The handler is a
  pointer to a map; the operations that change it return the new map.
\<close>

definition ErrMissingAuthHeader :: error where
  "ErrMissingAuthHeader = ErrNew ''ErrMissingAuthHeader'' ''missing authorization header''"

definition ErrInvalidAuthHeader :: error where
  "ErrInvalidAuthHeader = ErrNew ''ErrInvalidAuthHeader'' ''invalid authorization header format''"

definition ErrInvalidCredentials :: error where
  "ErrInvalidCredentials = ErrNew ''ErrInvalidCredentials'' ''invalid username or password''"

definition ErrUnsupportedAuthType :: error where
  "ErrUnsupportedAuthType = ErrNew ''ErrUnsupportedAuthType'' ''unsupported authorization type''"

record BasicAuth =
  users :: "string gomap"

definition NewBasicAuth :: "string gomap option \<Rightarrow> BasicAuth" where
  "NewBasicAuth us = \<lparr>users = (case us of None \<Rightarrow> [] | Some m \<Rightarrow> m)\<rparr>"

definition AddUser :: "string \<Rightarrow> string \<Rightarrow> BasicAuth \<Rightarrow> BasicAuth" where
  "AddUser username password ba = ba\<lparr>users := go_put username password (users ba)\<rparr>"

definition RemoveUser :: "string \<Rightarrow> BasicAuth \<Rightarrow> BasicAuth" where
  "RemoveUser username ba = ba\<lparr>users := go_delete username (users ba)\<rparr>"

text \<open>\<open>subtle.ConstantTimeCompare\<close> is 0 for different lengths, else it collects the differing bits.\<close>

definition ConstantTimeCompare :: "bytes \<Rightarrow> bytes \<Rightarrow> nat" where
  "ConstantTimeCompare x y =
     (if length x \<noteq> length y then 0
      else if fold (\<lambda>(a, b) v. v \<or> a \<noteq> b) (zip x y) False then 0 else 1)"

definition ValidateCredentials :: "BasicAuth \<Rightarrow> string \<Rightarrow> string \<Rightarrow> bool" where
  "ValidateCredentials ba username password =
     (case go_get (users ba) username of
        None \<Rightarrow> False
      | Some storedPassword \<Rightarrow> ConstantTimeCompare password storedPassword = 1)"

definition basicPrefix :: string where
  "basicPrefix = ''Basic ''"

definition ParseBasicAuth :: "string \<Rightarrow> (string \<times> string) result" where
  "ParseBasicAuth authHeader =
     (if authHeader = [] then Inl ErrMissingAuthHeader
      else if \<not> has_prefix basicPrefix authHeader then Inl ErrUnsupportedAuthType
      else let encoded = trim_prefix basicPrefix authHeader
           in if encoded = [] then Inl ErrInvalidAuthHeader
              else (case b64_decode encoded of
                      None \<Rightarrow> Inl ErrInvalidAuthHeader
                    | Some credentials \<Rightarrow>
                        (case str_split2 (CHR '':'') credentials of
                           [username, password] \<Rightarrow> Inr (username, password)
                         | _ \<Rightarrow> Inl ErrInvalidAuthHeader)))"

definition Authenticate :: "BasicAuth \<Rightarrow> string \<Rightarrow> string result" where
  "Authenticate ba authHeader =
     (case ParseBasicAuth authHeader of
        Inl e \<Rightarrow> Inl e
      | Inr (username, password) \<Rightarrow>
          if \<not> ValidateCredentials ba username password then Inl ErrInvalidCredentials
          else Inr username)"

definition refuse :: "response \<Rightarrow> response" where
  "refuse w = http_error ''Unauthorized'' 401
     (set_header ''WWW-Authenticate'' ''Basic realm=\"Restricted\"'' w)"

definition Auth_Middleware :: "BasicAuth \<Rightarrow> 'w http_handler \<Rightarrow> 'w http_handler" where
  "Auth_Middleware ba next r w s =
     (case Authenticate ba (header_get (req_Header r) ''Authorization'') of
        Inl err \<Rightarrow> (Returns (refuse w), s)
      | Inr username \<Rightarrow>
          (case WithUser (req_ctx r) username of
             Panics p \<Rightarrow> (Panics p, s)
           | Returns ctx \<Rightarrow> next (r\<lparr>req_ctx := ctx\<rparr>) w s))"

definition RequireAuth :: "BasicAuth \<Rightarrow> response \<Rightarrow> request \<Rightarrow> (string \<times> bool) \<times> response" where
  "RequireAuth ba w r =
     (case Authenticate ba (header_get (req_Header r) ''Authorization'') of
        Inl err \<Rightarrow> (([], False), refuse w)
      | Inr username \<Rightarrow> ((username, True), w))"

section \<open>Comparing and parsing\<close>

lemma fold_differs:
  "length x = length y \<Longrightarrow> fold (\<lambda>(a, b) v. v \<or> a \<noteq> b) (zip x y) d \<longleftrightarrow> d \<or> x \<noteq> y"
  by (induction x y arbitrary: d rule: list_induct2) auto

lemma ConstantTimeCompare_eq [simp]: "ConstantTimeCompare x y = Suc 0 \<longleftrightarrow> x = y"
  by (auto simp: ConstantTimeCompare_def fold_differs)

lemma str_split2_pair:
  "str_split2 c s = [u, v] \<longleftrightarrow> s = u @ c # v \<and> c \<notin> set u"
proof
  assume split: "str_split2 c s = [u, v]"
  then have c: "c \<in> set s" by (auto simp: str_split2_def split: if_splits)
  with split have u: "u = takeWhile (\<lambda>x. x \<noteq> c) s" and v: "v = tl (dropWhile (\<lambda>x. x \<noteq> c) s)"
    by (auto simp: str_split2_def)
  from c have d: "dropWhile (\<lambda>x. x \<noteq> c) s \<noteq> []" by (simp add: dropWhile_eq_Nil_conv)
  then have "hd (dropWhile (\<lambda>x. x \<noteq> c) s) = c" by (metis (mono_tags, lifting) hd_dropWhile)
  with d have "dropWhile (\<lambda>x. x \<noteq> c) s = c # v" by (metis v list.collapse)
  then show "s = u @ c # v \<and> c \<notin> set u"
    using u by (metis takeWhile_dropWhile_id set_takeWhileD)
qed (simp add: str_split2_append)

lemma ParseBasicAuth_iff:
  "ParseBasicAuth h = Inr (u, p) \<longleftrightarrow>
     (\<exists>e. h = basicPrefix @ e \<and> e \<noteq> [] \<and> b64_decode e = Some (u @ CHR '':'' # p) \<and> CHR '':'' \<notin> set u)"
proof
  assume a: "ParseBasicAuth h = Inr (u, p)"
  then obtain e where h: "h = basicPrefix @ e"
    by (auto simp: ParseBasicAuth_def has_prefix_iff split: if_splits)
  with a show "\<exists>e. h = basicPrefix @ e \<and> e \<noteq> [] \<and> b64_decode e = Some (u @ CHR '':'' # p) \<and> CHR '':'' \<notin> set u"
    by (auto simp: ParseBasicAuth_def Let_def str_split2_pair [symmetric] split: if_splits option.splits list.splits)
next
  assume "\<exists>e. h = basicPrefix @ e \<and> e \<noteq> [] \<and> b64_decode e = Some (u @ CHR '':'' # p) \<and> CHR '':'' \<notin> set u"
  then obtain e where "h = basicPrefix @ e" "e \<noteq> []" "b64_decode e = Some (u @ CHR '':'' # p)" "CHR '':'' \<notin> set u"
    by blast
  then show "ParseBasicAuth h = Inr (u, p)" by (simp add: ParseBasicAuth_def Let_def str_split2_append)
qed

section \<open>Who is let in\<close>

lemma Authenticate_iff:
  "Authenticate ba h = Inr u \<longleftrightarrow>
     (\<exists>p. ParseBasicAuth h = Inr (u, p) \<and> go_get (users ba) u = Some p)"
  by (auto simp: Authenticate_def ValidateCredentials_def split: sum.splits option.splits if_splits)

text \<open>Claim C35: a header authenticates a user exactly when it is \<open>Basic\<close> followed by base64 text of the
  name, without a colon in it, a colon, and the password stored for that name; the password may hold
  further colons.\<close>

theorem Authenticate_correct:
  "Authenticate ba h = Inr u \<longleftrightarrow>
     (\<exists>e p. h = ''Basic '' @ e \<and> b64_decode e = Some (u @ CHR '':'' # p) \<and> CHR '':'' \<notin> set u \<and>
        go_get (users ba) u = Some p)"
proof -
  have "b64_decode [] \<noteq> Some (u @ CHR '':'' # p)" for p by (simp add: b64_decode_def)
  then show ?thesis unfolding Authenticate_iff ParseBasicAuth_iff basicPrefix_def by blast
qed

text \<open>What a client sends with the stored password is accepted, after adding the user and until it is
  removed.\<close>

definition basic_header :: "string \<Rightarrow> string \<Rightarrow> string" where
  "basic_header u p = basicPrefix @ b64_encode (u @ CHR '':'' # p)"

lemma ParseBasicAuth_header:
  assumes "CHR '':'' \<notin> set u"
  shows "ParseBasicAuth (basic_header u p) = Inr (u, p)"
proof -
  have "b64_encode (u @ CHR '':'' # p) \<noteq> []"
    by (metis b64_roundtrip append_is_Nil_conv b64_encode.simps(1) list.distinct(1) option.inject)
  with assms show ?thesis unfolding ParseBasicAuth_iff basic_header_def by auto
qed

text \<open>Adding, replacing and removing a user takes effect on the next request: the header
  built from a name and a password is accepted when that password was the last one added for the name
  and the name was not removed since, and is refused as invalid credentials otherwise; other users
  are not affected.\<close>

lemma Authenticate_users:
  assumes "CHR '':'' \<notin> set u"
  shows "Authenticate (AddUser u p ba) (basic_header u q) = (if q = p then Inr u else Inl ErrInvalidCredentials) \<and>
    Authenticate (RemoveUser u ba) (basic_header u q) = Inl ErrInvalidCredentials \<and>
    (\<forall>v. CHR '':'' \<notin> set v \<and> v \<noteq> u \<longrightarrow>
       Authenticate (AddUser u p ba) (basic_header v q) = Authenticate ba (basic_header v q) \<and>
       Authenticate (RemoveUser u ba) (basic_header v q) = Authenticate ba (basic_header v q))"
  using assms
  by (simp_all add: Authenticate_def ParseBasicAuth_header ValidateCredentials_def AddUser_def RemoveUser_def)

text \<open>The middleware lets the handler run with the user in the context, or answers 401 with the
  challenge and the handler does not run: the state is as before.\<close>

lemma Auth_Middleware_cases:
  assumes "req_ctx r = Some v"
  shows "Auth_Middleware ba next r w s =
    (case Authenticate ba (header_get (req_Header r) ''Authorization'') of
       Inl e \<Rightarrow> (Returns (refuse w), s)
     | Inr u \<Rightarrow> next (r\<lparr>req_ctx := Some (v\<lparr>ctx_User := Some u\<rparr>)\<rparr>) w s)"
  using assms by (auto simp: Auth_Middleware_def WithUser_def with_value_def split: sum.splits)

lemma refuse_status:
  assumes "committed w = None"
  shows "status_of (refuse w) = 401"
  using assms by (simp add: refuse_def)

end
