(* ===== verification/Middleware.thy ===== *)
theory Middleware
  imports Requests
begin

text \<open>
  \<open>cmd/setup/middleware/middleware.go\<close>: the wrappers around the HTTP handlers (CORS headers, a logger in
  the context, metrics) and around the task handlers of asynq. The meter put into the context is known
  by its name; recording on it is a call of the world. The logger writes JSON, in which a duration is
  its number of nanoseconds and an error its message.
\<close>

section \<open>Cross-origin requests\<close>

record CORSConfig =
  AllowedOrigins :: "string list"
  AllowedMethods :: "string list"
  AllowedHeaders :: "string list"
  ExposedHeaders :: "string list"
  AllowCredentials :: bool
  MaxAge :: int

definition DefaultCORSConfig :: CORSConfig where
  "DefaultCORSConfig = \<lparr>AllowedOrigins = [''*''],
     AllowedMethods = [''GET'', ''PATCH'', ''POST'', ''PUT'', ''DELETE'', ''OPTIONS''],
     AllowedHeaders = [''Content-Type'', ''Authorization'', ''X-Requested-With''],
     ExposedHeaders = [], AllowCredentials = False, MaxAge = 86400\<rparr>"

text \<open>\<open>for i, x := range xs { if i > 0 { acc += ", " }; acc += x }\<close>\<close>

fun comma_list :: "nat \<Rightarrow> string \<Rightarrow> string list \<Rightarrow> string" where
  "comma_list i acc [] = acc"
| "comma_list i acc (x # xs) = comma_list (Suc i) ((if i > 0 then acc @ '', '' else acc) @ x) xs"

definition header_list :: "string \<Rightarrow> string list \<Rightarrow> response \<Rightarrow> response" where
  "header_list k xs w = (if length xs > 0 then set_header k (comma_list 0 [] xs) w else w)"

definition CORSMiddlewareWithConfig :: "CORSConfig \<Rightarrow> 'w http_handler \<Rightarrow> 'w http_handler" where
  "CORSMiddlewareWithConfig config next r w s =
     (let origin = header_get (req_Header r) ''Origin'';
          w1 = (if AllowedOrigins config = [''*''] then set_header ''Access-Control-Allow-Origin'' ''*'' w
                else if origin \<noteq> [] \<and> origin \<in> set (AllowedOrigins config)
                then set_header ''Access-Control-Allow-Origin'' origin w
                else w);
          w2 = header_list ''Access-Control-Allow-Methods'' (AllowedMethods config) w1;
          w3 = header_list ''Access-Control-Allow-Headers'' (AllowedHeaders config) w2;
          w4 = header_list ''Access-Control-Expose-Headers'' (ExposedHeaders config) w3;
          w5 = (if AllowCredentials config then set_header ''Access-Control-Allow-Credentials'' ''true'' w4 else w4);
          w6 = (if MaxAge config > 0 then set_header ''Access-Control-Max-Age'' (itoa (MaxAge config)) w5 else w5)
      in if req_Method r = ''OPTIONS'' then (Returns (write_header 204 w6), s)
         else next r (set_header ''Content-Type'' ''application/json'' w6) s)"

definition CORSMiddleware :: "'w http_handler \<Rightarrow> 'w http_handler" where
  "CORSMiddleware next = CORSMiddlewareWithConfig DefaultCORSConfig next"

section \<open>The logger and the metrics of a request\<close>

definition LoggerMiddleware :: "'a log_world_scheme http_handler \<Rightarrow> 'a log_world_scheme http_handler" where
  "LoggerMiddleware next r w s =
     (let w1 = set_header ''Content-Type'' ''application/json'' w
      in case logs_With [''method'', req_Method r, ''path'', req_Path r, ''remote_addr'', req_RemoteAddr r,
                         ''user_agent'', header_get (req_Header r) ''User-Agent'',
                         ''request_id'', header_get (req_Header r) ''X-Request-ID''] s of
           (Panics p, s1) \<Rightarrow> (Panics p, s1)
         | (Returns logger, s1) \<Rightarrow>
             (case WithLogger (req_ctx r) logger of
                Panics p \<Rightarrow> (Panics p, s1)
              | Returns ctx \<Rightarrow> next (r\<lparr>req_ctx := ctx\<rparr>) w1 s1))"

text \<open>\<open>statusRecorder\<close>: it starts at 200 and keeps the code of every call of \<open>WriteHeader\<close> made through
  it, before handing the call on.\<close>

definition statusRecorder_code :: "response \<Rightarrow> response \<Rightarrow> nat" where
  "statusRecorder_code w w' =
     (let codes = drop (length (explicit w)) (explicit w') in if codes = [] then 200 else last codes)"

definition MetricsMiddleware :: "string \<Rightarrow> 'a log_world_scheme http_handler \<Rightarrow> 'a log_world_scheme http_handler" where
  "MetricsMiddleware serviceName next r w s =
     (if req_Path r = ''/metrics'' \<or> req_Path r = ''/health'' then next r w s
      else let (start, s0) = time_now s
           in case WithMeter (req_ctx r) serviceName of
                Panics p \<Rightarrow> (Panics p, s0)
              | Returns ctx \<Rightarrow>
                  (case next (r\<lparr>req_ctx := ctx\<rparr>) w s0 of
                     (Panics p, s1) \<Rightarrow> (Panics p, s1)
                   | (Returns w', s1) \<Rightarrow>
                       (let (stop, s2) = time_now s1;
                            attrs = [(''http.method'', AStr (req_Method r)), (''http.route'', AStr (req_Path r)),
                                     (''http.response_code'', AInt (int (statusRecorder_code w w'))),
                                     (''service.name'', AStr serviceName)];
                            s3 = Metric_Increment HTTPServerRequests attrs s2;
                            s4 = Metric_Record HTTPServerRequestDuration (stop - start) attrs s3
                        in (Returns w', s4))))"

section \<open>Task handlers\<close>

record Task =
  task_Type :: string
  task_Payload :: bytes

type_synonym 'w asynq_handler = "go_ctx \<Rightarrow> Task \<Rightarrow> 'w \<Rightarrow> error option run \<times> 'w"

text \<open>\<open>uuid.New()\<close> panics when there is no randomness.\<close>

definition uuid_New :: "'a world_scheme \<Rightarrow> string run \<times> 'a world_scheme" where
  "uuid_New w =
     (case ask NewUUID w of (r, w1) \<Rightarrow>
        (case r of GotText t \<Rightarrow> Returns t | Failed e \<Rightarrow> Panics e | _ \<Rightarrow> Returns [], w1))"

definition AsynqLogger :: "'a log_world_scheme asynq_handler \<Rightarrow> 'a log_world_scheme asynq_handler" where
  "AsynqLogger h ctx t w =
     (let (start, w0) = time_now w
      in case uuid_New w0 of
           (Panics p, w1) \<Rightarrow> (Panics p, w1)
         | (Returns request_id, w1) \<Rightarrow>
             (case logs_With [''task_type'', task_Type t, ''task_payload'', task_Payload t,
                              ''request_id'', request_id] w1 of
                (Panics p, w2) \<Rightarrow> (Panics p, w2)
              | (Returns logger, w2) \<Rightarrow>
                  (case Logger_Info logger ''Start processing'' [] w2 of
                     (Panics p, w3) \<Rightarrow> (Panics p, w3)
                   | (Returns _, w3) \<Rightarrow>
                       (case WithLogger ctx logger of
                          Panics p \<Rightarrow> (Panics p, w3)
                        | Returns ctx' \<Rightarrow>
                            (case h ctx' t w3 of
                               (Panics p, w4) \<Rightarrow> (Panics p, w4)
                             | (Returns (Some err), w4) \<Rightarrow>
                                 (case Logger_Error logger ''Error processing task'' [''error'', error_msg err] w4 of
                                    (Panics p, w5) \<Rightarrow> (Panics p, w5)
                                  | (Returns _, w5) \<Rightarrow> (Returns (Some err), w5))
                             | (Returns None, w4) \<Rightarrow>
                                 (let (stop, w5) = time_now w4
                                  in case Logger_Info logger ''Finished processing''
                                            [''elapsed_time'', itoa (stop - start)] w5 of
                                       (Panics p, w6) \<Rightarrow> (Panics p, w6)
                                     | (Returns _, w6) \<Rightarrow> (Returns None, w6)))))))"

text \<open>The deferred \<open>Decrement\<close> runs when the handler returns and when it panics.\<close>

definition AsynqMetrics :: "'a log_world_scheme asynq_handler \<Rightarrow> 'a log_world_scheme asynq_handler" where
  "AsynqMetrics next ctx t w =
     (case WithMeter ctx ''task-consumer'' of
        Panics p \<Rightarrow> (Panics p, w)
      | Returns ctx' \<Rightarrow>
          (let attrs = [(''task.event_name'', AStr (task_Type t))];
               w1 = Metric_Increment TaskConsumerTotalProcessing attrs w;
               (r, w3) =
                 (case next ctx' t w1 of
                    (Panics p, w2) \<Rightarrow> (Panics p, w2)
                  | (Returns (Some err), w2) \<Rightarrow>
                      (Returns (Some err), Metric_Count TaskConsumerTotalFailure 1 attrs w2)
                  | (Returns None, w2) \<Rightarrow>
                      (Returns None, Metric_Count TaskConsumerTotalSuccess 1 attrs w2))
           in (r, Metric_Decrement TaskConsumerTotalProcessing attrs w3)))"

section \<open>CORS\<close>

lemma comma_list_Suc: "comma_list (Suc i) acc xs = acc @ concat (map (\<lambda>x. '', '' @ x) xs)"
  by (induction xs arbitrary: i acc) simp_all

lemma str_join_prepend: "str_join sep ((c # x) # xs) = c # str_join sep (x # xs)"
  by (cases xs) simp_all

lemma comma_list_join: "comma_list 0 [] xs = str_join '', '' xs"
proof (cases xs)
  case (Cons x ys)
  have "x @ concat (map (\<lambda>x. '', '' @ x) ys) = str_join '', '' (x # ys)"
    by (induction ys arbitrary: x) (simp_all add: str_join_prepend)
  with Cons show ?thesis by (simp add: comma_list_Suc)
qed simp

text \<open>The header map a request leaves the middleware with: the value of one key.\<close>

definition cors_writer :: "CORSConfig \<Rightarrow> string \<Rightarrow> response \<Rightarrow> response" where
  "cors_writer config origin w =
     (let w1 = (if AllowedOrigins config = [''*''] then set_header ''Access-Control-Allow-Origin'' ''*'' w
                else if origin \<noteq> [] \<and> origin \<in> set (AllowedOrigins config)
                then set_header ''Access-Control-Allow-Origin'' origin w
                else w);
          w2 = header_list ''Access-Control-Allow-Methods'' (AllowedMethods config) w1;
          w3 = header_list ''Access-Control-Allow-Headers'' (AllowedHeaders config) w2;
          w4 = header_list ''Access-Control-Expose-Headers'' (ExposedHeaders config) w3;
          w5 = (if AllowCredentials config then set_header ''Access-Control-Allow-Credentials'' ''true'' w4 else w4)
      in if MaxAge config > 0 then set_header ''Access-Control-Max-Age'' (itoa (MaxAge config)) w5 else w5)"

lemma CORS_cases:
  "CORSMiddlewareWithConfig config next r w s =
     (let w' = cors_writer config (header_get (req_Header r) ''Origin'') w
      in if req_Method r = ''OPTIONS'' then (Returns (write_header 204 w'), s)
         else next r (set_header ''Content-Type'' ''application/json'' w') s)"
  by (simp only: CORSMiddlewareWithConfig_def cors_writer_def Let_def)

lemma header_list_keeps [simp]:
  "committed (header_list k xs w) = committed w" "explicit (header_list k xs w) = explicit w"
  "body (header_list k xs w) = body w"
  by (simp_all add: header_list_def)

lemma cors_writer_keeps [simp]:
  "committed (cors_writer c o' w) = committed w" "explicit (cors_writer c o' w) = explicit w"
  "body (cors_writer c o' w) = body w"
  by (simp_all add: cors_writer_def Let_def)

lemma header_get_set_header:
  "canonical_key k = k' \<Longrightarrow> header_get (hdr (set_header k v w)) key = (if canonical_key key = k' then v else header_get (hdr w) key)"
  by (simp add: set_header_def)

lemma cors_keys:
  "canonical_key ''Access-Control-Allow-Origin'' = ''Access-Control-Allow-Origin''"
  "canonical_key ''Access-Control-Allow-Methods'' = ''Access-Control-Allow-Methods''"
  "canonical_key ''Access-Control-Allow-Headers'' = ''Access-Control-Allow-Headers''"
  "canonical_key ''Access-Control-Expose-Headers'' = ''Access-Control-Expose-Headers''"
  "canonical_key ''Access-Control-Allow-Credentials'' = ''Access-Control-Allow-Credentials''"
  "canonical_key ''Access-Control-Max-Age'' = ''Access-Control-Max-Age''"
  "canonical_key ''Content-Type'' = ''Content-Type''"
  by (code_simp)+

lemma header_get_list:
  "canonical_key k = k' \<Longrightarrow> header_get (hdr (header_list k xs w)) key =
     (if canonical_key key = k' \<and> xs \<noteq> [] then str_join '', '' xs else header_get (hdr w) key)"
  by (simp add: header_list_def header_get_set_header comma_list_join)

lemma header_get_empty [simp]: "header_get [] k = []"
  by (simp add: header_get_def)

lemma cors_writer_headers:
  assumes "hdr w = []"
  shows "header_get (hdr (cors_writer config origin w)) ''Access-Control-Allow-Origin'' =
      (if AllowedOrigins config = [''*''] then ''*''
       else if origin \<in> set (AllowedOrigins config) then origin else [])"
    and "header_get (hdr (cors_writer config origin w)) ''Access-Control-Allow-Credentials'' =
      (if AllowCredentials config then ''true'' else [])"
    and "header_get (hdr (cors_writer config origin w)) ''Access-Control-Allow-Methods'' =
      str_join '', '' (AllowedMethods config)"
  using assms
  by (simp_all add: cors_writer_def Let_def header_get_set_header cors_keys header_get_list header_get_empty)

text \<open>Claim C37: the allowed origin a response carries is the star when the star is the whole list, else
  the origin of the request when the list holds it, and nothing otherwise; credentials are allowed only
  when configured and the methods are the configured ones. A preflight request is answered 204 without
  running the handler; every other request runs it, with these headers already set.\<close>

theorem CORS_correct:
  assumes "hdr w = []" and "committed w = None"
    and "CORSMiddlewareWithConfig config next r w s = (res, s')"
  shows "\<exists>w'. header_get (hdr w') ''Access-Control-Allow-Origin'' =
        (if AllowedOrigins config = [''*''] then ''*''
         else if header_get (req_Header r) ''Origin'' \<in> set (AllowedOrigins config)
         then header_get (req_Header r) ''Origin'' else []) \<and>
      header_get (hdr w') ''Access-Control-Allow-Credentials'' = (if AllowCredentials config then ''true'' else []) \<and>
      header_get (hdr w') ''Access-Control-Allow-Methods'' = str_join '', '' (AllowedMethods config) \<and>
      (if req_Method r = ''OPTIONS'' then res = Returns w' \<and> status_of w' = 204 \<and> body w' = body w \<and> s' = s
       else committed w' = None \<and> next r w' s = (res, s'))"
proof -
  let ?c = "cors_writer config (header_get (req_Header r) ''Origin'') w"
  show ?thesis
  proof (cases "req_Method r = ''OPTIONS''")
    case True
    with assms show ?thesis
      by (intro exI [of _ "write_header 204 ?c"]) (auto simp: CORS_cases Let_def cors_writer_headers)
  next
    case False
    with assms show ?thesis
      by (intro exI [of _ "set_header ''Content-Type'' ''application/json'' ?c"])
        (auto simp: CORS_cases Let_def cors_writer_headers header_get_set_header cors_keys)
  qed
qed

definition preflight_request :: request where
  "preflight_request = \<lparr>req_Method = ''OPTIONS'', req_Path = ''/api/v1/events'', req_Query = [],
     req_Header = header_set ''Origin'' ''http://a'' [], req_RemoteAddr = [], req_Body = [],
     req_PathValues = [], req_ctx = ctx_Background\<rparr>"

theorem CORS_correct_witness:
  "\<exists>w'. CORSMiddleware (\<lambda>r w s. (Panics nil_logger, s)) preflight_request new_response calm_world = (Returns w', calm_world) \<and>
     status_of w' = 204 \<and> header_get (hdr w') ''Access-Control-Allow-Origin'' = ''*''"
proof -
  obtain res s' where run: "CORSMiddlewareWithConfig DefaultCORSConfig (\<lambda>r w s. (Panics nil_logger, s)) preflight_request
      new_response calm_world = (res, s')"
    by (metis prod.collapse)
  have "req_Method preflight_request = ''OPTIONS''" "AllowedOrigins DefaultCORSConfig = [''*'']"
    by (simp_all add: preflight_request_def DefaultCORSConfig_def)
  with CORS_correct [OF _ _ run] show ?thesis by (auto simp: CORSMiddleware_def run)
qed

section \<open>Metrics\<close>

text \<open>The values recorded on an instrument, in order.\<close>

definition measured :: "'a world_scheme \<Rightarrow> (string \<times> int \<times> attrs) list" where
  "measured w = concat (map (\<lambda>c. case c of Measure k n v as \<Rightarrow> [(n, v, as)] | _ \<Rightarrow> []) (calls w))"

definition instruments_work :: "'a world_scheme \<Rightarrow> bool" where
  "instruments_work w \<longleftrightarrow> (\<forall>h k n d. err_of (answer w h (NewInstrument k n d)) = None)"

lemma measured_on_instrument:
  assumes "instruments_work w"
  shows "measured (on_instrument k m v as w) = measured w @ [(Name m, v, as)]"
    and "instruments_work (on_instrument k m v as w)"
proof -
  have "err_of (fst (ask (NewInstrument k (Name m) (Description m)) w)) = None"
    using assms by (simp add: instruments_work_def ask_def Let_def)
  then show "measured (on_instrument k m v as w) = measured w @ [(Name m, v, as)]"
    and "instruments_work (on_instrument k m v as w)"
    using assms by (simp_all add: on_instrument_eq case_prod_beta Let_def measured_def instruments_work_def)
qed

lemmas metric_defs = Metric_Increment_def Metric_Decrement_def Metric_Count_def Metric_Record_def

lemma measured_metric [simp]:
  assumes "instruments_work w"
  shows "measured (Metric_Increment m as w) = measured w @ [(Name m, 1, as)]"
    and "measured (Metric_Decrement m as w) = measured w @ [(Name m, - 1, as)]"
    and "measured (Metric_Count m v as w) = measured w @ [(Name m, v, as)]"
    and "measured (Metric_Record m v as w) = measured w @ [(Name m, v, as)]"
    and "instruments_work (Metric_Increment m as w)" "instruments_work (Metric_Decrement m as w)"
    and "instruments_work (Metric_Count m v as w)" "instruments_work (Metric_Record m v as w)"
  using assms by (simp_all add: metric_defs measured_on_instrument)

lemma measured_time_now [simp]:
  "time_now w = (t, w') \<Longrightarrow> measured w' = measured w"
  "time_now w = (t, w') \<Longrightarrow> instruments_work w' = instruments_work w"
  by (auto simp: time_now_def ask_def Let_def measured_def calls_def instruments_work_def split: prod.splits reply.splits)


text \<open>A handler that counts its own work, for a concrete run.\<close>

definition counting_handler :: "'a log_world_scheme asynq_handler" where
  "counting_handler c t w = (Returns None, Metric_Count TaskConsumerRetries 1 [] w)"

definition calm_log :: log_world where
  "calm_log = \<lparr>history = [], answer = (\<lambda>_ _. Done), package_cfg = sample_cfg, env_vars = (\<lambda>c. (None, c)),
     defaultLogger = None, log_once = False\<rparr>"


section \<open>What the HTTP metrics say\<close>

text \<open>The measured status is the code of the last call of \<open>WriteHeader\<close>, which is the one sent only
  when it is also the first.\<close>

lemma MetricsMiddleware_effect:
  assumes "req_Path r \<noteq> ''/metrics''" and "req_Path r \<noteq> ''/health''" and "req_ctx r = Some c"
    and "instruments_work s"
    and "next (r\<lparr>req_ctx := Some (c\<lparr>ctx_Meter := Some serviceName\<rparr>)\<rparr>) w (snd (time_now s)) = (Returns w', s1)"
    and "instruments_work s1" and "MetricsMiddleware serviceName next r w s = (res, s')"
  shows "res = Returns w' \<and> (\<exists>d. measured s' = measured s1 @
      [(''http_server_requests_total'', 1,
          [(''http.method'', AStr (req_Method r)), (''http.route'', AStr (req_Path r)),
           (''http.response_code'', AInt (int (statusRecorder_code w w'))), (''service.name'', AStr serviceName)]),
       (''http_server_request_duration_seconds'', d,
          [(''http.method'', AStr (req_Method r)), (''http.route'', AStr (req_Path r)),
           (''http.response_code'', AInt (int (statusRecorder_code w w'))), (''service.name'', AStr serviceName)])])"
proof -
  obtain start s0 where t0: "time_now s = (start, s0)" by (cases "time_now s")
  obtain stop s2 where t1: "time_now s1 = (stop, s2)" by (cases "time_now s1")
  have s2: "instruments_work s2" "measured s2 = measured s1" using assms(6) t1 by simp_all
  from assms(5) have n: "next (r\<lparr>req_ctx := Some (c\<lparr>ctx_Meter := Some serviceName\<rparr>)\<rparr>) w s0 = (Returns w', s1)"
    by (simp add: t0)
  show ?thesis
    using assms(1-3,7) s2
    by (auto simp: MetricsMiddleware_def t0 t1 WithMeter_def with_value_def n Let_def
        HTTPServerRequests_def HTTPServerRequestDuration_def)
qed

lemma statusRecorder_new: "statusRecorder_code new_response w = recorded w"
  by (simp add: statusRecorder_code_def recorded_def Let_def)

end
