(* ===== verification/Services.thy ===== *)
theory Services
  imports Middleware Lifecycle
begin

text \<open>
  \<open>cmd/api\<close> and \<open>cmd/setup\<close>: how the program is put together. The HTTP servers with their routes and
  middleware, the workers of the two queues, and \<open>main\<close>, which starts the services of a scope and
  shuts them down. Clients of third parties are created and closed by calls of the world; a
  goroutine that only serves is the call that starts it.
\<close>

section \<open>HTTP servers (httpsvc/http_api.go)\<close>

record 'w Server =
  srv_Addr :: string
  srv_Handler :: "'w http_handler"
  ReadTimeout :: int
  WriteTimeout :: int
  IdleTimeout :: int

text \<open>The route of the metrics; \<open>promhttp\<close> is the handler of the Prometheus library.\<close>

definition metrics_handler_of :: "'w http_handler \<Rightarrow> metrics_handler \<Rightarrow> 'w http_handler" where
  "metrics_handler_of promhttp h r resp w =
     (case h of
        NotInitialized \<Rightarrow>
          (Returns (write_body (''# metrics not initialized'' @ [CHR 0x0A]) (write_header 200 resp)), w)
      | MetricsDisabled \<Rightarrow>
          (Returns (write_body (''# metrics disabled'' @ [CHR 0x0A]) (write_header 200 resp)), w)
      | Prometheus \<Rightarrow> promhttp r resp w)"

definition metrics_route :: "'w http_handler \<Rightarrow> 'w HttpHandle" where
  "metrics_route handler = \<lparr>hh_Path = ''/metrics'', hh_Handler = handler\<rparr>"

definition health_route :: "'w HttpHandle" where
  "health_route = \<lparr>hh_Path = ''GET /api/v1/ping'',
     hh_Handler = (\<lambda>r resp w. (Returns (on_writer resp GetHealthCheckHandler), w))\<rparr>"

definition with_middleware :: "string \<Rightarrow> 'a log_world_scheme http_handler \<Rightarrow> 'a log_world_scheme http_handler" where
  "with_middleware serviceName mux = CORSMiddleware (MetricsMiddleware serviceName (LoggerMiddleware mux))"

definition StartHttpServer :: "'a log_world_scheme http_handler \<Rightarrow> 'a log_world_scheme HttpHandle list
    \<Rightarrow> string \<Rightarrow> string \<Rightarrow> 'a log_world_scheme \<Rightarrow> 'a log_world_scheme Server \<times> 'a log_world_scheme" where
  "StartHttpServer metrics routes port serviceName w =
     (let mux = mux_serve (metrics_route metrics # routes @ [health_route]);
          server = \<lparr>srv_Addr = port, srv_Handler = with_middleware serviceName mux,
                    ReadTimeout = seconds 10, WriteTimeout = 200000000, IdleTimeout = seconds 60\<rparr>
      in (server, tell (Other ''ListenAndServe'' [port]) w))"

section \<open>The backoffice (backoffice/httpserver.go)\<close>

definition route :: "string \<Rightarrow> (request \<Rightarrow> 'w \<Rightarrow> response \<times> 'w) \<Rightarrow> 'w HttpHandle" where
  "route path f = \<lparr>hh_Path = path,
     hh_Handler = (\<lambda>r resp w. case f r w of (x, w1) \<Rightarrow> (Returns (on_writer resp x), w1))\<rparr>"

definition route_run :: "string \<Rightarrow> (request \<Rightarrow> 'w \<Rightarrow> response run \<times> 'w) \<Rightarrow> 'w HttpHandle" where
  "route_run path f = \<lparr>hh_Path = path,
     hh_Handler = (\<lambda>r resp w. case f r w of
        (Panics p, w1) \<Rightarrow> (Panics p, w1) | (Returns x, w1) \<Rightarrow> (Returns (on_writer resp x), w1))\<rparr>"

definition backoffice_routes :: "(string \<Rightarrow> string option) \<Rightarrow> 'a db_world_scheme HttpHandle list" where
  "backoffice_routes parse_uuid =
     [health_route,
      route_run ''PUT /api/v1/event/consumer'' (\<lambda>r. SaveConsumerHandle (req_Body r)),
      route ''GET /api/v1/events/{event_name}'' (\<lambda>r. GetEvent (PathValue r ''event_name'')),
      route ''GET /api/v1/events'' (\<lambda>r. GetEvents (req_Query r)),
      route ''POST /events/schedule/archived'' (\<lambda>r. GetRegisterTaskConsumerArchived parse_uuid (req_Body r)),
      route ''DELETE /api/v1/event/{id}'' (\<lambda>r. RemoveEvent parse_uuid (PathValue r ''id'')),
      route ''/api/v1/insights'' (\<lambda>r. GetInsightsHandle Store_GetAll)]"

definition backoffice_Start :: "(string \<Rightarrow> string option) \<Rightarrow> 'a db_world_scheme http_handler
    \<Rightarrow> 'a db_world_scheme \<Rightarrow> 'a db_world_scheme Server run \<times> 'a db_world_scheme" where
  "backoffice_Start parse_uuid metrics w =
     (let mux = mux_serve (metrics_route metrics # backoffice_routes parse_uuid);
          handler = with_middleware BACKOFFICE_APP_NAME mux
      in case Cfg_Get w of
           (Panics p, w1) \<Rightarrow> (Panics p, w1)
         | (Returns env, w1) \<Rightarrow>
             (let port = ServerPort_String (BackofficeApiPort env)
              in (Returns \<lparr>srv_Addr = port, srv_Handler = handler, ReadTimeout = seconds 10,
                          WriteTimeout = seconds 15, IdleTimeout = seconds 60\<rparr>,
                  tell (Other ''ListenAndServe'' [port]) w1)))"

section \<open>The metrics of the handlers\<close>

text \<open>The configuration was read when the process started; that it panics later is left out.\<close>

definition run_error :: "error option run \<times> 'w \<Rightarrow> error option \<times> 'w" where
  "run_error x = (case x of (Panics p, w) \<Rightarrow> (Some p, w) | (Returns e, w) \<Rightarrow> (e, w))"

definition store_published :: "'a log_world_scheme publisher_insights" where
  "store_published m w = run_error (Store_Published Cfg_Get m w)"

definition store_consumed :: "'a log_world_scheme consumer_insights" where
  "store_consumed m w = run_error (Store_Consumed Cfg_Get m w)"

section \<open>The task service (task/base.go, consumer.go, http_api.go)\<close>

record 'w AsynqHandle =
  ah_TopicName :: string
  ah_Handler :: "'w asynq_handler"

definition to_asynq :: "string \<times> 'w handler \<Rightarrow> 'w AsynqHandle" where
  "to_asynq h = \<lparr>ah_TopicName = fst h,
     ah_Handler = (\<lambda>c t w. case snd h (task_Payload t) w of (e, w1) \<Rightarrow> (Returns e, w1))\<rparr>"

definition task_events :: "'a store_world_scheme AsynqHandle list" where
  "task_events = [to_asynq (ToAsynqHandler (GetRequestHandle Notify store_consumed))]"

text \<open>The table of the multiplexer: every topic with its handler, inside the logger and the metrics.\<close>

definition task_mux :: "(string \<times> 'a store_world_scheme asynq_handler) list" where
  "task_mux = map (\<lambda>e. (BuildTopicName domain_ProjectID (ah_TopicName e), AsynqLogger (AsynqMetrics (ah_Handler e))))
     task_events"

text \<open>The worker runs until the context ends, then the server of asynq is shut down.\<close>

definition task_consumer :: "signal list \<Rightarrow> 'a world_scheme \<Rightarrow> 'a world_scheme" where
  "task_consumer ctx w =
     (let w1 = tell (Other ''asynq.Run'' []) w
      in if CtxDone \<in> set ctx then tell (Other ''asynq.Shutdown'' []) w1 else w1)"

definition task_routes :: "'a store_world_scheme HttpHandle list" where
  "task_routes = [route ''POST /api/v1/task''
     (\<lambda>r. PublisherEvent MemStore_GetEvent Task_Publish store_published (req_Body r))]"

text \<open>What a started service keeps for later: its server and the client that is closed at the end. Its
  stores and publishers are the functions its routes and handlers use.\<close>

record 'w Service =
  svc_server :: "'w Server"
  svc_client :: string

text \<open>The order of \<open>Start\<close>: the client and the worker, the events, the refreshing, the server. An
  error of the first loading of the events is dropped. The worker and the refreshing go on in
  goroutines of their own: \<open>task_consumer\<close> and \<open>SyncMemStore\<close>.\<close>

definition task_Start :: "'a store_world_scheme http_handler \<Rightarrow> Config \<Rightarrow> 'a store_world_scheme
    \<Rightarrow> 'a store_world_scheme Service \<times> 'a store_world_scheme" where
  "task_Start metrics env w =
     (let addr = CacheAddr (config_cache env);
          w1 = tell (Other ''asynq.NewClient'' [addr]) w;
          w2 = tell (Other ''asynq.NewServer'' [addr, itoa (Concurrency (asynq_config env))]) w1;
          w3 = tell (Other ''go task.consumer'' []) w2;
          w4 = snd (LoadInMemStore GetAllEvents w3);
          w5 = tell (Other ''go SyncMemStore'' []) w4;
          (server, w6) = StartHttpServer metrics task_routes (ServerPort_String (TaskApiPort env)) TASK_APP_NAME w5
      in (\<lparr>svc_server = server, svc_client = ''asynq''\<rparr>, w6))"

definition Service_Close :: "'w Service \<Rightarrow> 'a world_scheme \<Rightarrow> 'a world_scheme" where
  "Service_Close s w = tell (Other ''client.Close'' [svc_client s]) w"

definition Service_Server :: "'w Service \<Rightarrow> 'w Server" where
  "Service_Server s = svc_server s"

section \<open>The Pub/Sub service (pubsub/base.go, consumer.go, http_api.go)\<close>

record 'w gpubsub_Handle =
  gp_TopicName :: string
  gp_Handler :: "Message \<Rightarrow> 'w \<Rightarrow> (ack_call list \<times> unit run) \<times> 'w"

definition to_gpubsub :: "'a world_scheme Handle \<Rightarrow> 'a world_scheme gpubsub_Handle" where
  "to_gpubsub h = \<lparr>gp_TopicName = EventName h, gp_Handler = ToGPubSubHandler h PubSubGoogle_Publish\<rparr>"

definition pubsub_handlers :: "'a store_world_scheme gpubsub_Handle list" where
  "pubsub_handlers =
     [to_gpubsub (NewDeadLatterQueue MemStore_GetAllSchedulers Notify),
      to_gpubsub (pubsub_GetRequestHandle Notify store_consumed)]"

definition exists_or_create :: "string \<Rightarrow> string \<Rightarrow> string list \<Rightarrow> 'a world_scheme
    \<Rightarrow> bool \<times> 'a world_scheme" where
  "exists_or_create kind name args w =
     (case ask (Other (kind @ ''.Exists'') [name]) w of
        (Failed e, w1) \<Rightarrow> (False, w1)
      | (GotInt n, w1) \<Rightarrow>
          if n = 0
          then (case ask_err (Other (''Create'' @ kind) (name # args)) w1 of
                  (Some e, w2) \<Rightarrow> (False, w2) | (None, w2) \<Rightarrow> (True, w2))
          else (True, w1)
      | (_, w1) \<Rightarrow> (True, w1))"

text \<open>The goroutine of one handler, up to the receiving of messages; whether it gets there.\<close>

definition subscribe :: "int \<Rightarrow> 'w gpubsub_Handle \<Rightarrow> 'a world_scheme \<Rightarrow> bool \<times> 'a world_scheme" where
  "subscribe concurrency h w =
     (let topicName = BuildTopicName domain_ProjectID (gp_TopicName h)
      in case exists_or_create ''Topic'' topicName [] w of
           (False, w1) \<Rightarrow> (False, w1)
         | (True, w1) \<Rightarrow>
             (let subscriptionName = BuildSubscriptionName topicName
              in case exists_or_create ''Subscription'' subscriptionName [topicName, itoa (seconds 20)] w1 of
                   (False, w2) \<Rightarrow> (False, w2)
                 | (True, w2) \<Rightarrow>
                     (True, tell (Other ''Receive'' [subscriptionName, itoa concurrency]) w2)))"

text \<open>The goroutines of the handlers are independent; here they run one after the other.\<close>

fun pubsub_consumer :: "int \<Rightarrow> 'w gpubsub_Handle list \<Rightarrow> 'a world_scheme \<Rightarrow> bool list \<times> 'a world_scheme" where
  "pubsub_consumer concurrency [] w = ([], w)"
| "pubsub_consumer concurrency (h # hs) w =
     (let (b, w1) = subscribe concurrency h w;
          (bs, w2) = pubsub_consumer concurrency hs w1
      in (b # bs, w2))"

text \<open>The end of the worker. \<open>ends\<close> are the times at which the subscribers returned, in nanoseconds
  from the end of the context, \<open>None\<close> for one that never does; a subscriber that failed before
  counts from there. The worker returns when all have returned, or after 30 seconds; \<open>tie\<close> says what
  \<open>select\<close> picks when both happen at once. The result is the time of the return and whether the
  worker stopped gracefully.\<close>

fun last_end :: "int option list \<Rightarrow> int option" where
  "last_end [] = Some 0"
| "last_end (e # es) =
     (case (e, last_end es) of (Some t, Some u) \<Rightarrow> Some (max t u) | _ \<Rightarrow> None)"

definition drain :: "bool \<Rightarrow> int option list \<Rightarrow> int \<times> bool" where
  "drain tie ends =
     (case last_end ends of
        Some t \<Rightarrow> if t < seconds 30 \<or> t = seconds 30 \<and> tie then (t, True) else (seconds 30, False)
      | None \<Rightarrow> (seconds 30, False))"

text \<open>The worker from its start: the subscribers, then the wait for the end of the context, which may
  never come.\<close>

definition pubsub_worker :: "int \<Rightarrow> 'a store_world_scheme gpubsub_Handle list \<Rightarrow> signal list \<Rightarrow> bool
    \<Rightarrow> int option list \<Rightarrow> 'a store_world_scheme \<Rightarrow> (int \<times> bool) option \<times> 'a store_world_scheme" where
  "pubsub_worker concurrency handlers ctx tie ends w =
     (case pubsub_consumer concurrency handlers w of (bs, w1) \<Rightarrow>
        (if CtxDone \<in> set ctx then (Some (drain tie ends), w1) else (None, w1)))"

lemma last_end_Some: "last_end es = Some t \<Longrightarrow> 0 \<le> t \<and> (\<forall>e\<in>set es. \<exists>u\<le>t. e = Some u)"
  by (induction es arbitrary: t) (fastforce split: option.splits)+

lemma last_end_before:
  "(\<forall>e\<in>set es. \<exists>u<b. e = Some u) \<Longrightarrow> 0 < b \<Longrightarrow> \<exists>t<b. last_end es = Some t"
  by (induction es) auto

text \<open>A worker whose context has ended returns within 30 seconds of it; it reports a graceful stop only
  when every subscriber has returned, and does so when they all return in time.\<close>

lemma pubsub_worker_stops:
  assumes "CtxDone \<in> set ctx" and "pubsub_worker c hs ctx tie ends w = (r, w')"
  obtains t graceful where "r = Some (t, graceful)" and "0 \<le> t" and "t \<le> seconds 30"
    and "graceful \<Longrightarrow> \<forall>e\<in>set ends. \<exists>u\<le>t. e = Some u"
    and "\<forall>e\<in>set ends. \<exists>u<seconds 30. e = Some u \<Longrightarrow> graceful"
proof -
  have r: "r = Some (drain tie ends)"
    using assms by (auto simp: pubsub_worker_def split: prod.splits)
  show ?thesis
  proof (rule that [of "fst (drain tie ends)" "snd (drain tie ends)"])
    show "snd (drain tie ends)" if "\<forall>e\<in>set ends. \<exists>u<seconds 30. e = Some u"
      using last_end_before [OF that] by (auto simp: drain_def seconds_def)
  qed (use r in \<open>auto simp: drain_def seconds_def dest!: last_end_Some split: option.splits if_splits\<close>)
qed

definition pubsub_routes :: "'a store_world_scheme HttpHandle list" where
  "pubsub_routes = [route ''POST /api/v1/pubsub''
     (\<lambda>r. pubsub_PublisherEvent MemStore_GetEvent PubSubGoogle_Publish store_published (req_Body r))]"

text \<open>The client publishes again on these codes, with a growing wait.\<close>

definition publish_retry :: "string list" where
  "publish_retry = [''Aborted'', ''Canceled'', ''Internal'', ''ResourceExhausted'', ''Unknown'', ''Unavailable'',
     ''DeadlineExceeded'', ''250ms'', ''5s'', ''1.45'']"

text \<open>\<open>log.Fatalf\<close> ends the process, as a panic does.\<close>

definition pubsub_Start :: "'a store_world_scheme http_handler \<Rightarrow> Config \<Rightarrow> 'a store_world_scheme
    \<Rightarrow> 'a store_world_scheme Service run \<times> 'a store_world_scheme" where
  "pubsub_Start metrics env w =
     (case ask_err (Other ''pubsub.NewClientWithConfig'' (domain_ProjectID # publish_retry)) w of
        (Some e, w1) \<Rightarrow> (Panics (errorf_v ''Erro ao criar cliente'' e), w1)
      | (None, w1) \<Rightarrow>
          (let w2 = tell (Other ''go pubsub.consumer'' []) w1;
               w3 = snd (LoadInMemStore GetAllEvents w2);
               w4 = tell (Other ''go SyncMemStore'' []) w3;
               (server, w5) =
                 StartHttpServer metrics pubsub_routes (ServerPort_String (PubsubApiPort env)) PUBSUB_APP_NAME w4
           in (Returns \<lparr>svc_server = server, svc_client = ''pubsub''\<rparr>, w5)))"

section \<open>The process (cmd/api/main.go)\<close>

definition scopeOrAll :: "string \<Rightarrow> string \<Rightarrow> bool" where
  "scopeOrAll scope expected \<longleftrightarrow> scope = ''all'' \<or> scope = expected"

definition NewPostgresStoreFromDSN :: "string \<Rightarrow> 'a world_scheme \<Rightarrow> error option \<times> 'a world_scheme" where
  "NewPostgresStoreFromDSN dsn w =
     (case ask_err (Other ''sql.Open'' [''postgres'', dsn]) w of
        (Some e, w1) \<Rightarrow> (Some (ErrWrap ''failed to open database connection'' e), w1)
      | (None, w1) \<Rightarrow>
          (case ask_err (Other ''db.Ping'' []) w1 of
             (Some e, w2) \<Rightarrow> (Some (ErrWrap ''failed to ping database'' e), w2)
           | (None, w2) \<Rightarrow> (None, w2)))"

fun shutdown_servers :: "'w Server list \<Rightarrow> 'a world_scheme \<Rightarrow> 'a world_scheme" where
  "shutdown_servers [] w = w"
| "shutdown_servers (s # ss) w =
     (case ask_err (Other ''server.Shutdown'' [srv_Addr s]) w of (err, w1) \<Rightarrow> shutdown_servers ss w1)"

text \<open>The first call returns when a signal has arrived or the context has ended.\<close>

definition waitForShutdown :: "'w Server list \<Rightarrow> 'a world_scheme \<Rightarrow> 'a world_scheme" where
  "waitForShutdown servers w = shutdown_servers servers (tell (Other ''wait for SIGINT, SIGTERM or ctx.Done'' []) w)"

text \<open>A service of the scope, or nothing.\<close>

definition when_scope :: "bool \<Rightarrow> ('w \<Rightarrow> 'v run \<times> 'w) \<Rightarrow> 'w \<Rightarrow> 'v list run \<times> 'w" where
  "when_scope b start w =
     (if b then (case start w of (Panics p, w1) \<Rightarrow> (Panics p, w1) | (Returns v, w1) \<Rightarrow> (Returns [v], w1))
      else (Returns [], w))"

definition start_services :: "(string \<Rightarrow> string option) \<Rightarrow> 'a store_world_scheme http_handler \<Rightarrow> string \<Rightarrow> Config
    \<Rightarrow> 'a store_world_scheme
    \<Rightarrow> ('a store_world_scheme Server list \<times> 'a store_world_scheme Service list) run \<times> 'a store_world_scheme" where
  "start_services parse_uuid metrics scope conf w =
     (case when_scope (scopeOrAll scope ''backoffice'') (backoffice_Start parse_uuid metrics) w of
        (Panics p, w1) \<Rightarrow> (Panics p, w1)
      | (Returns bs, w1) \<Rightarrow>
          (let w2 = (if scope = ''pubsub'' \<or> scope = ''task'' \<or> scope = ''all'' then NewMemStore w1 else w1)
           in case when_scope (scopeOrAll scope ''pubsub'') (pubsub_Start metrics conf) w2 of
                (Panics p, w3) \<Rightarrow> (Panics p, w3)
              | (Returns ps, w3) \<Rightarrow>
                  (case when_scope (scopeOrAll scope ''task'')
                          (\<lambda>v. case task_Start metrics conf v of (s, v1) \<Rightarrow> (Returns s, v1)) w3 of
                     (Panics p, w4) \<Rightarrow> (Panics p, w4)
                   | (Returns ts, w4) \<Rightarrow>
                       (Returns (bs @ map Service_Server ps @ map Service_Server ts, ps @ ts), w4))))"

text \<open>\<open>exporter\<close> is the error of the metrics exporter, if any; \<open>promhttp\<close> the handler of Prometheus.\<close>

definition main_start :: "(string \<Rightarrow> string option) \<Rightarrow> 'a store_world_scheme http_handler \<Rightarrow> error option \<Rightarrow> string
    \<Rightarrow> telemetry_state \<Rightarrow> 'a store_world_scheme
    \<Rightarrow> (('a store_world_scheme Server list \<times> 'a store_world_scheme Service list) run \<times> telemetry_state)
       \<times> 'a store_world_scheme" where
  "main_start parse_uuid promhttp exporter scope ts w =
     (case Cfg_Get w of
        (Panics p, w1) \<Rightarrow> ((Panics p, ts), w1)
      | (Returns conf, w1) \<Rightarrow>
          (case telemetry_New (MetricsEnabled conf) exporter ts of
             (Inl e, ts1) \<Rightarrow> ((Panics e, ts1), w1)
           | (Inr h, ts1) \<Rightarrow>
               (case ask_err RedisPing w1 of
                  (Some e, w2) \<Rightarrow> ((Panics e, ts1), w2)
                | (None, w2) \<Rightarrow>
                    (case NewPostgresStoreFromDSN (DbConn (config_database conf)) w2 of
                       (Some e, w3) \<Rightarrow> ((Panics e, ts1), w3)
                     | (None, w3) \<Rightarrow>
                         (case start_services parse_uuid (metrics_handler_of promhttp (telemetry_Handler ts1))
                                 scope conf w3 of
                            (r, w4) \<Rightarrow> ((r, ts1), w4))))))"

definition main_stop :: "'a store_world_scheme Server list \<Rightarrow> 'a store_world_scheme Service list
    \<Rightarrow> telemetry_state \<Rightarrow> 'a store_world_scheme \<Rightarrow> 'a store_world_scheme" where
  "main_stop servers closers ts w =
     (let w1 = waitForShutdown servers w;
          w2 = fold Service_Close closers w1
      in if provider ts then tell (Other ''telemetry.Shutdown'' []) w2 else w2)"

definition main :: "(string \<Rightarrow> string option) \<Rightarrow> 'a store_world_scheme http_handler \<Rightarrow> error option \<Rightarrow> string
    \<Rightarrow> 'a store_world_scheme \<Rightarrow> unit run \<times> 'a store_world_scheme" where
  "main parse_uuid promhttp exporter scope w =
     (case main_start parse_uuid promhttp exporter scope telemetry_init w of
        ((Panics p, ts), w1) \<Rightarrow> (Panics p, w1)
      | ((Returns (servers, closers), ts), w1) \<Rightarrow> (Returns (), main_stop servers closers ts w1))"

end
