(* ===== verification/Composition.thy ===== *)
theory Composition
  imports Services
begin

text \<open>
  The services as a whole: what the middleware, the routes, the workers and \<open>main\<close> make of the
  components. The interface \<open>outward_effect\<close> says what a service is judged by; through it the
  properties of the handlers become properties of the wired services.
\<close>

section \<open>A logger that works\<close>

text \<open>The default logger has been built, or the configuration it will be built from is accepted.\<close>

definition logs_ready :: "'a log_world_scheme \<Rightarrow> bool" where
  "logs_ready w \<longleftrightarrow>
     (if log_once w then defaultLogger w \<noteq> None else \<exists>c. fst (cfg_Get (env_vars w) (package_cfg w)) = Returns c)"

definition uuid_works :: "'a world_scheme \<Rightarrow> bool" where
  "uuid_works w \<longleftrightarrow> (\<forall>h. err_of (answer w h NewUUID) = None)"

lemma ready_ask [simp]: "logs_ready (snd (ask c w)) = logs_ready w" "uuid_works (snd (ask c v)) = uuid_works v"
  by (simp_all add: logs_ready_def ask_def Let_def uuid_works_def)

lemma ready_time:
  "time_now w = (t, w') \<Longrightarrow> logs_ready w' = logs_ready w" "time_now v = (t, v') \<Longrightarrow> uuid_works v' = uuid_works v"
  by (auto simp: time_now_def split: prod.splits dest!: arg_cong [where f = snd])

lemma ready_uuid: "uuid_New w = (i, w') \<Longrightarrow> logs_ready w' = logs_ready w"
  by (auto simp: uuid_New_def split: prod.splits dest!: arg_cong [where f = snd])

lemma uuid_New_works: "uuid_works w \<Longrightarrow> \<exists>i w1. uuid_New w = (Returns i, w1)"
  by (auto simp: uuid_New_def ask_def Let_def uuid_works_def err_of_def split: reply.splits)

lemma logs_With_ready:
  assumes "logs_ready w"
  shows "\<exists>l w1. logs_With args w = (Returns (Some l), w1) \<and> history w1 = history w \<and> answer w1 = answer w \<and>
    log_world.more w1 = log_world.more w"
proof (cases "log_once w")
  case True
  with assms show ?thesis
    by (auto simp: logs_ready_def logs_With_def on_default_def logs_Default_again Logger_With_def)
next
  case False
  with assms obtain c v where c: "cfg_Get (env_vars w) (package_cfg w) = (Returns c, v)"
    by (auto simp: logs_ready_def) (metis prod.collapse)
  then have "Cfg_Get (w\<lparr>log_once := True\<rparr>) = (Returns c, w\<lparr>log_once := True, package_cfg := v\<rparr>)"
    by (simp add: Cfg_Get_def)
  with False show ?thesis
    by (simp add: logs_With_def on_default_def logs_Default_first Logger_With_def)
qed

section \<open>What leaves the process\<close>

text \<open>The effects a service is judged by are the requests to consumers and the published messages, and
  what it keeps in its stores. Logging, metrics, the insights and the configuration change none of
  them.\<close>

definition outward :: "call \<Rightarrow> bool" where
  "outward c \<longleftrightarrow> is_post c \<or> is_publish c"

locale outward_effect =
  fixes effect :: "'a log_world_scheme \<Rightarrow> 'o"
  assumes inward: "\<not> outward c \<Longrightarrow> effect (snd (ask c w)) = effect w"
    and from_history: "history v = history w \<Longrightarrow> log_world.more v = log_world.more w \<Longrightarrow> effect v = effect w"
begin

lemma told: "\<not> outward c \<Longrightarrow> effect (tell c w) = effect w"
  by (simp add: tell_def inward)

lemma asked: "ask_err c w = (e, w') \<Longrightarrow> \<not> outward c \<Longrightarrow> effect w' = effect w"
  by (auto dest: ask_errD simp: inward)

lemma asked_time: "time_now w = (t, w') \<Longrightarrow> effect w' = effect w"
proof -
  assume "time_now w = (t, w')"
  then have "w' = snd (ask Now w)" by (auto simp: time_now_def split: prod.splits)
  then show ?thesis by (simp add: inward outward_def)
qed

lemma measured: "effect (on_instrument k m v as w) = effect w"
  by (auto simp: on_instrument_def told outward_def dest!: asked split: prod.splits option.splits)

lemma configured: "Cfg_Get w = (r, w') \<Longrightarrow> effect w' = effect w"
  by (rule from_history) (auto simp: Cfg_Get_def split: prod.splits)

lemma metrics:
  "effect (Metric_Increment m as w) = effect w" "effect (Metric_Decrement m as w) = effect w"
  "effect (Metric_Count m v as w) = effect w" "effect (Metric_Record m v as w) = effect w"
  by (simp_all add: metric_defs measured)

lemma keyed: "Store_key t vs w = (k, w') \<Longrightarrow> effect w' = effect w"
  by (auto simp: Store_key_def dest: asked_time split: prod.splits)

lemma grouped: "groupInsights Cfg_Get key w = (r, w') \<Longrightarrow> effect w' = effect w"
  by (auto simp: groupInsights_def outward_def split: prod.splits option.splits run.splits
      dest!: keyed asked configured)

lemma added: "add_metric Cfg_Get key p m1 m2 w = (r, w') \<Longrightarrow> effect w' = effect w"
  by (auto simp: add_metric_def outward_def split: prod.splits option.splits run.splits sum.splits
      dest!: asked_time asked configured)

lemma then_grouped: "then_group Cfg_Get key (b, w) = (r, w') \<Longrightarrow> effect w' = effect w"
  by (auto simp: then_group_def split: prod.splits run.splits dest!: grouped)

lemma stored_published: "effect (snd (store_published m w)) = effect w"
proof -
  obtain k w1 where k: "Store_key ''event-published'' [if pm_ACK m then ''success'' else ''failure'', pm_TopicName m] w = (k, w1)"
    by (metis prod.collapse)
  obtain b w2 where b: "add_metric Cfg_Get k (PublisherMetric_json m) ''failed to save publisher event''
      ''failed to set TTL for publisher event'' w1 = (b, w2)" by (metis prod.collapse)
  obtain r w3 where r: "then_group Cfg_Get k (b, w2) = (r, w3)" by (metis prod.collapse)
  have "snd (store_published m w) = w3"
    by (auto simp: store_published_def run_error_def Store_Published_def Let_def k b r split: run.splits)
  with keyed [OF k] added [OF b] then_grouped [OF r] show ?thesis by simp
qed

lemma stored_consumed: "effect (snd (store_consumed m w)) = effect w"
proof -
  obtain k w1 where k: "Store_key ''event-consumed'' [if cm_ACK m then ''success'' else ''failure'', cm_TopicName m,
      cm_ConsumerName m] w = (k, w1)"
    by (metis prod.collapse)
  obtain b w2 where b: "add_metric Cfg_Get k (ConsumerMetric_json m) ''failed to save consumed event''
      ''failed to set TTL for consumed event'' w1 = (b, w2)" by (metis prod.collapse)
  obtain r w3 where r: "then_group Cfg_Get k (b, w2) = (r, w3)" by (metis prod.collapse)
  have "snd (store_consumed m w) = w3"
    by (auto simp: store_consumed_def run_error_def Store_Consumed_def Let_def k b r split: run.splits)
  with keyed [OF k] added [OF b] then_grouped [OF r] show ?thesis by simp
qed

text \<open>What the wrappers of a task handler add is not outward, and the outcome is the handler's.\<close>

lemma logged_line: "Logger_Info (Some l) msg args w = (r, w') \<Longrightarrow> r = Returns () \<and> effect w' = effect w"
  by (auto simp: Logger_Info_def log_at_def told outward_def)

lemma logged_error: "Logger_Error (Some l) msg args w = (r, w') \<Longrightarrow> r = Returns () \<and> effect w' = effect w"
  by (auto simp: Logger_Error_def log_at_def told outward_def)

lemma logged_with: "logs_With args w = (r, w') \<Longrightarrow> logs_ready w \<Longrightarrow> (\<exists>l. r = Returns (Some l)) \<and> effect w' = effect w"
  using logs_With_ready [of w args] from_history [of w' w] by auto

lemma asked_uuid: "uuid_New w = (r, w') \<Longrightarrow> effect w' = effect w"
proof -
  assume "uuid_New w = (r, w')"
  then have "w' = snd (ask NewUUID w)" by (auto simp: uuid_New_def split: prod.splits)
  then show ?thesis by (simp add: inward outward_def)
qed

lemma logged_task:
  assumes "AsynqLogger h (Some c) t w = (r, w')" and "logs_ready w" and "uuid_works w"
  shows "\<exists>l w1 w2. effect w1 = effect w \<and> effect w' = effect w2 \<and>
    h (Some (c\<lparr>ctx_Logger := Some (Some l)\<rparr>)) t w1 = (r, w2)"
proof -
  obtain start w0 where t0: "time_now w = (start, w0)" by (cases "time_now w")
  with assms(2,3) have ready: "logs_ready w0" and works: "uuid_works w0" by (simp_all add: ready_time)
  obtain i w1 where u: "uuid_New w0 = (Returns i, w1)" using uuid_New_works [OF works] by blast
  have r1: "logs_ready w1" using ready u by (simp add: ready_uuid)
  let ?args = "[''task_type'', task_Type t, ''task_payload'', task_Payload t, ''request_id'', i]"
  obtain l w2 where l: "logs_With ?args w1 = (Returns (Some l), w2)" using logs_With_ready [OF r1] by blast
  obtain w3 where s: "Logger_Info (Some l) ''Start processing'' [] w2 = (Returns (), w3)"
    using logged_line by (metis prod.collapse)
  obtain r4 w4 where h: "h (Some (c\<lparr>ctx_Logger := Some (Some l)\<rparr>)) t w3 = (r4, w4)" by (metis prod.collapse)
  have e3: "effect w3 = effect w"
    using asked_time [OF t0] asked_uuid [OF u] logged_with [OF l r1] logged_line [OF s] by simp
  obtain stop w5 where t5: "time_now w4 = (stop, w5)" by (cases "time_now w4")
  have "r = r4 \<and> effect w' = effect w4"
    using assms(1) asked_time [OF t5]
    by (auto simp: AsynqLogger_def t0 u l s h t5 WithLogger_def with_value_def
        split: run.splits option.splits prod.splits dest!: logged_line logged_error)
  with h e3 show ?thesis by blast
qed

lemma measured_task:
  assumes "AsynqMetrics h (Some c) t w = (r, w')"
  shows "\<exists>m w1 w2. effect w1 = effect w \<and> effect w' = effect w2 \<and> h (Some (c\<lparr>ctx_Meter := Some m\<rparr>)) t w1 = (r, w2)"
proof -
  define w1 where "w1 = Metric_Increment TaskConsumerTotalProcessing [(''task.event_name'', AStr (task_Type t))] w"
  obtain r2 w2 where h: "h (Some (c\<lparr>ctx_Meter := Some ''task-consumer''\<rparr>)) t w1 = (r2, w2)" by (metis prod.collapse)
  have "r = r2 \<and> effect w' = effect w2"
    using assms
    by (auto simp: AsynqMetrics_def WithMeter_def with_value_def Let_def w1_def [symmetric] h metrics
        split: run.splits option.splits)
  moreover have "effect w1 = effect w" by (simp add: w1_def metrics)
  ultimately show ?thesis using h by blast
qed

text \<open>A request that is no preflight and not for the metrics reaches the multiplexer, on a response that
  carries the headers only, and what it answers is the answer.\<close>

lemma passed_on:
  assumes "with_middleware name mux r new_response w = (res, w')" and "req_Method r \<noteq> ''OPTIONS''"
    and "req_Path r \<noteq> ''/metrics''" and "req_Path r \<noteq> ''/health''" and "req_ctx r = Some c" and "logs_ready w"
  shows "\<exists>c1 resp w1 w2. effect w1 = effect w \<and> log_world.more w1 = log_world.more w \<and> effect w' = effect w2 \<and>
    committed resp = None \<and> body resp = [] \<and> explicit resp = [] \<and>
    header_get (hdr resp) ''Access-Control-Allow-Origin'' = ''*'' \<and>
    mux (r\<lparr>req_ctx := Some c1\<rparr>) resp w1 = (res, w2)"
proof -
  define resp0 where "resp0 = set_header ''Content-Type'' ''application/json''
    (cors_writer DefaultCORSConfig (header_get (req_Header r) ''Origin'') new_response)"
  define resp where "resp = set_header ''Content-Type'' ''application/json'' resp0"
  have cors: "with_middleware name mux r new_response w =
      MetricsMiddleware name (LoggerMiddleware mux) r resp0 w"
    using assms(2) by (simp add: with_middleware_def CORSMiddleware_def CORS_cases Let_def resp0_def)
  have props: "committed resp = None" "body resp = []" "explicit resp = []"
    "header_get (hdr resp) ''Access-Control-Allow-Origin'' = ''*''"
    by (simp_all add: resp_def resp0_def header_get_set_header cors_keys cors_writer_headers)
      (simp_all add: DefaultCORSConfig_def)
  obtain start w0 where t0: "time_now w = (start, w0)" by (cases "time_now w")
  have r0: "logs_ready w0" using assms(6) t0 by (simp add: ready_time)
  let ?r = "r\<lparr>req_ctx := Some (c\<lparr>ctx_Meter := Some name\<rparr>)\<rparr>"
  let ?args = "[''method'', req_Method r, ''path'', req_Path r, ''remote_addr'', req_RemoteAddr r,
    ''user_agent'', header_get (req_Header r) ''User-Agent'', ''request_id'', header_get (req_Header r) ''X-Request-ID'']"
  from logs_With_ready [OF r0, of ?args] obtain l w1 where l: "logs_With ?args w0 = (Returns (Some l), w1)"
    and more: "log_world.more w1 = log_world.more w0" by blast
  let ?c1 = "c\<lparr>ctx_Meter := Some name, ctx_Logger := Some (Some l)\<rparr>"
  obtain o' w2 where m: "mux (r\<lparr>req_ctx := Some ?c1\<rparr>) resp w1 = (o', w2)" by (metis prod.collapse)
  have lm: "LoggerMiddleware mux ?r resp0 w0 = (o', w2)"
    using m by (simp add: LoggerMiddleware_def l WithLogger_def with_value_def resp_def)
  obtain stop w3 where t3: "time_now w2 = (stop, w3)" by (cases "time_now w2")
  have "res = o' \<and> effect w' = effect w2"
    using assms(1,3-5) asked_time [OF t3] unfolding cors
    by (auto simp: MetricsMiddleware_def t0 t3 lm WithMeter_def with_value_def Let_def metrics split: run.splits)
  moreover have "log_world.more w1 = log_world.more w"
    using more t0 by (auto simp: time_now_def ask_def Let_def split: prod.splits)
  ultimately show ?thesis
    using m props asked_time [OF t0] logged_with [OF l r0] by (intro exI conjI) auto
qed

end

interpretation deliveries: outward_effect "delivered :: 'a log_world_scheme \<Rightarrow> call list"
  by unfold_locales (auto simp: outward_def delivered_def ask_history)

interpretation stores: outward_effect "log_world.more :: 'a log_world_scheme \<Rightarrow> 'a"
  by unfold_locales (simp_all add: ask_def Let_def)

interpretation publications: outward_effect "published :: 'a log_world_scheme \<Rightarrow> call list"
  by unfold_locales (auto simp: outward_def accepted_of_def accepted_def ask_history)

lemma quiet_stores:
  "quiet published (store_published :: 'a log_world_scheme publisher_insights)"
  "quiet delivered (store_consumed :: 'a log_world_scheme consumer_insights)"
  by (simp_all add: quiet_def publications.stored_published deliveries.stored_consumed)

section \<open>The routes\<close>

lemmas route_simps = route_matches_def split_pattern_def str_split2_def method_matches_def match_path_def
  wildcard_def has_prefix_def has_suffix_def

lemma task_api_route:
  assumes "req_Method r = ''POST''" and "req_Path r = ''/api/v1/task''"
  shows "mux_serve (metrics_route metrics # task_routes @ [health_route]) r resp w =
    (case PublisherEvent MemStore_GetEvent Task_Publish store_published (req_Body r) w of
       (x, w1) \<Rightarrow> (Returns (on_writer resp x), w1))"
  using assms
  by (simp add: mux_serve_def metrics_route_def task_routes_def route_def route_simps serve_route_def)

text \<open>Claim C1: the task API end to end. A POST request to \<open>/api/v1/task\<close> that goes through the server
  of the task service is answered, whatever the queue, the metrics and the insights do: 400 for a body
  that does not decode or validate, 404 for a name the memory store does not hold, and otherwise the
  tasks of the consumers of the event are queued in their order up to the first one the queue refuses,
  with 202 exactly when all were queued and 500 if not. Nothing else is queued.\<close>

theorem task_api_outcome:
  assumes "StartHttpServer metrics task_routes port TASK_APP_NAME v = (server, v')"
    and "req_Method r = ''POST''" and "req_Path r = ''/api/v1/task''" and "req_ctx r = Some c" and "logs_ready w"
    and "srv_Handler server r new_response w = (res, w')"
  shows "\<exists>resp. res = Returns resp \<and>
    (case decode into_InternalPayload zero_InternalPayload (req_Body r) of
       (_, Some e) \<Rightarrow> status_of resp = 400 \<and> published w' = published w
     | (payload, None) \<Rightarrow>
         if InternalPayload_Validate payload \<noteq> None then status_of resp = 400 \<and> published w' = published w
         else (case go_get (topicEvents w) (ip_EventName payload) of
             None \<Rightarrow> status_of resp = 404 \<and> published w' = published w
           | Some event \<Rightarrow> \<exists>n\<le>length (consumers_of event).
               published w' = published w @
                 map (\<lambda>c. AsynqEnqueue request_topic (task_body payload event c)
                        (NewDefaultOpt @ ToAsynqOptions (Option event))) (take n (consumers_of event)) \<and>
               status_of resp = (if n = length (consumers_of event) then 202 else 500)))"
proof -
  have run: "with_middleware TASK_APP_NAME (mux_serve (metrics_route metrics # task_routes @ [health_route]))
      r new_response w = (res, w')"
    using assms(1,6) by (auto simp: StartHttpServer_def Let_def)
  from publications.passed_on [OF run] assms(2-5) obtain c1 resp w1 w2 where
    e: "published w1 = published w" "log_world.more w1 = log_world.more w" "published w' = published w2"
      "committed resp = None" "body resp = []" "explicit resp = []"
    and m: "mux_serve (metrics_route metrics # task_routes @ [health_route]) (r\<lparr>req_ctx := Some c1\<rparr>) resp w1 = (res, w2)"
    by auto
  obtain x w3 where p: "PublisherEvent MemStore_GetEvent Task_Publish store_published (req_Body r) w1 = (x, w3)"
    by (metis prod.collapse)
  have res: "res = Returns (on_writer resp x)" "w3 = w2"
    using m assms(2,3) by (simp_all add: task_api_route p)
  have top: "topicEvents w1 = topicEvents w" using e(2) by (cases w1; cases w) simp
  have st: "status_of (on_writer resp x) = status_of x" using e(4) by simp
  have get: "fst (MemStore_GetEvent n (snd (time_now w1))) =
      (case go_get (topicEvents w) n of None \<Rightarrow> Inl EventNotFound | Some ev \<Rightarrow> Inr ev)" for n
    using top by (simp add: MemStore_GetEvent_now) (simp add: MemStore_GetEvent_def split: option.splits)
  note out = PublisherEvent_cases [OF quiet_MemStore quiet_stores(1) p, unfolded get]
  obtain payload err where d: "decode into_InternalPayload zero_InternalPayload (req_Body r) = (payload, err)"
    by (metis prod.collapse)
  have "published w' = published w3" "published w1 = published w" using e res(2) by simp_all
  note eqs = this
  show ?thesis
  proof (rule exI [of _ "on_writer resp x"], rule conjI [OF res(1)])
    show "case decode into_InternalPayload zero_InternalPayload (req_Body r) of
       (_, Some e) \<Rightarrow> status_of (on_writer resp x) = 400 \<and> published w' = published w
     | (payload, None) \<Rightarrow>
         if InternalPayload_Validate payload \<noteq> None
         then status_of (on_writer resp x) = 400 \<and> published w' = published w
         else (case go_get (topicEvents w) (ip_EventName payload) of
             None \<Rightarrow> status_of (on_writer resp x) = 404 \<and> published w' = published w
           | Some event \<Rightarrow> \<exists>n\<le>length (consumers_of event).
               published w' = published w @
                 map (\<lambda>c. AsynqEnqueue request_topic (task_body payload event c)
                        (NewDefaultOpt @ ToAsynqOptions (Option event))) (take n (consumers_of event)) \<and>
               status_of (on_writer resp x) = (if n = length (consumers_of event) then 202 else 500))"
      using out unfolding d st eqs
      by (cases err; cases "InternalPayload_Validate payload"; cases "go_get (topicEvents w) (ip_EventName payload)")
        (simp_all split del: if_split)
  qed
qed

definition sample_post :: request where
  "sample_post = \<lparr>req_Method = ''POST'', req_Path = ''/api/v1/task'', req_Query = [], req_Header = [],
     req_RemoteAddr = [], req_Body = sample_request, req_PathValues = [], req_ctx = ctx_Background\<rparr>"

definition sample_service_world :: store_world where
  "sample_service_world = (calm_store [])\<lparr>topicEvents := [(''paid'', sample_event)]\<rparr>"

lemma sample_service_ready: "logs_ready sample_service_world" "uuid_works sample_service_world"
  by (simp_all add: logs_ready_def uuid_works_def sample_service_world_def calm_store_def sample_cfg_def
      cfg_Get_def WQ_IsValid_def err_of_def)

theorem task_api_outcome_witness:
  "\<exists>resp w' n. srv_Handler (fst (StartHttpServer (\<lambda>r x w. (Returns x, w)) task_routes '':8083'' TASK_APP_NAME
       sample_service_world)) sample_post new_response sample_service_world = (Returns resp, w') \<and>
     n \<le> 1 \<and> length (published w') = length (published sample_service_world) + n \<and>
     status_of resp = (if n = 1 then 202 else 500)"
proof -
  let ?start = "StartHttpServer (\<lambda>r x w. (Returns x, w)) task_routes '':8083'' TASK_APP_NAME sample_service_world"
  obtain res w' where run: "srv_Handler (fst ?start) sample_post new_response sample_service_world = (res, w')"
    by (metis prod.collapse)
  have r: "req_Method sample_post = ''POST''" "req_Path sample_post = ''/api/v1/task''"
    "req_ctx sample_post = Some \<lparr>ctx_User = None, ctx_Logger = None, ctx_Meter = None\<rparr>" "req_Body sample_post = sample_request"
    by (simp_all add: sample_post_def ctx_Background_def)
  have p: "ip_EventName sample_payload = ''paid''" "InternalPayload_Validate sample_payload = None"
    "go_get (topicEvents sample_service_world) ''paid'' = Some sample_event" "length (consumers_of sample_event) = 1"
    by (simp_all add: sample_payload_def InternalPayload_Validate_def sample_service_world_def sample_event_def consumers_of_def)
  have start: "?start = (fst ?start, snd ?start)" by simp
  from task_api_outcome [OF start r(1-3) sample_service_ready(1) run, unfolded r(4)
      sample_request_decoded [folded sample_payload_def]] p
  obtain resp n where "res = Returns resp" "n \<le> 1" "status_of resp = (if n = 1 then 202 else 500)"
    and "length (published w') = length (published sample_service_world) + n"
    by auto
  with run show ?thesis by blast
qed

text \<open>A pattern without wildcards matches its own path only.\<close>

lemma match_segments_literals:
  "list_all (\<lambda>s. wildcard s = None) ps \<Longrightarrow> match_segments ps ss = (if ss = ps then Some [] else None)"
  by (induction ps ss rule: match_segments.induct) auto

lemma str_split_inj: "str_split c s = str_split c t \<longleftrightarrow> s = t"
  by (metis str_join_split)

lemma match_path_literal:
  "list_all (\<lambda>s. wildcard s = None) (str_split (CHR ''/'') p) \<Longrightarrow>
     match_path p path = (if path = p then Some [] else None)"
  by (simp add: match_path_def match_segments_literals str_split_inj)

definition literal_pattern :: "string \<Rightarrow> bool" where
  "literal_pattern p \<longleftrightarrow> list_all (\<lambda>s. wildcard s = None) (str_split (CHR ''/'') (snd (split_pattern p)))"

lemma route_matches_literal:
  "literal_pattern p \<Longrightarrow>
     route_matches p r \<longleftrightarrow> method_matches (fst (split_pattern p)) (req_Method r) \<and> req_Path r = snd (split_pattern p)"
  by (auto simp: literal_pattern_def route_matches_def match_path_literal split: prod.splits if_splits)

lemma literal_patterns:
  "literal_pattern ''/metrics''" "literal_pattern ''GET /api/v1/ping''" "literal_pattern ''POST /api/v1/task''"
  "literal_pattern ''POST /api/v1/pubsub''" "literal_pattern ''PUT /api/v1/event/consumer''"
  "literal_pattern ''GET /api/v1/events''" "literal_pattern ''POST /events/schedule/archived''"
  "literal_pattern ''/api/v1/insights''"
  by code_simp+

text \<open>With a wildcard at the end the segments before it are fixed.\<close>

lemma match_last_wildcard:
  assumes "match_segments [[], a, b, c, d] ss = Some m"
    and "wildcard [] = None" and "wildcard a = None" and "wildcard b = None" and "wildcard c = None"
  shows "\<exists>v. ss = [[], a, b, c, v]"
proof -
  have "length ss = 5" using match_segments_length [OF assms(1)] by simp
  then obtain s0 s1 s2 s3 s4 where s: "ss = [s0, s1, s2, s3, s4]"
    by (auto simp: length_Suc_conv eval_nat_numeral)
  from assms show ?thesis unfolding s by (auto split: if_splits option.splits)
qed

lemma event_patterns:
  "split_pattern ''GET /api/v1/events/{event_name}'' = (Some ''GET'', ''/api/v1/events/{event_name}'')"
  "str_split (CHR ''/'') ''/api/v1/events/{event_name}'' = [[], ''api'', ''v1'', ''events'', ''{event_name}'']"
  "split_pattern ''DELETE /api/v1/event/{id}'' = (Some ''DELETE'', ''/api/v1/event/{id}'')"
  "str_split (CHR ''/'') ''/api/v1/event/{id}'' = [[], ''api'', ''v1'', ''event'', ''{id}'']"
  "wildcard [] = None" "wildcard ''api'' = None" "wildcard ''v1'' = None" "wildcard ''events'' = None"
  "wildcard ''event'' = None"
  by code_simp+

lemma route_event_name:
  assumes "route_matches ''GET /api/v1/events/{event_name}'' r"
  shows "(req_Method r = ''GET'' \<or> req_Method r = ''HEAD'') \<and>
    (\<exists>v. str_split (CHR ''/'') (req_Path r) = [[], ''api'', ''v1'', ''events'', v])"
proof -
  from assms obtain m where m: "match_segments [[], ''api'', ''v1'', ''events'', ''{event_name}'']
      (str_split (CHR ''/'') (req_Path r)) = Some m" and g: "method_matches (Some ''GET'') (req_Method r)"
    unfolding route_matches_def event_patterns(1) prod.case match_path_def event_patterns(2) by blast
  from match_last_wildcard [OF m] event_patterns g show ?thesis by (auto simp: method_matches_def)
qed

lemma route_event_id:
  assumes "route_matches ''DELETE /api/v1/event/{id}'' r"
  shows "req_Method r = ''DELETE'' \<and>
    (\<exists>v. str_split (CHR ''/'') (req_Path r) = [[], ''api'', ''v1'', ''event'', v])"
proof -
  from assms obtain m where m: "match_segments [[], ''api'', ''v1'', ''event'', ''{id}'']
      (str_split (CHR ''/'') (req_Path r)) = Some m" and g: "method_matches (Some ''DELETE'') (req_Method r)"
    unfolding route_matches_def event_patterns(3) prod.case match_path_def event_patterns(4) by blast
  from match_last_wildcard [OF m] event_patterns g show ?thesis by (auto simp: method_matches_def)
qed

lemma literal_routes:
  "route_matches ''/metrics'' r \<longleftrightarrow> req_Path r = ''/metrics''"
  "route_matches ''GET /api/v1/ping'' r \<longleftrightarrow> req_Path r = ''/api/v1/ping'' \<and> req_Method r \<in> {''GET'', ''HEAD''}"
  "route_matches ''POST /api/v1/task'' r \<longleftrightarrow> req_Path r = ''/api/v1/task'' \<and> req_Method r = ''POST''"
  "route_matches ''POST /api/v1/pubsub'' r \<longleftrightarrow> req_Path r = ''/api/v1/pubsub'' \<and> req_Method r = ''POST''"
  "route_matches ''PUT /api/v1/event/consumer'' r \<longleftrightarrow> req_Path r = ''/api/v1/event/consumer'' \<and> req_Method r = ''PUT''"
  "route_matches ''GET /api/v1/events'' r \<longleftrightarrow> req_Path r = ''/api/v1/events'' \<and> req_Method r \<in> {''GET'', ''HEAD''}"
  "route_matches ''POST /events/schedule/archived'' r \<longleftrightarrow>
     req_Path r = ''/events/schedule/archived'' \<and> req_Method r = ''POST''"
  "route_matches ''/api/v1/insights'' r \<longleftrightarrow> req_Path r = ''/api/v1/insights''"
  by (auto simp: route_matches_literal literal_patterns split_pattern_def str_split2_def method_matches_def)

text \<open>No request matches two of the routes of the backoffice.\<close>

lemma backoffice_routes_disjoint:
  "sorted_wrt (\<lambda>a b. \<not> (route_matches (hh_Path a) r \<and> route_matches (hh_Path b) r))
     (metrics_route metrics # backoffice_routes parse_uuid)"
  by (auto simp: metrics_route_def backoffice_routes_def route_def route_run_def health_route_def literal_routes
      dest!: route_event_name route_event_id)

lemma find_unique:
  "sorted_wrt (\<lambda>a b. \<not> (P a \<and> P b)) xs \<Longrightarrow> x \<in> set xs \<Longrightarrow> P x \<Longrightarrow> find P xs = Some x"
  by (induction xs) auto

text \<open>Claim C34: the routes of the backoffice do not shadow each other. A request that matches a route,
  by its method and its path with or without a wildcard, is served by the handler of that route,
  wherever it stands in the list.\<close>

theorem backoffice_dispatch:
  assumes "h \<in> set (metrics_route metrics # backoffice_routes parse_uuid)" and "route_matches (hh_Path h) r"
  shows "mux_serve (metrics_route metrics # backoffice_routes parse_uuid) r resp w = serve_route h r resp w"
proof -
  note d = backoffice_routes_disjoint [of r metrics parse_uuid]
  have "find (\<lambda>h. route_matches (hh_Path h) r) (metrics_route metrics # backoffice_routes parse_uuid) = Some h"
    using find_unique [where P = "\<lambda>h. route_matches (hh_Path h) r", OF d assms] .
  then show ?thesis by (simp only: mux_serve_def option.case)
qed

definition sample_delete :: request where
  "sample_delete = sample_post\<lparr>req_Method := ''DELETE'', req_Path := ''/api/v1/event/x''\<rparr>"

lemma sample_delete_route:
  "route_matches ''DELETE /api/v1/event/{id}'' sample_delete"
  "match_path ''/api/v1/event/{id}'' (req_Path sample_delete) = Some [(''id'', ''x'')]"
  by code_simp+

theorem backoffice_dispatch_witness:
  "\<exists>resp w'. mux_serve (metrics_route (\<lambda>r x w. (Returns x, w)) # backoffice_routes (\<lambda>i. None)) sample_delete
     new_response (calm_db []) = (Returns resp, w') \<and> status_of resp = 400"
proof -
  let ?h = "route ''DELETE /api/v1/event/{id}'' (\<lambda>r. RemoveEvent (\<lambda>i. None) (PathValue r ''id''))
    :: db_world HttpHandle"
  let ?m = "\<lambda>(r :: request) (x :: response) (w :: db_world). (Returns x, w)"
  have a: "?h \<in> set (metrics_route ?m # backoffice_routes (\<lambda>i. None))"
    by (simp add: backoffice_routes_def)
  have b: "route_matches (hh_Path ?h) sample_delete"
    using sample_delete_route(1) by (simp add: route_def)
  show ?thesis
    unfolding backoffice_dispatch [OF a b] by (simp add: serve_route_def route_def RemoveEvent_def)
qed

section \<open>The workers\<close>

text \<open>The worker of the task queue listens for the tasks the task API queues; the Pub/Sub service
  subscribes to the topic its API publishes to and to the topic its handlers send dead letters to.\<close>

lemma topics_agree:
  "map fst task_mux = [request_topic]"
  "map (\<lambda>h. BuildTopicName domain_ProjectID (gp_TopicName h)) pubsub_handlers = [dead_letter_topic, request_topic]"
  by (simp_all add: task_mux_def task_events_def to_asynq_def ToAsynqHandler_def GetRequestHandle_def
      request_topic_def pubsub_handlers_def to_gpubsub_def NewDeadLatterQueue_def pubsub_GetRequestHandle_def
      dead_letter_topic_def)



section \<open>Starting and stopping\<close>

lemma shutdown_servers_calls:
  "calls (shutdown_servers ss w) = calls w @ map (\<lambda>s. Other ''server.Shutdown'' [srv_Addr s]) ss"
  by (induction ss arbitrary: w) (auto simp: ask_err_calls split: prod.splits)

lemma close_calls:
  "calls (fold Service_Close cs w) = calls w @ map (\<lambda>s. Other ''client.Close'' [svc_client s]) cs"
  by (induction cs arbitrary: w) (simp_all add: Service_Close_def)

text \<open>Claim C38: the order of the shutdown. After the wait for a signal every server is shut down, in the
  order they were started and also when an earlier one fails; only then every client is closed, and the
  metrics last, if there is a provider. The context of the workers is ended by none of these steps.\<close>

theorem main_stop_order:
  "calls (main_stop servers closers ts w) =
     calls w @ Other ''wait for SIGINT, SIGTERM or ctx.Done'' []
       # map (\<lambda>s. Other ''server.Shutdown'' [srv_Addr s]) servers
       @ map (\<lambda>s. Other ''client.Close'' [svc_client s]) closers
       @ (if provider ts then [Other ''telemetry.Shutdown'' []] else [])"
  by (simp add: main_stop_def waitForShutdown_def Let_def shutdown_servers_calls close_calls)

text \<open>The scope decides what is started.\<close>

lemma scope_services:
  assumes "start_services parse_uuid metrics scope conf w = (Returns (servers, closers), w')"
  shows "map svc_client closers =
      (if scopeOrAll scope ''pubsub'' then [''pubsub''] else []) @ (if scopeOrAll scope ''task'' then [''asynq''] else [])"
    and "length servers = (if scopeOrAll scope ''backoffice'' then 1 else 0) + length closers"
  using assms
  by (auto simp: start_services_def when_scope_def Let_def pubsub_Start_def task_Start_def
      split: if_splits prod.splits run.splits option.splits)

end
