(* ===== verification/Frames.thy ===== *)
theory Frames
  imports Composition
begin

text \<open>
  What the operations leave alone. The calls a process makes change its history only, so whatever
  publishes, delivers or measures keeps the table of events and the memory store; whatever works
  on the table keeps the memory store.
\<close>

section \<open>Calls keep the rest of the world\<close>

lemma more_ask [simp]: "world.more (snd (ask c w)) = world.more w"
  by (simp add: ask_def Let_def)

lemma more_tell [simp]: "world.more (tell c w) = world.more w"
  by (simp add: tell_def)

lemma more_asked: "ask_err c w = (e, w') \<Longrightarrow> world.more w' = world.more w"
  by (auto dest: ask_errD)

lemma more_asked_raw: "ask c w = (e, w') \<Longrightarrow> world.more w' = world.more w"
  using more_ask [of c w] by simp

lemma more_now: "time_now w = (t, w') \<Longrightarrow> world.more w' = world.more w"
  by (auto simp: time_now_def split: prod.splits dest!: more_asked_raw)

lemma more_instrument: "world.more (on_instrument k m v as w) = world.more w"
  by (simp add: on_instrument_eq Let_def case_prod_beta)

lemma more_metric [simp]:
  "world.more (Metric_Increment m as w) = world.more w" "world.more (Metric_Decrement m as w) = world.more w"
  "world.more (Metric_Count m v as w) = world.more w" "world.more (Metric_Record m v as w) = world.more w"
  by (simp_all add: metric_defs more_instrument)

lemma more_snd_now [simp]: "world.more (snd (time_now w)) = world.more w"
  using more_now [of w] by (metis prod.collapse)

lemmas more_calls = more_asked more_asked_raw more_now

section \<open>Publishing\<close>

text \<open>A publisher that keeps the rest of the world.\<close>

definition keeps_more :: "'a world_scheme generic_publisher \<Rightarrow> bool" where
  "keeps_more publish \<longleftrightarrow> (\<forall>t p opts w. world.more (snd (publish t p opts w)) = world.more w)"

lemma more_publishers: "keeps_more Task_Publish" "keeps_more PubSubGoogle_Publish"
  by (auto simp: keeps_more_def Task_Publish_def PubSubGoogle_Publish_def Let_def
      split: sum.splits prod.splits option.splits dest!: more_asked)

lemma more_publish: "publish t p opts w = (e, w') \<Longrightarrow> keeps_more publish \<Longrightarrow> world.more w' = world.more w"
  unfolding keeps_more_def by (metis snd_conv)

lemma more_publish_tasks:
  "publish_tasks publish payload event cs resp w = (r, w') \<Longrightarrow> keeps_more publish \<Longrightarrow> world.more w' = world.more w"
  by (induction cs arbitrary: w) (auto split: prod.splits option.splits dest: more_publish)

lemma more_publish_messages:
  "publish_messages publish payload event cs resp w = (r, w') \<Longrightarrow> keeps_more publish \<Longrightarrow> world.more w' = world.more w"
proof (induction cs arbitrary: w)
  case (Cons c cs)
  then show ?case
    by (auto simp: Let_def split: prod.splits option.splits dest!: more_publish more_now)
qed simp

lemma more_client:
  "NewHTTPClientWithLogging settings w = (c, w') \<Longrightarrow> world.more w' = world.more w"
  "client_Do c url b h w = (r, w') \<Longrightarrow> world.more w' = world.more w"
  by (auto simp: NewHTTPClientWithLogging_def Let_def client_Do_def ClientHTTPTransport_RoundTrip_def post_def
      split: prod.splits option.splits http_client.splits dest!: more_asked more_asked_raw)

lemma more_notify: "Notify data headers c opt w = (e, w') \<Longrightarrow> world.more w' = world.more w"
  by (simp add: Notify_def fetch_def Let_def split: prod.splits option.splits sum.splits)
    (auto dest!: more_asked more_now more_client split: if_splits)

section \<open>The stores\<close>

text \<open>The table of events, the printer of its documents and the memory store.\<close>

definition same_stores :: "'a log_world_scheme \<Rightarrow> 'a log_world_scheme \<Rightarrow> bool" where
  "same_stores v w \<longleftrightarrow> log_world.more v = log_world.more w"

lemma same_stores_more: "world.more v = world.more w \<Longrightarrow> same_stores v w"
  by (cases v; cases w) (simp add: same_stores_def)

lemma same_stores_refl [simp]: "same_stores w w"
  by (simp add: same_stores_def)

lemma same_stores_trans: "same_stores v w \<Longrightarrow> same_stores w u \<Longrightarrow> same_stores v u"
  by (simp add: same_stores_def)

lemma same_storesD:
  fixes v w :: "'a store_world_scheme"
  assumes "same_stores v w"
  shows "events_table v = events_table w" "jsonb v = jsonb w" "topicEvents v = topicEvents w"
  using assms by (cases v; cases w; simp add: same_stores_def)+

lemma same_stores_insights:
  "same_stores (snd (store_published m w)) w" "same_stores (snd (store_consumed n w)) w"
  by (simp_all add: same_stores_def stores.stored_published stores.stored_consumed)

lemma same_stores_inserted:
  "same_stores (insert_published store_published p s ok w) w"
  "same_stores (insert_consumed store_consumed q s ok w) w"
  by (auto simp: insert_published_def insert_consumed_def Let_def split: prod.splits
      dest!: more_now same_stores_more intro: same_stores_trans [OF same_stores_insights(1)]
        same_stores_trans [OF same_stores_insights(2)])

lemma same_stores_after:
  "world.more v = world.more w \<Longrightarrow> same_stores (insert_published store_published p s ok v) w"
  "world.more v = world.more w \<Longrightarrow> same_stores (insert_consumed store_consumed q s ok v) w"
  by (auto dest!: same_stores_more intro: same_stores_inserted [THEN same_stores_trans])

lemma MemStore_GetEvent_more: "MemStore_GetEvent n w = (r, w') \<Longrightarrow> world.more w' = world.more w"
  by (auto simp: MemStore_GetEvent_def split: option.splits)

lemma PublisherEvent_stores:
  assumes "keeps_more publish" and "PublisherEvent MemStore_GetEvent publish store_published b w = (resp, w')"
  shows "same_stores w' w"
proof -
  obtain started w0 where t: "time_now w = (started, w0)" by (cases "time_now w")
  have w0: "world.more w0 = world.more w" using t by (rule more_now)
  show ?thesis
    using assms w0
    by (auto simp: PublisherEvent_def t Let_def split: prod.splits option.splits sum.splits if_splits
        dest!: MemStore_GetEvent_more more_publish_tasks
        intro!: same_stores_after intro: same_stores_more)
qed

lemma pubsub_PublisherEvent_stores:
  assumes "keeps_more publish" and "pubsub_PublisherEvent MemStore_GetEvent publish store_published b w = (resp, w')"
  shows "same_stores w' w"
proof -
  obtain started w0 where t: "time_now w = (started, w0)" by (cases "time_now w")
  have w0: "world.more w0 = world.more w" using t by (rule more_now)
  show ?thesis
    using assms w0
    by (auto simp: pubsub_PublisherEvent_def t Let_def split: prod.splits option.splits sum.splits if_splits
        dest!: MemStore_GetEvent_more more_publish_messages
        intro!: same_stores_after intro: same_stores_more)
qed

section \<open>The workers\<close>

definition keeps_stores :: "'a log_world_scheme handler \<Rightarrow> bool" where
  "keeps_stores h \<longleftrightarrow> (\<forall>b w. same_stores (snd (h b w)) w)"

lemma keeps_storesI: "(\<And>b w e w'. h b w = (e, w') \<Longrightarrow> same_stores w' w) \<Longrightarrow> keeps_stores h"
  unfolding keeps_stores_def by (metis prod.collapse)

lemma keeps_storesD: "keeps_stores h \<Longrightarrow> h b w = (e, w') \<Longrightarrow> same_stores w' w"
  unfolding keeps_stores_def by (metis snd_conv)

lemma recorded_more:
  "world.more (recordDuration s p e v) = world.more v" "world.more (pubsub_recordDuration s p e v) = world.more v"
  by (simp_all add: recordDuration_def pubsub_recordDuration_def case_prod_beta Let_def)

lemma recorded_stores:
  "same_stores v w \<Longrightarrow> same_stores (recordDuration s p e v) w"
  "same_stores v w \<Longrightarrow> same_stores (pubsub_recordDuration s p e v) w"
  by (blast intro: same_stores_trans same_stores_more recorded_more)+

lemma task_worker_stores: "keeps_stores (Handler (GetRequestHandle Notify store_consumed))"
proof (rule keeps_storesI)
  fix b e and w w' :: "'a log_world_scheme"
  obtain started w0 where t: "time_now w = (started, w0)" by (cases "time_now w")
  have w0: "world.more w0 = world.more w" using t by (rule more_now)
  assume "Handler (GetRequestHandle Notify store_consumed) b w = (e, w')"
  then show "same_stores w' w"
    using w0
    by (auto simp: GetRequestHandle_def t Let_def split: prod.splits option.splits sum.splits
        dest!: more_notify intro!: same_stores_after recorded_stores intro: same_stores_more)
qed

lemma pubsub_worker_stores: "keeps_stores (Handler (pubsub_GetRequestHandle Notify store_consumed))"
proof (rule keeps_storesI)
  fix b e and w w' :: "'a log_world_scheme"
  obtain started w0 where t: "time_now w = (started, w0)" by (cases "time_now w")
  have w0: "world.more w0 = world.more w" using t by (rule more_now)
  assume "Handler (pubsub_GetRequestHandle Notify store_consumed) b w = (e, w')"
  then show "same_stores w' w"
    using w0
    by (auto simp: pubsub_GetRequestHandle_def t Let_def split: prod.splits option.splits sum.splits
        dest!: more_notify intro!: same_stores_after recorded_stores intro: same_stores_more)
qed

lemma more_notify_all: "world.more (notify_all Notify p es w) = world.more w"
proof -
  have one: "world.more (notify_dead_letter Notify p ev c v) = world.more v" for ev c v
    by (auto simp: notify_dead_letter_def split: sum.splits)
      (metis more_notify prod.collapse)
  have cs: "world.more (fold (notify_dead_letter Notify p ev) cs v) = world.more v" for ev cs v
    by (induction cs arbitrary: v) (simp_all add: one)
  show ?thesis
    unfolding notify_all_def by (induction es arbitrary: w) (simp_all add: cs)
qed

lemma dead_letter_stores: "keeps_stores (Handler (NewDeadLatterQueue MemStore_GetAllSchedulers Notify))"
proof (rule keeps_storesI)
  fix b e and w w' :: "'a store_world_scheme"
  assume "Handler (NewDeadLatterQueue MemStore_GetAllSchedulers Notify) b w = (e, w')"
  then show "same_stores w' w"
    by (auto simp: NewDeadLatterQueue_def MemStore_GetAllSchedulers_def split: sum.splits if_splits)
qed

lemma more_wait: "wait_retry w = (r, w') \<Longrightarrow> world.more w' = world.more w"
  by (auto simp: wait_retry_def split: prod.splits option.splits dest!: more_asked)

lemma more_archived: "archivedMsg pub m w = (r, w') \<Longrightarrow> keeps_more pub \<Longrightarrow> world.more w' = world.more w"
  by (auto simp: archivedMsg_def split: prod.splits option.splits dest: more_publish)

lemma more_retryable:
  assumes "retryable pub m w = (r, w')" and "keeps_more pub"
  shows "world.more w' = world.more w"
  using assms
  by (auto simp: retryable_def Let_def split: prod.splits option.splits if_splits
      dest!: more_wait more_archived more_publish)

text \<open>A message, with its retries and its dead letter.\<close>

lemma message_stores:
  assumes "keeps_stores (Handler h)" and "ToGPubSubHandler h PubSubGoogle_Publish m w = (r, w')"
  shows "same_stores w' w"
  using assms(2)
  by (auto simp: ToGPubSubHandler_def split: prod.splits option.splits if_splits
      dest!: keeps_storesD [OF assms(1)] more_retryable [OF _ more_publishers(2)]
      intro: same_stores_trans [OF same_stores_more])

lemma task_stores:
  assumes "keeps_stores (Handler h)" and "snd (ToAsynqHandler h) b w = (r, w')"
  shows "same_stores w' w"
  using assms(2)
  by (auto simp: ToAsynqHandler_def split: prod.splits option.splits dest!: keeps_storesD [OF assms(1)])

section \<open>Operations on the table\<close>

text \<open>They may change the table and the configuration, not the memory store.\<close>

definition same_memory :: "'a db_world_scheme \<Rightarrow> 'a db_world_scheme \<Rightarrow> bool" where
  "same_memory v w \<longleftrightarrow> db_world.more v = db_world.more w"

lemma same_memory_refl [simp]: "same_memory w w"
  by (simp add: same_memory_def)

lemma same_memory_more: "world.more v = world.more w \<Longrightarrow> same_memory v w"
  by (cases v; cases w) (simp add: same_memory_def)

lemma same_memoryD:
  fixes v w :: "'a store_world_scheme"
  shows "same_memory v w \<Longrightarrow> topicEvents v = topicEvents w"
  by (cases v; cases w) (simp add: same_memory_def)

lemma memory_calls:
  "ask_err c w = (e, w') \<Longrightarrow> same_memory w' w"
  "ask c w = (r, w') \<Longrightarrow> same_memory w' w"
  "time_now w = (t, w') \<Longrightarrow> same_memory w' w"
  by (auto dest: more_calls intro: same_memory_more)

lemma memory_uuid: "new_uuid w = (i, w') \<Longrightarrow> same_memory w' w"
  by (auto simp: new_uuid_def split: prod.splits dest: memory_calls)

lemma memory_config: "Cfg_Get w = (c, w') \<Longrightarrow> same_memory w' w"
  by (auto simp: Cfg_Get_def same_memory_def split: prod.splits)

lemma memory_exec: "exec_sql sql f w = (e, w') \<Longrightarrow> same_memory w' w"
  by (auto simp: exec_sql_def same_memory_def split: prod.splits option.splits sum.splits
      dest!: memory_calls)

lemma memory_upsert: "Upsert e w = (r, w') \<Longrightarrow> same_memory w' w"
  by (auto simp: Upsert_def Let_def same_memory_def split: prod.splits option.splits sum.splits
      dest!: memory_calls(3) memory_uuid memory_exec)

lemma memory_disable: "DisabledEvent i w = (r, w') \<Longrightarrow> same_memory w' w"
  by (auto simp: DisabledEvent_def split: prod.splits option.splits dest!: memory_exec)

section \<open>The handlers of the backoffice\<close>

lemma memory_register: "SaveConsumerHandle b w = (r, w') \<Longrightarrow> same_memory w' w"
  by (auto simp: SaveConsumerHandle_def EventDto_ToDomain_def Validate_event_def Let_def same_memory_def
      split: prod.splits option.splits run.splits sum.splits
      dest!: memory_config memory_uuid memory_upsert)

lemma memory_archive: "GetRegisterTaskConsumerArchived u b w = (r, w') \<Longrightarrow> same_memory w' w"
  by (auto simp: GetRegisterTaskConsumerArchived_def split: prod.splits option.splits dest!: memory_upsert)

lemma memory_remove: "RemoveEvent u i w = (r, w') \<Longrightarrow> same_memory w' w"
  by (auto simp: RemoveEvent_def split: prod.splits option.splits dest!: memory_disable)

text \<open>Reading keeps everything.\<close>

lemma more_query: "query_sql sql f w = (e, w') \<Longrightarrow> world.more w' = world.more w"
  by (auto simp: query_sql_def split: prod.splits option.splits dest!: more_asked)

lemma more_query_row: "query_row sql f w = (e, w') \<Longrightarrow> world.more w' = world.more w"
  by (auto simp: query_row_def split: prod.splits sum.splits list.splits dest!: more_query)

lemma more_scan: "scan_rows what rows acc w = (r, w') \<Longrightarrow> world.more w' = world.more w"
proof (induction rows arbitrary: acc w)
  case Nil
  then show ?case by (auto split: prod.splits option.splits dest!: more_asked)
next
  case (Cons r rows)
  obtain e w1 where a: "ask_err (Other ''rows.Scan'' []) w = (e, w1)" by (cases "ask_err (Other ''rows.Scan'' []) w")
  with Cons more_asked [OF a] show ?case by (cases e) auto
qed

lemma more_read: "read_events sql f w = (r, w') \<Longrightarrow> world.more w' = world.more w"
  by (auto simp: read_events_def split: prod.splits sum.splits dest!: more_query more_scan)

lemma more_get_events:
  "GetAllEvents w = (es, w') \<Longrightarrow> world.more w' = world.more w"
  "GetInternalEvents flt w = (es, w') \<Longrightarrow> world.more w' = world.more w"
  by (simp_all add: GetAllEvents_def GetInternalEvents_def more_read)

lemma more_get_event: "GetInternalEvent n w = (r, w') \<Longrightarrow> world.more w' = world.more w"
  by (auto simp: GetInternalEvent_def Let_def split: prod.splits option.splits sum.splits dest!: more_query_row)

lemma reading_stores:
  "GetEvent n w = (resp, w') \<Longrightarrow> same_stores w' w"
  "GetEvents q w = (resp, w') \<Longrightarrow> same_stores w' w"
  "GetAllEvents w = (es, w') \<Longrightarrow> same_stores w' w"
  by (auto simp: GetEvent_def GetEvents_def Let_def split: prod.splits sum.splits option.splits
      dest!: more_get_event more_get_events intro: same_stores_more)

end
