(* ===== verification/Catalog.thy ===== *)
theory Catalog
  imports Domain
begin

text \<open>
  What the system promises about its events, without tables, rows, JSON or HTTP: a catalog of the
  events that may be published, the names that were removed for good, and for every process the
  copy of the catalog it publishes from, refreshed by loads that take time. The theory
  \<open>System\<close> shows that the program implements it.
\<close>

section \<open>The abstract machine\<close>

record catalog_state =
  catalog :: "string \<Rightarrow> Event option"
  removed :: "string set"
  served :: "nat \<Rightarrow> string \<Rightarrow> Event option"
  in_flight :: "nat \<times> nat \<Rightarrow> (string \<Rightarrow> Event option) option"

definition valid_event :: "Event \<Rightarrow> bool" where
  "valid_event e \<longleftrightarrow> Opt_Validate (Option e) = None \<and> consumers_of e \<noteq> []"

text \<open>A load is numbered by its process and its loop. \<open>Find_none\<close> is a database that says it has no
  events.\<close>

inductive catalog_step :: "catalog_state \<Rightarrow> catalog_state \<Rightarrow> bool" where
  Put: "valid_event e \<Longrightarrow> event_Name e \<notin> removed a \<Longrightarrow>
    catalog_step a (a\<lparr>catalog := (catalog a)(event_Name e \<mapsto> e)\<rparr>)"
| Hide: "catalog_step a (a\<lparr>catalog := (catalog a)(n := None)\<rparr>)"
| Remove: "catalog_step a (a\<lparr>catalog := (catalog a)(n := None), removed := insert n (removed a)\<rparr>)"
| Begin_load: "catalog_step a (a\<lparr>in_flight := (in_flight a)(l \<mapsto> catalog a)\<rparr>)"
| Find_none: "catalog_step a (a\<lparr>in_flight := (in_flight a)(l \<mapsto> Map.empty)\<rparr>)"
| Fail_load: "catalog_step a (a\<lparr>in_flight := (in_flight a)(l := None)\<rparr>)"
| End_load: "in_flight a (i, k) = Some m \<Longrightarrow>
    catalog_step a (a\<lparr>served := (served a)(i := m), in_flight := (in_flight a)((i, k) := None)\<rparr>)"
| Restart: "catalog_step a (a\<lparr>served := (served a)(i := Map.empty),
    in_flight := (\<lambda>(j, k). if j = i then None else in_flight a (j, k))\<rparr>)"

section \<open>Its invariants\<close>

definition holds_valid :: "(string \<Rightarrow> Event option) \<Rightarrow> bool" where
  "holds_valid m \<longleftrightarrow> (\<forall>n e. m n = Some e \<longrightarrow> event_Name e = n \<and> valid_event e)"

lemma holds_valid_simps [simp]:
  "holds_valid Map.empty"
  "holds_valid m \<Longrightarrow> holds_valid (m(n := None))"
  "holds_valid m \<Longrightarrow> valid_event e \<Longrightarrow> holds_valid (m(event_Name e \<mapsto> e))"
  by (auto simp: holds_valid_def)

definition catalog_ok :: "catalog_state \<Rightarrow> bool" where
  "catalog_ok a \<longleftrightarrow> holds_valid (catalog a) \<and> (\<forall>i. holds_valid (served a i)) \<and>
     (\<forall>l m. in_flight a l = Some m \<longrightarrow> holds_valid m) \<and> (\<forall>n\<in>removed a. catalog a n = None)"

lemma catalog_step_ok: "catalog_step a b \<Longrightarrow> catalog_ok a \<Longrightarrow> catalog_ok b"
  by (induction rule: catalog_step.induct) (auto simp: catalog_ok_def split: if_splits)

text \<open>A process has forgotten a removed name when neither the catalog nor its copy nor a load of it has
  it. It stays forgotten.\<close>

definition forgotten :: "nat \<Rightarrow> string \<Rightarrow> catalog_state \<Rightarrow> bool" where
  "forgotten i n a \<longleftrightarrow> n \<in> removed a \<and> catalog a n = None \<and> served a i n = None \<and>
     (\<forall>k m. in_flight a (i, k) = Some m \<longrightarrow> m n = None)"

lemma catalog_step_removed: "catalog_step a b \<Longrightarrow> removed a \<subseteq> removed b"
  by (induction rule: catalog_step.induct) auto

lemma catalog_step_forgotten: "catalog_step a b \<Longrightarrow> forgotten i n a \<Longrightarrow> forgotten i n b"
  by (induction rule: catalog_step.induct) (auto simp: forgotten_def split: if_splits)

section \<open>Simulation\<close>

text \<open>A machine that implements another: every step of it is a step of the other, or none, as
  long as its own invariant holds.\<close>

locale simulation =
  fixes abstract_step :: "'a \<Rightarrow> 'a \<Rightarrow> bool" and concrete_step :: "'c \<Rightarrow> 'c \<Rightarrow> bool"
    and view :: "'c \<Rightarrow> 'a" and good :: "'c \<Rightarrow> bool"
  assumes good_step: "concrete_step s t \<Longrightarrow> good s \<Longrightarrow> good t"
    and simulates: "concrete_step s t \<Longrightarrow> good s \<Longrightarrow> view t = view s \<or> abstract_step (view s) (view t)"
begin

lemma good_run: "rtranclp concrete_step s t \<Longrightarrow> good s \<Longrightarrow> good t"
  by (induction rule: rtranclp_induct) (auto intro: good_step)

text \<open>An invariant of the abstract machine holds in the concrete one.\<close>

lemma invariant_run:
  assumes "rtranclp concrete_step s t" and "good s" and "P (view s)"
    and "\<And>a b. abstract_step a b \<Longrightarrow> P a \<Longrightarrow> P b"
  shows "P (view t)"
  using assms(1)
proof (induction rule: rtranclp_induct)
  case (step t u)
  from simulates [OF step(2) good_run [OF step(1) assms(2)]] step(3) assms(4) show ?case by metis
qed (rule assms(3))

end

end
