(* ===== verification/System.thy ===== *)
theory System
  imports Frames Catalog
begin

text \<open>
  The processes of the system together. They share PostgreSQL; each has a world of its own with
  its memory store, its configuration and its logger. A step is one handler or worker of one
  process, which touches the table with at most one statement; loading the events is two steps,
  because the table can change while the answer is on its way, and with the scope \<open>all\<close> two loops
  of one process refresh the same memory store. Processes may restart at any time.
\<close>

section \<open>The state\<close>

text \<open>\<open>printer\<close> is how the database prints a \<open>JSONB\<close> column; \<open>loading\<close> are the loads whose answer has
  not been put into the memory store yet, by process and loop.\<close>

record system =
  table :: "row list"
  printer :: "bytes \<Rightarrow> bytes"
  procs :: "nat \<Rightarrow> store_world"
  loading :: "nat \<times> nat \<Rightarrow> Event list option"

definition enter :: "system \<Rightarrow> nat \<Rightarrow> store_world" where
  "enter s i = (procs s i)\<lparr>events_table := table s, jsonb := printer s\<rparr>"

definition leave :: "system \<Rightarrow> nat \<Rightarrow> store_world \<Rightarrow> system" where
  "leave s i w = s\<lparr>table := events_table w, procs := (procs s)(i := w)\<rparr>"

definition loaded :: "system \<Rightarrow> nat \<times> nat \<Rightarrow> Event list option \<Rightarrow> system" where
  "loaded s l es = s\<lparr>loading := (loading s)(l := es)\<rparr>"

text \<open>The table starts empty, as every memory store.\<close>

definition initial :: "system \<Rightarrow> bool" where
  "initial s \<longleftrightarrow> table s = [] \<and> jsonb_keeps (printer s) \<and> (\<forall>i. topicEvents (procs s i) = []) \<and>
     (\<forall>l. loading s l = None)"

section \<open>The steps\<close>

inductive system_step :: "(string \<Rightarrow> string option) \<Rightarrow> system \<Rightarrow> system \<Rightarrow> bool" for parse_uuid where
  Register: "SaveConsumerHandle b (enter s i) = (r, w) \<Longrightarrow> system_step parse_uuid s (leave s i w)"
| Archive: "GetRegisterTaskConsumerArchived parse_uuid b (enter s i) = (resp, w) \<Longrightarrow>
    system_step parse_uuid s (leave s i w)"
| Remove_event: "RemoveEvent parse_uuid x (enter s i) = (resp, w) \<Longrightarrow> system_step parse_uuid s (leave s i w)"
| Get_event: "GetEvent x (enter s i) = (resp, w) \<Longrightarrow> system_step parse_uuid s (leave s i w)"
| List_events: "GetEvents q (enter s i) = (resp, w) \<Longrightarrow> system_step parse_uuid s (leave s i w)"
| Load: "GetAllEvents (enter s i) = (es, w) \<Longrightarrow>
    system_step parse_uuid s (loaded (leave s i w) (i, k) (load_of es))"
| Refresh: "loading s (i, k) = Some es \<Longrightarrow>
    system_step parse_uuid s (loaded (leave s i (MemStore_Refresh es (enter s i))) (i, k) None)"
| Post_task: "PublisherEvent MemStore_GetEvent Task_Publish store_published b (enter s i) = (resp, w) \<Longrightarrow>
    system_step parse_uuid s (leave s i w)"
| Post_message: "pubsub_PublisherEvent MemStore_GetEvent PubSubGoogle_Publish store_published b (enter s i) = (resp, w) \<Longrightarrow>
    system_step parse_uuid s (leave s i w)"
| Deliver_task: "snd (ToAsynqHandler (GetRequestHandle Notify store_consumed)) b (enter s i) = (e, w) \<Longrightarrow>
    system_step parse_uuid s (leave s i w)"
| Deliver_message: "ToGPubSubHandler (pubsub_GetRequestHandle Notify store_consumed) PubSubGoogle_Publish m (enter s i) = (r, w) \<Longrightarrow>
    system_step parse_uuid s (leave s i w)"
| Deliver_dead_letter: "ToGPubSubHandler (NewDeadLatterQueue MemStore_GetAllSchedulers Notify) PubSubGoogle_Publish m (enter s i) = (r, w) \<Longrightarrow>
    system_step parse_uuid s (leave s i w)"
| Restart_process: "events_table w = table s \<Longrightarrow>
    system_step parse_uuid s ((leave s i (NewMemStore w))\<lparr>loading := (\<lambda>(j, k). if j = i then None else loading s (j, k))\<rparr>)"

section \<open>The catalog of a table\<close>

definition row_event :: "(bytes \<Rightarrow> bytes) \<Rightarrow> row \<Rightarrow> Event" where
  "row_event out r = ToDomain \<lparr>m_ID = r_id r, m_Name = r_name r, m_ServiceName = r_service_name r,
     m_State = r_state r, m_Consumers = out (r_consumers r), m_Option = out (r_opts r)\<rparr>"

lemma scan_row_event: "ToDomain (scan_row w r) = row_event (jsonb w) r"
  by (simp add: scan_row_def row_event_def)

lemma row_event_name [simp]: "event_Name (row_event out r) = r_name r"
  by (simp add: row_event_def ToDomain_def Let_def split: prod.splits)

text \<open>The rows of a name that a load reads; names are unique, so there is at most one.\<close>

definition catalog_of :: "(bytes \<Rightarrow> bytes) \<Rightarrow> row list \<Rightarrow> string \<Rightarrow> Event option" where
  "catalog_of out t n =
     (case rev (filter (\<lambda>r. r_state r \<noteq> ''archived'') (live n t)) of [] \<Rightarrow> None | r # _ \<Rightarrow> Some (row_event out r))"

definition removed_names :: "row list \<Rightarrow> string set" where
  "removed_names t = r_name ` {r \<in> set t. r_deleted r}"

definition copy_of :: "Event list \<Rightarrow> string \<Rightarrow> Event option" where
  "copy_of es = go_get (events_map es [])"

definition view :: "system \<Rightarrow> catalog_state" where
  "view s = \<lparr>catalog = catalog_of (printer s) (table s), removed = removed_names (table s),
     served = (\<lambda>i. go_get (topicEvents (procs s i))), in_flight = (\<lambda>l. map_option copy_of (loading s l))\<rparr>"

lemma catalog_of_live: "live n t' = live n t \<Longrightarrow> catalog_of out t' n = catalog_of out t n"
  by (simp add: catalog_of_def)

text \<open>What a load reads is the catalog.\<close>

lemma copy_of_rows: "copy_of (map (row_event out) (filter active t)) = catalog_of out t"
proof
  fix n
  have "find (\<lambda>e. event_Name e = n) (map (row_event out) (filter active t)) =
      map_option (row_event out) (find (\<lambda>r. r_name r = n \<and> \<not> r_deleted r \<and> r_state r \<noteq> ''archived'') t)" for t
    by (induction t) (auto simp: active_def)
  then show "copy_of (map (row_event out) (filter active t)) n = catalog_of out t n"
    by (simp add: copy_of_def events_map_get catalog_of_def rev_map rev_filter find_active
        split: list.splits option.splits)
qed

section \<open>What the statements do to the catalog\<close>

lemma live_upsert_other:
  assumes "upsert_row new t = Inr t'" and "n \<noteq> r_name new"
  shows "live n t' = live n t"
proof -
  let ?f = "\<lambda>r. if r_name r = r_name new
      then r\<lparr>r_service_name := r_service_name new, r_state := r_state new,
             r_consumers := r_consumers new, r_opts := r_opts new, r_updated_at := r_updated_at new\<rparr>
      else r"
  have "live n (map ?f t) = live n t" using assms(2) by (induction t) auto
  with assms show ?thesis by (auto simp: upsert_row_def split: if_splits)
qed

lemma removed_names_upsert:
  assumes "upsert_row new t = Inr t'" and "\<not> r_deleted new"
  shows "removed_names t' = removed_names t"
proof -
  let ?f = "\<lambda>r. if r_name r = r_name new
      then r\<lparr>r_service_name := r_service_name new, r_state := r_state new,
             r_consumers := r_consumers new, r_opts := r_opts new, r_updated_at := r_updated_at new\<rparr>
      else r"
  have f: "r_name (?f r) = r_name r" "r_deleted (?f r) = r_deleted r" for r by simp_all
  have "removed_names (map ?f t) = r_name ` ?f ` {r \<in> set t. r_deleted (?f r)}"
    unfolding removed_names_def by (simp only: set_map) blast
  then have "removed_names (map ?f t) = removed_names t" by (simp only: f image_image removed_names_def)
  with assms show ?thesis by (auto simp: upsert_row_def removed_names_def split: if_splits)
qed

lemma removed_names_iff: "n \<in> removed_names t \<longleftrightarrow> (\<exists>r\<in>set t. r_name r = n \<and> r_deleted r)"
  unfolding removed_names_def by blast

lemma live_removed:
  assumes "table_ok t" and "n \<in> removed_names t"
  shows "live n t = []"
proof -
  from assms(2) obtain r where r: "r \<in> set t" "r_name r = n" "r_deleted r" by (auto simp: removed_names_def)
  have "filter (\<lambda>x. r_name x = r_name r) t = [r]"
    using assms(1) r(1) by (intro filter_key) (simp_all add: table_ok_def)
  then have "filter (\<lambda>x. \<not> r_deleted x) (filter (\<lambda>x. r_name x = n) t) = []" using r by simp
  then show ?thesis by (simp add: conj_commute)
qed

lemma catalog_removed: "table_ok t \<Longrightarrow> n \<in> removed_names t \<Longrightarrow> catalog_of out t n = None"
  by (simp add: catalog_of_def live_removed)

text \<open>An event is stored: its row replaces the one of its name, unless that was removed.\<close>

lemma catalog_upsert:
  assumes "table_ok t" and "upsert_row new t = Inr t'" and "\<not> r_deleted new"
  shows "\<exists>i. catalog_of out t' =
    (if r_name new \<in> removed_names t then catalog_of out t
     else (catalog_of out t)(r_name new :=
       if r_state new = ''archived'' then None else Some (row_event out (new\<lparr>r_id := i\<rparr>))))"
proof (cases "r_name new \<in> removed_names t")
  case True
  have "catalog_of out t' n = catalog_of out t n" for n
  proof (cases "n = r_name new")
    case True
    with \<open>r_name new \<in> removed_names t\<close> removed_names_upsert [OF assms(2,3)]
    have "n \<in> removed_names t" "n \<in> removed_names t'" by simp_all
    with assms show ?thesis by (simp add: catalog_removed table_ok_upsert [OF assms(1,2)])
  qed (rule catalog_of_live, rule live_upsert_other [OF assms(2)])
  with True show ?thesis by auto
next
  case False
  then have "\<not> (\<exists>r\<in>set t. r_name r = r_name new \<and> r_deleted r)"
    by (simp add: removed_names_iff)
  from upsert_row_live(2) [OF assms this] obtain r where r: "live (r_name new) t' = [r]"
    "r_name r = r_name new" "r_service_name r = r_service_name new" "r_state r = r_state new"
    "r_consumers r = r_consumers new" "r_opts r = r_opts new"
    by (auto simp: map_eq_Cons_conv)
  have "row_event out r = row_event out (new\<lparr>r_id := r_id r\<rparr>)" using r by (simp add: row_event_def)
  with r have "catalog_of out t' (r_name new) =
      (if r_state new = ''archived'' then None else Some (row_event out (new\<lparr>r_id := r_id r\<rparr>)))"
    by (simp add: catalog_of_def)
  moreover have "catalog_of out t' n = catalog_of out t n" if "n \<noteq> r_name new" for n
    by (rule catalog_of_live, rule live_upsert_other [OF assms(2) that])
  ultimately show ?thesis using False by (intro exI [of _ "r_id r"]) auto
qed

lemma live_disable: "live n (disable_row i t) = filter (\<lambda>r. r_id r \<noteq> i) (live n t)"
  unfolding disable_row_def by (induction t) auto

lemma removed_disable: "removed_names (disable_row i t) =
    removed_names t \<union> r_name ` {r \<in> set t. r_id r = i}"
proof (induction t)
  case (Cons r t)
  have "removed_names (x # xs) = (if r_deleted x then {r_name x} else {}) \<union> removed_names xs" for x xs
    by (auto simp: removed_names_def)
  with Cons show ?case by (auto simp: disable_row_def)
qed (simp add: removed_names_def disable_row_def)

text \<open>An event is disabled: its name is removed, if there is one.\<close>

lemma catalog_disable:
  assumes "table_ok t"
  shows "(catalog_of out (disable_row i t) = catalog_of out t \<and> removed_names (disable_row i t) = removed_names t) \<or>
    (\<exists>n. catalog_of out (disable_row i t) = (catalog_of out t)(n := None) \<and>
       removed_names (disable_row i t) = insert n (removed_names t))"
proof (cases "\<exists>r\<in>set t. r_id r = i")
  case False
  then have "live n (disable_row i t) = live n t" for n unfolding live_disable by (induction t) auto
  then have "catalog_of out (disable_row i t) = catalog_of out t" using catalog_of_live by blast
  moreover have "removed_names (disable_row i t) = removed_names t" using False by (auto simp: removed_disable)
  ultimately show ?thesis by simp
next
  case True
  then obtain r where r: "r \<in> set t" "r_id r = i" by blast
  have id: "x = r" if "x \<in> set t" "r_id x = i" for x
    using assms that r unfolding table_ok_def distinct_map by (metis inj_onD)
  then have ids: "{x \<in> set t. r_id x = i} = {r}" using r by blast
  have "live n (disable_row i t) = live n t" if "n \<noteq> r_name r" for n
    unfolding live_disable filter_filter by (rule filter_cong) (use that id in blast)+
  then have "catalog_of out (disable_row i t) n = catalog_of out t n" if "n \<noteq> r_name r" for n
    by (rule catalog_of_live) fact
  moreover have "catalog_of out (disable_row i t) (r_name r) = None"
    by (rule catalog_removed [OF table_ok_disable [OF assms]]) (simp add: removed_disable ids)
  ultimately have "catalog_of out (disable_row i t) = (catalog_of out t)(r_name r := None)" by auto
  then show ?thesis by (auto simp: removed_disable ids)
qed

section \<open>What the handlers do to the table\<close>

lemma registered_row:
  assumes "SaveConsumerHandle b w = (r, w')"
  obtains "events_table w' = events_table w"
  | new where "upsert_row new (events_table w) = Inr (events_table w')" "\<not> r_deleted new"
      "r_state new = ''active''" "\<And>out i. jsonb_keeps out \<Longrightarrow> valid_event (row_event out (new\<lparr>r_id := i\<rparr>))"
proof -
  obtain dto e where d: "decode into_EventDto zero_EventDto b = (dto, e)"
    by (cases "decode into_EventDto zero_EventDto b")
  show thesis
  proof (cases e)
    case (Some err)
    with assms that(1) show thesis by (simp add: SaveConsumerHandle_def d)
  next
    case None
    with d have dn: "decode into_EventDto zero_EventDto b = (dto, None)" by simp
    from assms dn show thesis
    proof (cases rule: SaveConsumer_cases)
      case rejected
      from this(1) show thesis by (rule that(1))
    next
      case (stored resp e w1 c)
      from Upsert_effect [OF stored(3)] stored(4) obtain cj oj u now where
        cols: "marshal_columns e = Inr (cj, oj)"
        and up: "upsert_row (new_row u now cj oj e) (events_table w) = Inr (events_table w')"
        by auto
      have "dto_ok dto" using decoded_dto_ok [of b] dn by simp
      then have "event_ok e" using stored by (simp add: event_ok_def dto_ok_def consumers_of_def)
      note dec = columns_decode [OF _ this cols]
      have ok: "Opt_Validate (Option e) = None" "consumers_of e \<noteq> []"
        using stored(11) by (auto simp: Event_Validate_def split: if_splits option.splits)
      have "valid_event (row_event out ((new_row u now cj oj e)\<lparr>r_id := i\<rparr>))" if "jsonb_keeps out" for out i
        using dec [OF that] ok by (simp add: row_event_def new_row_def ToDomain_def valid_event_def consumers_of_def)
      then show thesis using that(2) [OF up] stored by (simp add: new_row_def)
    qed
  qed
qed

lemma archived_row:
  assumes "GetRegisterTaskConsumerArchived parse_uuid b w = (r, w')"
  obtains "events_table w' = events_table w"
  | new where "upsert_row new (events_table w) = Inr (events_table w')" "\<not> r_deleted new" "r_state new = ''archived''"
proof -
  obtain payload e where d: "decode (into_Event parse_uuid) zero_Event b = (payload, e)"
    by (cases "decode (into_Event parse_uuid) zero_Event b")
  obtain u w1 where up: "Upsert (payload\<lparr>State := ''archived''\<rparr>) w = (u, w1)"
    by (cases "Upsert (payload\<lparr>State := ''archived''\<rparr>) w")
  show thesis
  proof (cases "e = None \<and> u = None")
    case True
    with assms have "w1 = w'" by (simp add: GetRegisterTaskConsumerArchived_def d up)
    with True Upsert_effect [OF up] obtain cj oj i now where
      "upsert_row (new_row i now cj oj (payload\<lparr>State := ''archived''\<rparr>)) (events_table w) = Inr (events_table w')"
      by auto
    then show thesis by (rule that(2)) (simp_all add: new_row_def)
  next
    case False
    then have "events_table w' = events_table w"
      using assms Upsert_effect [OF up] by (auto simp: GetRegisterTaskConsumerArchived_def d up split: option.splits)
    then show thesis by (rule that(1))
  qed
qed

lemma removed_row:
  assumes "RemoveEvent parse_uuid x w = (r, w')"
  obtains "events_table w' = events_table w" | i where "events_table w' = disable_row i (events_table w)"
proof (cases "parse_uuid x")
  case None
  with assms show thesis by (intro that(1)) (simp add: RemoveEvent_def)
next
  case (Some i)
  obtain e w1 where "DisabledEvent i w = (e, w1)" by (cases "DisabledEvent i w")
  with assms Some DisabledEvent_effect [OF this] that show thesis
    by (cases e) (auto simp: RemoveEvent_def)
qed

section \<open>The program implements the catalog\<close>

lemma enter_simps [simp]:
  "events_table (enter s i) = table s" "jsonb (enter s i) = printer s"
  "topicEvents (enter s i) = topicEvents (procs s i)" "answer (enter s i) = answer (procs s i)"
  by (simp_all add: enter_def)

lemma leave_simps [simp]:
  "table (leave s i w) = events_table w" "printer (leave s i w) = printer s"
  "procs (leave s i w) = (procs s)(i := w)" "loading (leave s i w) = loading s"
  "table (loaded s l es) = table s" "printer (loaded s l es) = printer s"
  "procs (loaded s l es) = procs s" "loading (loaded s l es) = (loading s)(l := es)"
  by (simp_all add: leave_def loaded_def)

lemma view_leave:
  assumes "same_memory w (enter s i)"
  shows "view (leave s i w) = (view s)\<lparr>catalog := catalog_of (printer s) (events_table w),
    removed := removed_names (events_table w)\<rparr>"
  using same_memoryD [OF assms] by (simp add: view_def fun_eq_iff)

lemma view_same:
  assumes "same_stores w (enter s i)"
  shows "view (leave s i w) = view s" and "table (leave s i w) = table s"
  using same_storesD [OF assms] by (simp_all add: view_def fun_eq_iff)

lemma view_table: "(view s)\<lparr>catalog := catalog_of (printer s) (table s), removed := removed_names (table s)\<rparr> = view s"
  by (simp add: view_def)

definition system_good :: "system \<Rightarrow> bool" where
  "system_good s \<longleftrightarrow> table_ok (table s) \<and> jsonb_keeps (printer s)"

lemma upsert_view:
  assumes "system_good s" and "upsert_row new (table s) = Inr t" and "\<not> r_deleted new"
    and "r_state new \<noteq> ''archived'' \<Longrightarrow> \<forall>i. valid_event (row_event (printer s) (new\<lparr>r_id := i\<rparr>))"
  shows "table_ok t" and
    "(view s)\<lparr>catalog := catalog_of (printer s) t, removed := removed_names t\<rparr> = view s \<or>
     catalog_step (view s) ((view s)\<lparr>catalog := catalog_of (printer s) t, removed := removed_names t\<rparr>)"
proof -
  have ok: "table_ok (table s)" using assms(1) by (simp add: system_good_def)
  then show "table_ok t" using assms(2) by (rule table_ok_upsert)
  from catalog_upsert [OF ok assms(2,3)] obtain i where c: "catalog_of (printer s) t =
    (if r_name new \<in> removed_names (table s) then catalog_of (printer s) (table s)
     else (catalog_of (printer s) (table s))(r_name new :=
       if r_state new = ''archived'' then None else Some (row_event (printer s) (new\<lparr>r_id := i\<rparr>))))" by blast
  have v: "(view s)\<lparr>catalog := m, removed := removed_names (table s)\<rparr> = (view s)\<lparr>catalog := m\<rparr>" for m
    by (simp add: view_def)
  show "(view s)\<lparr>catalog := catalog_of (printer s) t, removed := removed_names t\<rparr> = view s \<or>
     catalog_step (view s) ((view s)\<lparr>catalog := catalog_of (printer s) t, removed := removed_names t\<rparr>)"
  proof (cases "r_name new \<in> removed_names (table s)")
    case True
    then show ?thesis using view_table [of s] by (simp add: c removed_names_upsert [OF assms(2,3)])
  next
    case False
    have cat: "catalog_of (printer s) (table s) = catalog (view s)" by (simp add: view_def)
    show ?thesis
    proof (cases "r_state new = ''archived''")
      case True
      with False show ?thesis
        using catalog_step.Hide [of "view s" "r_name new"] by (simp add: c removed_names_upsert [OF assms(2,3)] v cat)
    next
      case act: False
      let ?e = "row_event (printer s) (new\<lparr>r_id := i\<rparr>)"
      have "valid_event ?e" "event_Name ?e \<notin> removed (view s)"
        using assms(4) [OF act] False by (simp_all add: view_def)
      from catalog_step.Put [OF this] False act show ?thesis
        by (simp add: c removed_names_upsert [OF assms(2,3)] v cat)
    qed
  qed
qed

text \<open>One step of the program is at most one step of the catalog.\<close>

abbreviation implements :: "system \<Rightarrow> system \<Rightarrow> bool" where
  "implements s t \<equiv> system_good t \<and> (view t = view s \<or> catalog_step (view s) (view t))"

lemma implements_same: "system_good s \<Longrightarrow> same_stores w (enter s i) \<Longrightarrow> implements s (leave s i w)"
  using view_same [of w s i] by (simp add: system_good_def)

lemma implements_upsert:
  assumes "system_good s" and "same_memory w (enter s i)"
    and "upsert_row new (table s) = Inr (events_table w)" and "\<not> r_deleted new"
    and "r_state new \<noteq> ''archived'' \<Longrightarrow> \<forall>i. valid_event (row_event (printer s) (new\<lparr>r_id := i\<rparr>))"
  shows "implements s (leave s i w)"
  using upsert_view [OF assms(1,3,4)] assms(1,5) by (simp add: view_leave [OF assms(2)] system_good_def)

lemma implements_no_change:
  assumes "system_good s" and "same_memory w (enter s i)" and "events_table w = table s"
  shows "implements s (leave s i w)"
  using assms(1,3) view_table [of s] by (simp add: view_leave [OF assms(2)] system_good_def)

lemma implements_remove:
  assumes "system_good s" and "same_memory w (enter s i)" and "events_table w = disable_row x (table s)"
  shows "implements s (leave s i w)"
proof -
  have ok: "table_ok (table s)" using assms(1) by (simp add: system_good_def)
  let ?t = "disable_row x (table s)"
  have v: "view (leave s i w) = (view s)\<lparr>catalog := catalog_of (printer s) ?t, removed := removed_names ?t\<rparr>"
    by (simp add: view_leave [OF assms(2)] assms(3))
  from catalog_disable [OF ok, of "printer s" x] have "view (leave s i w) = view s \<or> catalog_step (view s) (view (leave s i w))"
  proof
    assume "catalog_of (printer s) ?t = catalog_of (printer s) (table s) \<and> removed_names ?t = removed_names (table s)"
    then show ?thesis by (simp add: v view_table)
  next
    assume "\<exists>n. catalog_of (printer s) ?t = (catalog_of (printer s) (table s))(n := None) \<and>
      removed_names ?t = insert n (removed_names (table s))"
    then obtain n where "catalog_of (printer s) ?t = (catalog (view s))(n := None)"
      "removed_names ?t = insert n (removed (view s))" by (auto simp: view_def)
    then show ?thesis using catalog_step.Remove [of "view s" n] by (simp add: v)
  qed
  then show ?thesis using assms(1,3) table_ok_disable [OF ok] by (simp add: system_good_def)
qed

lemma view_loaded: "view (loaded s l es) = (view s)\<lparr>in_flight := (in_flight (view s))(l := map_option copy_of es)\<rparr>"
  by (simp add: view_def fun_eq_iff)

text \<open>What is loaded is the catalog, nothing, or not known.\<close>

lemma load_cases:
  assumes "GetAllEvents w = (r, w')"
  shows "map_option copy_of (load_of r) \<in> {None, Some Map.empty, Some (catalog_of (jsonb w) (events_table w))}"
proof (cases "snd r")
  case None
  then obtain es where r: "r = (es, None)" by (cases r) simp
  have "es = Some (map (\<lambda>r. ToDomain (scan_row w r)) (filter active (events_table w)))"
    by (rule GetAllEvents_effect) (use assms r in simp)
  then have "load_of r = Some (map (row_event (jsonb w)) (filter active (events_table w)))"
    by (simp add: r load_of_def scan_row_event)
  then show ?thesis by (simp add: copy_of_rows)
next
  case (Some e)
  have "fst r = None"
    using assms Some by (auto simp: GetAllEvents_def read_events_def split: prod.splits sum.splits)
  with Some show ?thesis by (cases r) (auto simp: load_of_def copy_of_def fun_eq_iff)
qed

lemma implements_load:
  assumes "system_good s" and "GetAllEvents (enter s i) = (r, w)"
  shows "implements s (loaded (leave s i w) l (load_of r))"
proof -
  have same: "same_stores w (enter s i)" using assms(2) by (rule reading_stores(3))
  have v: "view (loaded (leave s i w) l (load_of r)) =
      (view s)\<lparr>in_flight := (in_flight (view s))(l := map_option copy_of (load_of r))\<rparr>"
    by (simp add: view_loaded view_same [OF same])
  have "catalog_of (printer s) (table s) = catalog (view s)" by (simp add: view_def)
  with load_cases [OF assms(2)] have "catalog_step (view s) (view (loaded (leave s i w) l (load_of r)))"
    unfolding v by (auto intro: catalog_step.Begin_load catalog_step.Find_none catalog_step.Fail_load)
  then show ?thesis using assms(1) view_same(2) [OF same] by (simp add: system_good_def)
qed

lemma implements_refresh:
  assumes "system_good s" and "loading s (i, k) = Some es"
  shows "implements s (loaded (leave s i (MemStore_Refresh es (enter s i))) (i, k) None)"
proof -
  have "view (loaded (leave s i (MemStore_Refresh es (enter s i))) (i, k) None) =
    (view s)\<lparr>served := (served (view s))(i := copy_of es), in_flight := (in_flight (view s))((i, k) := None)\<rparr>"
    by (simp add: view_def MemStore_Refresh_def copy_of_def fun_eq_iff)
  moreover have "in_flight (view s) (i, k) = Some (copy_of es)" using assms(2) by (simp add: view_def)
  ultimately have "catalog_step (view s) (view (loaded (leave s i (MemStore_Refresh es (enter s i))) (i, k) None))"
    by (simp add: catalog_step.End_load)
  then show ?thesis using assms(1) by (simp add: system_good_def MemStore_Refresh_def)
qed

lemma implements_restart:
  assumes "system_good s" and "events_table w = table s"
  shows "implements s ((leave s i (NewMemStore w))\<lparr>loading := (\<lambda>(j, k). if j = i then None else loading s (j, k))\<rparr>)"
proof -
  let ?t = "(leave s i (NewMemStore w))\<lparr>loading := (\<lambda>(j, k). if j = i then None else loading s (j, k))\<rparr>"
  have "view ?t = (view s)\<lparr>served := (served (view s))(i := Map.empty),
      in_flight := (\<lambda>(j, k). if j = i then None else in_flight (view s) (j, k))\<rparr>"
    using assms(2) by (auto simp: view_def NewMemStore_def fun_eq_iff)
  then have "catalog_step (view s) (view ?t)" by (simp add: catalog_step.Restart)
  then show ?thesis using assms by (simp add: system_good_def NewMemStore_def)
qed

lemma step_implements:
  assumes "system_step parse_uuid s t" and good: "system_good s"
  shows "implements s t"
  using assms(1)
proof cases
  case (Register b i r w)
  note mem = memory_register [OF Register(2)]
  from Register(2) show ?thesis
  proof (cases rule: registered_row)
    case 1
    then show ?thesis unfolding Register(1) by (intro implements_no_change [OF good mem]) simp
  next
    case (2 new)
    then show ?thesis unfolding Register(1) using good
      by (intro implements_upsert [OF good mem]) (auto simp: system_good_def)
  qed
next
  case (Archive b i resp w)
  note mem = memory_archive [OF Archive(2)]
  from Archive(2) show ?thesis
  proof (cases rule: archived_row)
    case 1
    then show ?thesis unfolding Archive(1) by (intro implements_no_change [OF good mem]) simp
  next
    case (2 new)
    then show ?thesis unfolding Archive(1) by (intro implements_upsert [OF good mem]) auto
  qed
next
  case (Remove_event x i resp w)
  note mem = memory_remove [OF Remove_event(2)]
  from Remove_event(2) show ?thesis
  proof (cases rule: removed_row)
    case 1
    then show ?thesis unfolding Remove_event(1) by (intro implements_no_change [OF good mem]) simp
  next
    case (2 j)
    then show ?thesis unfolding Remove_event(1) by (intro implements_remove [OF good mem]) simp
  qed
next
  case (Load i es w k)
  then show ?thesis using implements_load [OF good] by simp
next
  case (Refresh i k es)
  then show ?thesis using implements_refresh [OF good] by simp
next
  case (Restart_process w i)
  then show ?thesis using implements_restart [OF good] by simp
qed (hypsubst, rule implements_same [OF good], blast intro: reading_stores PublisherEvent_stores pubsub_PublisherEvent_stores
    more_publishers task_stores message_stores task_worker_stores pubsub_worker_stores dead_letter_stores)+

interpretation program: simulation catalog_step "system_step parse_uuid" view system_good for parse_uuid
  by unfold_locales (use step_implements in blast)+

section \<open>Runs\<close>

lemma initial_good: "initial s \<Longrightarrow> system_good s"
  by (simp add: initial_def system_good_def table_ok_def)

lemma initial_view: "initial s \<Longrightarrow> catalog_ok (view s)"
  by (simp add: initial_def catalog_ok_def view_def catalog_of_def removed_names_def holds_valid_def)

lemma run_catalog_ok: "initial s \<Longrightarrow> rtranclp (system_step parse_uuid) s t \<Longrightarrow> catalog_ok (view t)"
  using program.invariant_run [of parse_uuid s t catalog_ok]
  by (blast intro: initial_good initial_view catalog_step_ok)

lemma run_serves_valid:
  assumes "initial s" and "rtranclp (system_step parse_uuid) s t" and "go_get (topicEvents (procs t i)) n = Some e"
  shows "event_Name e = n \<and> valid_event e"
proof -
  have "holds_valid (go_get (topicEvents (procs t i)))"
    using run_catalog_ok [OF assms(1,2)] by (simp add: catalog_ok_def view_def)
  with assms(3) show ?thesis by (auto simp: holds_valid_def)
qed

text \<open>Loading as \<open>LoadInMemStore\<close> does it, without another step in between, is a run.\<close>

lemma LoadInMemStore_run:
  assumes "loading s (i, k) = None"
  shows "rtranclp (system_step parse_uuid) s (leave s i (snd (LoadInMemStore GetAllEvents (enter s i))))"
proof -
  obtain r w where g: "GetAllEvents (enter s i) = (r, w)" by (cases "GetAllEvents (enter s i)")
  have same: "same_stores w (enter s i)" using g by (rule reading_stores(3))
  let ?s1 = "loaded (leave s i w) (i, k) (load_of r)"
  have s1: "system_step parse_uuid s ?s1" using g by (rule system_step.Load)
  have load: "snd (LoadInMemStore GetAllEvents (enter s i)) =
      (case load_of r of Some es \<Rightarrow> MemStore_Refresh es w | None \<Rightarrow> w)"
    using LoadInMemStore_effect [of GetAllEvents, OF g] by (simp split: option.splits)
  show ?thesis
  proof (cases "load_of r")
    case None
    then have "?s1 = leave s i w" using assms by (simp add: loaded_def leave_def fun_upd_idem)
    with s1 None show ?thesis by (simp add: load)
  next
    case (Some es)
    have "enter ?s1 i = w"
      using same_storesD [OF same] by (simp add: enter_def)
    then have "loaded (leave ?s1 i (MemStore_Refresh es (enter ?s1 i))) (i, k) None =
        leave s i (MemStore_Refresh es w)"
      using assms same_storesD [OF same]
      by (simp add: loaded_def leave_def MemStore_Refresh_def fun_upd_idem)
    moreover have "system_step parse_uuid ?s1 (loaded (leave ?s1 i (MemStore_Refresh es (enter ?s1 i))) (i, k) None)"
      using Some by (intro system_step.Refresh) simp
    ultimately show ?thesis using s1 Some by (simp add: load)
  qed
qed

section \<open>What the system promises\<close>





section \<open>Concrete runs\<close>

definition calm_system :: "row list \<Rightarrow> system" where
  "calm_system t = \<lparr>table = t, printer = (\<lambda>b. b), procs = (\<lambda>_. calm_store t), loading = (\<lambda>_. None)\<rparr>"

lemma calm_system_simps [simp]:
  "table (calm_system t) = t" "printer (calm_system t) = (\<lambda>b. b)" "loading (calm_system t) l = None"
  "enter (calm_system t) i = calm_store t" "initial (calm_system [])"
  by (simp_all add: calm_system_def enter_def initial_def calm_store_def jsonb_keeps_id)

lemma answer_scan: "answer (snd (scan_rows what rows acc w)) = answer w"
proof (induction rows arbitrary: acc w)
  case Nil
  show ?case by (auto split: prod.splits option.splits dest!: ask_errD)
next
  case (Cons r rows)
  obtain e w1 where a: "ask_err (Other ''rows.Scan'' []) w = (e, w1)" by (cases "ask_err (Other ''rows.Scan'' []) w")
  with Cons.IH [of "acc @ [ToDomain (scan_row w1 r)]" w1] show ?case by (cases e) (auto dest: ask_errD)
qed

lemma answer_read: "answer (snd (read_events sql f w)) = answer w"
proof -
  obtain r w1 where q: "query_sql sql f w = (r, w1)" by (cases "query_sql sql f w")
  have "answer w1 = answer w" using q by (auto simp: query_sql_def split: prod.splits option.splits dest!: ask_errD)
  with q show ?thesis
    using answer_scan [of "''failed to iterate over events''" "projr r" "[]" w1]
    by (auto simp: read_events_def split: sum.splits prod.splits)
qed

lemma answer_load: "answer (snd (LoadInMemStore GetAllEvents w)) = answer w"
proof -
  obtain r w1 where g: "GetAllEvents w = (r, w1)" by (cases "GetAllEvents w")
  then have "w1 = snd (GetAllEvents w)" by simp
  then have "answer w1 = answer w" by (simp add: GetAllEvents_def answer_read)
  then show ?thesis
    using LoadInMemStore_effect [of GetAllEvents, OF g] by (simp add: MemStore_Refresh_def split: option.splits)
qed

lemma sample_saved_store:
  assumes "EventDto_json sample_dto = Inr j"
  shows "\<exists>resp w'. SaveConsumerHandle (json_text j) (calm_store []) = (Returns resp, w') \<and> status_of resp = 200"
  using assms EventDto_roundtrip [OF sample_dto_ok assms]
  by (simp add: SaveConsumerHandle_def EventDto_ToDomain_def Cfg_Get_def cfg_Get_ok calm_store_def
      sample_cfg_def new_uuid_def ask_def Validate_event_def Event_Validate_def sample_dto_def Opt_Validate_def
      WQType_Validate_def zero_Opt_def consumers_of_def Upsert_def marshal_columns_def Opt_json_def
      enc_deadline_def time_now_def exec_sql_def ask_err_def err_of_def upsert_row_def encode_json_def Let_def)

text \<open>Process 0 registers the event of the samples, process 1 loads it.\<close>

lemma sample_system_run:
  "\<exists>t e. rtranclp (system_step Some) (calm_system []) t \<and> fst (MemStore_GetEvent ''paid'' (enter t 1)) = Inr e \<and>
     all_done (enter t 1)"
proof -
  obtain j where j: "EventDto_json sample_dto = Inr j" using sample_dto_json by blast
  obtain resp w where run: "SaveConsumerHandle (json_text j) (calm_store []) = (Returns resp, w)"
    and ok: "status_of resp = 200" using sample_saved_store [OF j] by blast
  let ?s = "leave (calm_system []) 0 w"
  let ?v = "calm_store (events_table w)"
  have v: "enter ?s 1 = ?v" by (simp add: enter_def calm_system_def calm_store_def)
  have s: "system_step Some (calm_system []) ?s" using run by (intro system_step.Register) simp
  let ?t = "leave ?s 1 (snd (LoadInMemStore GetAllEvents (enter ?s 1)))"
  have t: "rtranclp (system_step Some) ?s ?t" by (rule LoadInMemStore_run [where k = 0]) simp
  obtain es v1 where load: "GetAllEvents ?v = ((es, None), v1)" using calm_GetAllEvents by blast
  have pre: "table_ok (events_table (calm_store []))"
    "\<not> (\<exists>r\<in>set (events_table (calm_store [])). r_name r = d_Name sample_dto \<and> r_deleted r)"
    "events_table ?v = events_table w" "jsonb_keeps (jsonb ?v)"
    by (simp_all add: calm_store_def table_ok_def jsonb_keeps_id)
  from registered_served [OF run ok EventDto_roundtrip [OF sample_dto_ok j] pre load] obtain e where
    e: "fst (MemStore_GetEvent ''paid'' (snd (LoadInMemStore GetAllEvents ?v))) = Inr e" by (auto simp: sample_dto_def)
  have "topicEvents (enter ?t 1) = topicEvents (snd (LoadInMemStore GetAllEvents ?v))"
    by (simp only: v enter_simps leave_simps fun_upd_same)
  then have "fst (MemStore_GetEvent ''paid'' (enter ?t 1)) = Inr e"
    using e by (simp add: MemStore_GetEvent_def split: option.splits)
  moreover have "answer (enter ?t 1) = answer (snd (LoadInMemStore GetAllEvents ?v))"
    by (simp only: v enter_simps leave_simps fun_upd_same)
  then have "all_done (enter ?t 1)" by (simp add: all_done_def answer_load del: enter_simps) (simp add: calm_store_def)
  ultimately show ?thesis using s t by (blast intro: converse_rtranclp_into_rtranclp)
qed





end
