(* ===== verification/Broker.thy ===== *)
theory Broker
  imports Composition
begin

text \<open>
  The Pub/Sub side as a whole: the broker keeps the messages its clients published until one of the
  handlers the service subscribed with acknowledges them. What a handler publishes again - a retry,
  a dead letter - arrives as a message of its own, with an identifier and a time the broker chooses.
\<close>

section \<open>One delivery to a consumer\<close>

lemma published_calls:
  "ask_err c w = (e, w') \<Longrightarrow> \<not> is_publish c \<Longrightarrow> published w' = published w"
  "ask c w = (r, w') \<Longrightarrow> \<not> is_publish c \<Longrightarrow> published w' = published w"
  "time_now w = (t, w') \<Longrightarrow> published w' = published w"
  using accepted_of_ask_err [of c w e w' is_publish] accepted_of_ask_err [of c w _ w' is_publish] published_now [of w]
  by (auto simp: ask_err_def)

lemma published_client:
  "NewHTTPClientWithLogging settings w = (c, w') \<Longrightarrow> published w' = published w"
  "client_Do c url b h w = (r, w') \<Longrightarrow> published w' = published w"
  by (auto simp: NewHTTPClientWithLogging_def Let_def client_Do_def ClientHTTPTransport_RoundTrip_def post_def
      split: prod.splits option.splits http_client.splits dest!: published_calls)

lemma published_notify: "Notify data headers c opt w = (e, w') \<Longrightarrow> published w' = published w"
  by (simp add: Notify_def fetch_def Let_def split: prod.splits option.splits sum.splits)
    (auto dest!: published_calls published_client split: if_splits)

lemma published_recorded:
  "published (pubsub_recordDuration s p e w) = published w" "delivered (pubsub_recordDuration s p e w) = delivered w"
  by (simp_all add: pubsub_recordDuration_def case_prod_beta Let_def)

text \<open>The handler of the service publishes nothing itself; it delivers once when it succeeds.\<close>

abbreviation request_handle :: "'a log_world_scheme Handle" where
  "request_handle \<equiv> pubsub_GetRequestHandle Notify store_consumed"

lemma silent_inserted: "published (insert_consumed store_consumed p s ok w) = published w"
  by (simp add: insert_consumed_def case_prod_beta publications.stored_consumed)

lemma silent_request: "silent request_handle"
proof -
  have "published (snd (Handler request_handle b w)) = published w" for b and w :: "'a log_world_scheme"
  proof -
    obtain started w0 where t: "time_now w = (started, w0)" by (cases "time_now w")
    note w0 = publications.asked_time [OF t]
    show ?thesis
      using w0
      by (auto simp: pubsub_GetRequestHandle_def t Let_def published_recorded silent_inserted
          split: sum.splits prod.splits option.splits dest!: published_notify)
  qed
  then show ?thesis by (simp add: silent_def)
qed

lemma request_delivers:
  assumes "Handler request_handle b w = (e, w')"
  shows "if e = None
    then \<exists>payload h. AsyncCtx_Payload into_RequestPayload zero_RequestPayload b = Inr payload \<and>
      delivered w' = delivered w @
        [HttpPost (Consumer_GetUrl (rp_Consumer payload)) (json_text (enc_anymap (rp_Data payload))) h]
    else delivered w' = delivered w"
proof -
  obtain started w0 where t: "time_now w = (started, w0)" by (cases "time_now w")
  have w0: "delivered w0 = delivered w" using deliveries.asked_time [OF t] .
  have ins: "delivered (insert_consumed store_consumed p s ok v) = delivered v" for p s ok and v :: "'a log_world_scheme"
    by (rule insert_consumed_quiet [OF quiet_stores(2)])
  show ?thesis
  proof (cases "AsyncCtx_Payload into_RequestPayload zero_RequestPayload b")
    case (Inl err)
    with assms w0 show ?thesis by (auto simp: pubsub_GetRequestHandle_def t)
  next
    case (Inr payload)
    obtain e1 w1 where n: "Notify (rp_Data payload) (Some (pubsub_mergeHeaders payload (c_Headers (rp_Consumer payload))))
        (rp_Consumer payload) kind_HighThroughput w0 = (e1, w1)" by (metis prod.collapse)
    have "e = map_option (ErrWrap ''fetch consumer'') e1 \<and> delivered w' = delivered w1"
      using assms n Inr
      by (auto simp: pubsub_GetRequestHandle_def t Let_def ins published_recorded split: option.splits)
    with fetcher.outcome [OF n] Inr w0 show ?thesis by (cases e1) auto
  qed
qed

section \<open>A delivery does not panic\<close>

text \<open>The attributes every message of the service carries, and those it gets on its way.\<close>

definition routed :: "string gomap \<Rightarrow> bool" where
  "routed attrs \<longleftrightarrow> gomap_ok attrs \<and> go_get attrs ''topic'' = Some request_topic \<and>
     go_get attrs ''max_retries'' = Some (itoa 1)"

definition tried :: "nat \<Rightarrow> string gomap \<Rightarrow> bool" where
  "tried n attrs \<longleftrightarrow> go_get attrs ''retry_count'' = (if n = 0 then None else Some (itoa (int n)))"

lemma itoa_one: "itoa 1 = ''1''"
  by code_simp

lemma atoi_itoa_1: "atoi (itoa 1) = Some 1"
  by (rule atoi_itoa) simp_all

lemma tried_count:
  "tried n attrs \<Longrightarrow> n \<le> 1 \<Longrightarrow>
     atoi (case go_get attrs ''retry_count'' of None \<Rightarrow> ''0'' | Some v \<Rightarrow> v) = Some (int n)"
  by (auto simp: tried_def atoi_zero atoi_itoa_1 le_Suc_eq)

lemma routed_put: "routed attrs \<Longrightarrow> k \<noteq> ''topic'' \<Longrightarrow> k \<noteq> ''max_retries'' \<Longrightarrow> routed (go_put k v attrs)"
  by (simp add: routed_def)

lemma delivered_calls:
  "ask_err c w = (e, w') \<Longrightarrow> \<not> is_post c \<Longrightarrow> delivered w' = delivered w"
  by (rule delivered_ask_err)

lemma delivered_publish: "PubSubGoogle_Publish t p opts w = (e, w') \<Longrightarrow> delivered w' = delivered w"
  by (auto simp: PubSubGoogle_Publish_def split: sum.splits prod.splits option.splits dest!: delivered_calls)

lemma delivered_retry:
  assumes "retryable PubSubGoogle_Publish m w = (r, w')"
  shows "delivered w' = delivered w"
  using assms
  by (auto simp: retryable_def archivedMsg_def wait_retry_def Let_def
      split: prod.splits option.splits if_splits dest!: delivered_publish delivered_calls)

text \<open>What becomes of a message that failed \<open>n\<close> times before, \<open>n\<close> being 0 or 1.\<close>

lemma failed_delivery:
  assumes "msg_Attributes m = Some attrs" and "routed attrs" and "tried n attrs" and "n \<le> 1"
    and run: "retryable PubSubGoogle_Publish (put_attribute ''msg'' text m) w = ((acks, res), w')"
  shows "res = Returns () \<and> acks \<noteq> [] \<and> delivered w' = delivered w \<and>
    (published w' = published w \<or>
     (settled acks = Ack \<and> (\<exists>m1 j attrs1. Message_json m1 = Inr j \<and> msg_Data m1 = msg_Data m \<and>
        msg_DeliveryAttempt m1 = msg_DeliveryAttempt m \<and> msg_Attributes m1 = Some attrs1 \<and> routed attrs1 \<and> tried 1 attrs1 \<and>
        published w' = published w @
          [PubSubPublish (if n = 0 then request_topic else dead_letter_topic) (json_text j) attrs1])))"
proof -
  let ?m = "put_attribute ''msg'' text m"
  let ?as = "go_put ''msg'' text attrs"
  have as: "attributes_of ?m = ?as" using assms(1) by (simp add: attributes_of_def)
  have r: "routed ?as" by (rule routed_put [OF assms(2)]) simp_all
  have cnt: "atoi (case go_get (attributes_of ?m) ''retry_count'' of None \<Rightarrow> ''0'' | Some v \<Rightarrow> v) = Some (int n)"
    using tried_count [OF assms(3,4)] by (simp add: as)
  have max: "atoi (go_lookup (attributes_of ?m) ''max_retries'') = Some 1"
    using r by (simp add: as routed_def go_lookup_def atoi_itoa_1)
  have topic: "go_lookup (attributes_of ?m) ''topic'' = request_topic"
    using r by (simp add: as routed_def go_lookup_def)
  have ret: "res = Returns ()" "acks \<noteq> []"
    using run by (auto simp: retryable_def Let_def cnt max archivedMsg_def split: prod.splits option.splits if_splits)
  have del: "delivered w' = delivered w" by (rule delivered_retry [OF run])
  from run ret(1) have "retryable PubSubGoogle_Publish ?m w = ((acks, Returns ()), w')" by simp
  then show ?thesis
  proof (cases rule: retryable_cases)
    case (dead n' k j)
    have "n = 1" using dead(1-3) cnt max assms(4) by auto
    then have "tried 1 ?as" using assms(3) by (simp add: tried_def)
    with dead ret del r \<open>n = 1\<close> show ?thesis using assms(1)
      by (auto simp: pubsub_message_def msg_opts_def put_attribute_def intro!: exI [of _ ?m])
  next
    case (again n' k j)
    have n: "n = 0" "n' = 0" using again(1-3) cnt max assms(4) by auto
    let ?m1 = "put_attribute ''retry_count'' (itoa (n' + 1)) ?m"
    let ?as1 = "go_put ''retry_count'' (itoa 1) ?as"
    have "routed ?as1" by (rule routed_put [OF r]) simp_all
    moreover have "tried 1 ?as1" by (simp add: tried_def)
    moreover have "msg_Attributes ?m1 = Some ?as1" using assms(1) n by simp
    ultimately show ?thesis
      using again(4-6) ret del n topic
      by (auto simp: pubsub_message_def msg_opts_def put_attribute_def intro!: exI [of _ ?m1])
  next
    case (lost ts)
    with ret del show ?thesis by simp
  next
    case nacked
    with ret del show ?thesis by simp
  qed
qed

section \<open>The broker\<close>

text \<open>The messages that are not acknowledged yet, with their topics, and the world of the service.\<close>

record broker =
  pending :: "(string \<times> Message) list"
  service :: store_world

definition subscribed :: "string \<Rightarrow> store_world gpubsub_Handle \<Rightarrow> bool" where
  "subscribed topic h \<longleftrightarrow> h \<in> set pubsub_handlers \<and> BuildTopicName domain_ProjectID (gp_TopicName h) = topic"

text \<open>The message a publication becomes: its data and attributes, the rest is the broker's.\<close>

definition carries :: "call \<Rightarrow> string \<times> Message \<Rightarrow> bool" where
  "carries c x \<longleftrightarrow> (\<exists>data attrs. c = PubSubPublish (fst x) data attrs \<and> msg_Data (snd x) = Some data \<and>
     msg_Attributes (snd x) = Some attrs \<and>
     (case msg_DeliveryAttempt (snd x) of None \<Rightarrow> True | Some i \<Rightarrow> int64_ok i))"

definition arrived :: "store_world \<Rightarrow> store_world \<Rightarrow> (string \<times> Message) list \<Rightarrow> bool" where
  "arrived v w new \<longleftrightarrow> (\<exists>cs. published w = published v @ cs \<and> list_all2 carries cs new)"

text \<open>What happens: a request publishes messages, a message is handled and settled, with the number of
  consumers it was delivered to, or the rest of the process does something.\<close>

datatype action = Sent nat | Handled ack_call nat | Elsewhere

text \<open>The messages may be handled in any order, and a message that is not acknowledged stays.\<close>

inductive broker_step :: "broker \<Rightarrow> action \<Rightarrow> broker \<Rightarrow> bool" where
  Request: "pubsub_PublisherEvent MemStore_GetEvent PubSubGoogle_Publish store_published b (service s) = (resp, w) \<Longrightarrow>
    arrived (service s) w new \<Longrightarrow>
    broker_step s (Sent (length new)) \<lparr>pending = pending s @ new, service = w\<rparr>"
| Deliver: "pending s = xs @ (topic, m) # ys \<Longrightarrow> subscribed topic h \<Longrightarrow>
    gp_Handler h m (service s) = ((acks, res), w) \<Longrightarrow> arrived (service s) w new \<Longrightarrow>
    broker_step s (Handled (settled acks) (length (delivered w) - length (delivered (service s))))
      \<lparr>pending = xs @ (if settled acks = Ack then [] else [(topic, m)]) @ ys @ new, service = w\<rparr>"
| Other: "broker_step s Elsewhere (s\<lparr>service := w\<rparr>)"

inductive broker_run :: "broker \<Rightarrow> action list \<Rightarrow> broker \<Rightarrow> bool" where
  Nil: "broker_run s [] s"
| Snoc: "broker_run s as t \<Longrightarrow> broker_step t a u \<Longrightarrow> broker_run s (as @ [a]) u"

inductive_cases broker_run_NilE: "broker_run s [] t"

section \<open>The stages of a message\<close>

definition fresh :: "string \<times> Message \<Rightarrow> bool" where
  "fresh x \<longleftrightarrow> fst x = request_topic \<and>
     (\<exists>attrs. msg_Attributes (snd x) = Some attrs \<and> routed attrs \<and> tried 0 attrs)"

text \<open>A retried message carries a message where a request is expected.\<close>

definition retried :: "string \<times> Message \<Rightarrow> bool" where
  "retried x \<longleftrightarrow> fst x = request_topic \<and>
     (\<exists>attrs. msg_Attributes (snd x) = Some attrs \<and> routed attrs \<and> tried 1 attrs) \<and>
     (\<exists>m j. Message_json m = Inr j \<and> msg_Data m \<noteq> None \<and> msg_Data (snd x) = Some (json_text j))"

definition dead_letter :: "string \<times> Message \<Rightarrow> bool" where
  "dead_letter x \<longleftrightarrow> fst x = dead_letter_topic \<and>
     (\<exists>m j. message_ok m \<and> Message_json m = Inr j \<and> msg_Data (snd x) = Some (json_text j))"

definition stage_ok :: "string \<times> Message \<Rightarrow> bool" where
  "stage_ok x \<longleftrightarrow> (fresh x \<or> retried x \<or> dead_letter x) \<and> msg_Data (snd x) \<noteq> None \<and>
     (case msg_DeliveryAttempt (snd x) of None \<Rightarrow> True | Some i \<Rightarrow> int64_ok i)"

lemma topics_differ: "request_topic \<noteq> dead_letter_topic"
  by code_simp

lemma not_both: "fresh x \<Longrightarrow> \<not> retried x" "dead_letter x \<Longrightarrow> \<not> fresh x" "dead_letter x \<Longrightarrow> \<not> retried x"
  using topics_differ by (auto simp: fresh_def retried_def dead_letter_def tried_def)

text \<open>How many acknowledged deliveries a message can still cause, and how many consumers it can reach.\<close>

definition steps_left :: "string \<times> Message \<Rightarrow> nat" where
  "steps_left x = (if fresh x then 3 else if retried x then 2 else 1)"

definition chances :: "string \<times> Message \<Rightarrow> nat" where
  "chances x = (if fresh x then 1 else 0)"

lemma handlers:
  "subscribed request_topic h \<longleftrightarrow> h = to_gpubsub request_handle"
  "subscribed dead_letter_topic h \<longleftrightarrow> h = to_gpubsub (NewDeadLatterQueue MemStore_GetAllSchedulers Notify)"
  using topics_differ
  by (auto simp: subscribed_def pubsub_handlers_def to_gpubsub_def request_topic_def dead_letter_topic_def
      pubsub_GetRequestHandle_def NewDeadLatterQueue_def)

lemma stage_topic: "stage_ok (topic, m) \<Longrightarrow> topic = request_topic \<or> topic = dead_letter_topic"
  by (auto simp: stage_ok_def fresh_def retried_def dead_letter_def)

text \<open>What a delivery leads to.\<close>

definition progress :: "string \<times> Message \<Rightarrow> ack_call \<Rightarrow> nat \<Rightarrow> (string \<times> Message) list \<Rightarrow> bool" where
  "progress x ack d new \<longleftrightarrow> list_all stage_ok new \<and> sum_list (map chances new) = 0 \<and>
     (case ack of
        Ack \<Rightarrow> sum_list (map steps_left new) < steps_left x \<and> d \<le> chances x
      | Nack \<Rightarrow> new = [] \<and> d = 0)"

lemma steps_left_pos [simp]: "0 < steps_left x"
  by (simp add: steps_left_def)

lemma arrived_none: "arrived v w new \<Longrightarrow> published w = published v \<Longrightarrow> new = []"
  by (auto simp: arrived_def)

lemma arrived_one: "arrived v w new \<Longrightarrow> published w = published v @ [c] \<Longrightarrow> \<exists>x. new = [x] \<and> carries c x"
  by (auto simp: arrived_def list_all2_Cons1)

lemma progress_none: "d \<le> chances x \<Longrightarrow> progress x Ack d []" "progress x Nack 0 []"
  by (simp_all add: progress_def)

lemma request_progress:
  assumes "msg_Attributes m = Some attrs" and "routed attrs" and "tried n attrs" and "n \<le> 1"
    and stage: "stage_ok (request_topic, m)" and "n = 0 \<longleftrightarrow> fresh (request_topic, m)"
    and run: "ToGPubSubHandler request_handle PubSubGoogle_Publish m w = ((acks, res), w')"
    and arr: "arrived w w' new"
  shows "res = Returns () \<and> progress (request_topic, m) (settled acks) (length (delivered w') - length (delivered w)) new"
proof -
  let ?x = "(request_topic, m)"
  let ?b = "case msg_Data m of None \<Rightarrow> [] | Some b \<Rightarrow> b"
  obtain e w1 where h: "Handler request_handle ?b w = (e, w1)" by (metis prod.collapse)
  have p1: "published w1 = published w" using silent_request h by (metis silent_def snd_conv)
  note d1 = request_delivers [OF h]
  show ?thesis
  proof (cases e)
    case None
    with run h have r: "acks = [Ack, Nack]" "res = Returns ()" "w' = w1" by (simp_all add: ToGPubSubHandler_def)
    have "n = 0"
    proof (rule ccontr)
      assume "n \<noteq> 0"
      with assms(6) stage topics_differ have "retried ?x"
        by (auto simp: stage_ok_def dead_letter_def)
      then obtain m0 j where "Message_json m0 = Inr j" "msg_Data m0 \<noteq> None" "msg_Data m = Some (json_text j)"
        by (auto simp: retried_def)
      with envelope_undecodable [of m0 j] d1 None show False by auto
    qed
    then have "chances ?x = 1" using assms(6) by (simp add: chances_def)
    moreover have "length (delivered w') - length (delivered w) = 1" using d1 None r(3) by auto
    ultimately show ?thesis
      using arrived_none [OF arr] p1 r by (simp add: settled_def progress_none)
  next
    case (Some err)
    obtain acks1 res1 where rt: "retryable PubSubGoogle_Publish (put_attribute ''msg'' (error_msg err) m) w1 = ((acks1, res1), w')"
      and r: "acks = acks1 @ [Nack]" "res = res1"
      using run h Some assms(1) by (auto simp: ToGPubSubHandler_def split: prod.splits)
    from failed_delivery [OF assms(1-4) rt] have f: "res = Returns ()" "acks1 \<noteq> []" "delivered w' = delivered w1"
      "published w' = published w1 \<or> (settled acks1 = Ack \<and> (\<exists>m1 j attrs1. Message_json m1 = Inr j \<and>
        msg_Data m1 = msg_Data m \<and> msg_DeliveryAttempt m1 = msg_DeliveryAttempt m \<and>
        msg_Attributes m1 = Some attrs1 \<and> routed attrs1 \<and> tried 1 attrs1 \<and>
        published w' = published w1 @
          [PubSubPublish (if n = 0 then request_topic else dead_letter_topic) (json_text j) attrs1]))"
      using r by blast+
    have s: "settled acks = settled acks1" using f(2) r(1) by (cases acks1) (simp_all add: settled_def)
    have d: "length (delivered w') - length (delivered w) = 0" using d1 Some f(3) by simp
    from f(4) show ?thesis
    proof
      assume "published w' = published w1"
      then have "new = []" using arrived_none [OF arr] p1 by simp
      then show ?thesis using f(1) d by (cases "settled acks") (simp_all add: progress_none)
    next
      assume "settled acks1 = Ack \<and> (\<exists>m1 j attrs1. Message_json m1 = Inr j \<and>
        msg_Data m1 = msg_Data m \<and> msg_DeliveryAttempt m1 = msg_DeliveryAttempt m \<and>
        msg_Attributes m1 = Some attrs1 \<and> routed attrs1 \<and> tried 1 attrs1 \<and>
        published w' = published w1 @
          [PubSubPublish (if n = 0 then request_topic else dead_letter_topic) (json_text j) attrs1])"
      then obtain m1 j attrs1 where a: "settled acks1 = Ack" "Message_json m1 = Inr j" "msg_Data m1 = msg_Data m"
        "msg_DeliveryAttempt m1 = msg_DeliveryAttempt m" "msg_Attributes m1 = Some attrs1" "routed attrs1" "tried 1 attrs1"
        "published w' = published w @
          [PubSubPublish (if n = 0 then request_topic else dead_letter_topic) (json_text j) attrs1]"
        using p1 by auto
      from arrived_one [OF arr a(8)] obtain y where new: "new = [y]"
        and c: "carries (PubSubPublish (if n = 0 then request_topic else dead_letter_topic) (json_text j) attrs1) y" by blast
      have m1: "message_ok m1" using a(4-6) stage by (simp add: message_ok_def strmap_ok_def routed_def stage_ok_def)
      have dm: "msg_Data m \<noteq> None" using stage by (simp add: stage_ok_def)
      show ?thesis
      proof (cases "n = 0")
        case True
        have "\<exists>m j'. Message_json m = Inr j' \<and> msg_Data m \<noteq> None \<and> json_text j = json_text j'"
          using a(2,3) dm by metis
        with True have "retried y" using c a(6,7) by (auto simp: carries_def retried_def)
        moreover from this have "\<not> fresh y" using not_both(1) by blast
        ultimately have "stage_ok y" "steps_left y = 2" "chances y = 0"
          using c by (auto simp: stage_ok_def carries_def steps_left_def chances_def)
        moreover have "steps_left ?x = 3" using True assms(6) by (simp add: steps_left_def)
        ultimately show ?thesis using f(1) d s a(1) new by (simp add: progress_def)
      next
        case False
        then have "dead_letter y" using c a(2) m1 by (auto simp: carries_def dead_letter_def)
        moreover from this have "\<not> fresh y" "\<not> retried y" using not_both by blast+
        ultimately have "stage_ok y" "steps_left y = 1" "chances y = 0"
          using c by (auto simp: stage_ok_def carries_def steps_left_def chances_def)
        moreover have "\<not> fresh ?x" using False assms(6) by simp
        moreover from this have "retried ?x" using stage topics_differ by (auto simp: stage_ok_def dead_letter_def)
        ultimately have "stage_ok y" "steps_left y = 1" "chances y = 0" "steps_left ?x = 2"
          by (simp_all add: steps_left_def)
        then show ?thesis using f(1) d s a(1) new by (simp add: progress_def)
      qed
    qed
  qed
qed

lemma delivery_progress:
  assumes stage: "stage_ok (topic, m)" and "subscribed topic h"
    and run: "gp_Handler h m w = ((acks, res), w')" and arr: "arrived w w' new"
  shows "res = Returns () \<and> progress (topic, m) (settled acks) (length (delivered w') - length (delivered w)) new"
proof -
  consider (f) "fresh (topic, m)" | (r) "retried (topic, m)" | (d) "dead_letter (topic, m)"
    using stage by (auto simp: stage_ok_def)
  then show ?thesis
  proof cases
    case f
    then have topic: "topic = request_topic" by (simp add: fresh_def)
    from f obtain attrs where "msg_Attributes m = Some attrs" "routed attrs" "tried 0 attrs" by (auto simp: fresh_def)
    with request_progress [of m attrs 0 w acks res w' new] f stage run arr assms(2) show ?thesis
      unfolding topic by (simp add: handlers to_gpubsub_def)
  next
    case r
    then have topic: "topic = request_topic" by (simp add: retried_def)
    from r obtain attrs where "msg_Attributes m = Some attrs" "routed attrs" "tried 1 attrs" by (auto simp: retried_def)
    moreover have "\<not> fresh (topic, m)" using r not_both(1) by blast
    ultimately show ?thesis
      using request_progress [of m attrs 1 w acks res w' new] stage run arr assms(2)
      unfolding topic by (simp add: handlers to_gpubsub_def)
  next
    case d
    then have topic: "topic = dead_letter_topic" by (simp add: dead_letter_def)
    from d obtain m0 j where "message_ok m0" "Message_json m0 = Inr j" "msg_Data m = Some (json_text j)"
      by (auto simp: dead_letter_def)
    from dead_letter_acked [OF this, of Notify PubSubGoogle_Publish w] run assms(2)
    have "acks = [Ack, Nack]" "res = Returns ()" "w' = w"
      unfolding topic by (simp_all add: handlers to_gpubsub_def)
    with arrived_none [OF arr] show ?thesis by (simp add: settled_def progress_none)
  qed
qed

lemma delivery_returns:
  assumes stage: "stage_ok (topic, m)" and "subscribed topic h" and run: "gp_Handler h m w = ((acks, res), w')"
  shows "res = Returns ()"
proof (cases "dead_letter (topic, m)")
  case True
  then have topic: "topic = dead_letter_topic" by (simp add: dead_letter_def)
  from True obtain m0 j where "message_ok m0" "Message_json m0 = Inr j" "msg_Data m = Some (json_text j)"
    by (auto simp: dead_letter_def)
  from dead_letter_acked [OF this, of Notify PubSubGoogle_Publish w] run assms(2) show ?thesis
    unfolding topic by (simp add: handlers to_gpubsub_def)
next
  case False
  with stage obtain attrs n where a: "msg_Attributes m = Some attrs" "routed attrs" "tried n attrs" "n \<le> 1"
    and topic: "topic = request_topic"
    by (fastforce simp: stage_ok_def fresh_def retried_def)
  obtain e w1 where h: "Handler request_handle (case msg_Data m of None \<Rightarrow> [] | Some b \<Rightarrow> b) w = (e, w1)"
    by (metis prod.collapse)
  show ?thesis
  proof (cases e)
    case None
    with run h assms(2) show ?thesis unfolding topic by (simp add: handlers to_gpubsub_def ToGPubSubHandler_def)
  next
    case (Some err)
    obtain acks1 res1 where rt: "retryable PubSubGoogle_Publish (put_attribute ''msg'' (error_msg err) m) w1 = ((acks1, res1), w')"
      and "res = res1"
      using run h Some assms(2) a(1) unfolding topic
      by (auto simp: handlers to_gpubsub_def ToGPubSubHandler_def split: prod.splits)
    with failed_delivery [OF a rt] show ?thesis by simp
  qed
qed

section \<open>Runs\<close>

lemma message_call_fresh:
  assumes "carries (message_call payload event c t) x"
  shows "fresh x \<and> stage_ok x"
proof -
  have "routed [(''topic'', request_topic), (''max_retries'', ''1'')]"
    "tried 0 [(''topic'', request_topic), (''max_retries'', ''1'')]"
    by (simp_all add: routed_def tried_def gomap_ok_def itoa_one)
  with assms show ?thesis by (auto simp: carries_def message_call_def fresh_def stage_ok_def)
qed

lemma request_arrived:
  assumes "pubsub_PublisherEvent MemStore_GetEvent PubSubGoogle_Publish store_published b v = (resp, w)"
    and "arrived v w new"
  shows "list_all (\<lambda>x. fresh x \<and> stage_ok x) new"
proof -
  have "\<exists>cs. published w = published v @ cs \<and> (\<forall>c\<in>set cs. \<exists>payload event x t. c = message_call payload event x t)"
  proof -
    have "quiet published (MemStore_GetEvent :: store_world get_event)" by (rule quiet_MemStore)
    note out = pubsub_PublisherEvent_cases [OF this quiet_stores(1) assms(1)]
    obtain payload e where d: "decode into_InternalPayload zero_InternalPayload b = (payload, e)"
      by (cases "decode into_InternalPayload zero_InternalPayload b")
    show ?thesis
    proof (cases "published w = published v")
      case False
      with out obtain event ts where "published w = published v @
          map (\<lambda>(c, t). message_call payload event c t) (zip (consumers_of event) ts)"
        unfolding d by (auto split: option.splits if_splits sum.splits)
      then show ?thesis by fastforce
    qed simp
  qed
  then obtain cs where cs: "published w = published v @ cs"
    "\<forall>c\<in>set cs. \<exists>payload event x t. c = message_call payload event x t" by blast
  with assms(2) have "list_all2 carries cs new" by (auto simp: arrived_def)
  then show ?thesis using cs(2)
    by (induction rule: list_all2_induct) (auto dest: message_call_fresh)
qed

fun acknowledged :: "action \<Rightarrow> nat" where
  "acknowledged (Handled Ack d) = 1"
| "acknowledged _ = 0"

fun reached :: "action \<Rightarrow> nat" where
  "reached (Handled a d) = d"
| "reached _ = 0"

fun accepted_messages :: "action \<Rightarrow> nat" where
  "accepted_messages (Sent n) = n"
| "accepted_messages _ = 0"

text \<open>One step: what is left never grows by more than what was sent.\<close>

lemma broker_step_totals:
  assumes "broker_step s a t" and "list_all stage_ok (pending s)"
  shows "list_all stage_ok (pending t) \<and>
    sum_list (map steps_left (pending t)) + acknowledged a \<le> sum_list (map steps_left (pending s)) + 3 * accepted_messages a \<and>
    sum_list (map chances (pending t)) + reached a \<le> sum_list (map chances (pending s)) + accepted_messages a"
  using assms(1)
proof cases
  case (Request b resp w new)
  have new: "list_all (\<lambda>x. fresh x \<and> stage_ok x) new" by (rule request_arrived [OF Request(3,4)])
  then have "sum_list (map steps_left new) = 3 * length new" "sum_list (map chances new) = length new"
    by (induction new) (auto simp: steps_left_def chances_def)
  with Request assms(2) new show ?thesis by (auto simp: list_all_iff)
next
  case (Deliver xs topic m ys h acks res w new)
  have "stage_ok (topic, m)" using assms(2) Deliver(3) by simp
  from delivery_progress [OF this Deliver(4-6)] have
    "progress (topic, m) (settled acks) (length (delivered w) - length (delivered (service s))) new" by simp
  then show ?thesis
    using Deliver(1-3) assms(2) by (cases "settled acks") (auto simp: progress_def simp del: sum_list_eq_0_iff)
next
  case (Other w)
  with assms(2) show ?thesis by simp
qed

lemma broker_run_totals:
  assumes "broker_run s as t" and "list_all stage_ok (pending s)"
  shows "list_all stage_ok (pending t) \<and>
    sum_list (map steps_left (pending t)) + sum_list (map acknowledged as) \<le>
      sum_list (map steps_left (pending s)) + 3 * sum_list (map accepted_messages as) \<and>
    sum_list (map chances (pending t)) + sum_list (map reached as) \<le>
      sum_list (map chances (pending s)) + sum_list (map accepted_messages as)"
  using assms
proof (induction rule: broker_run.induct)
  case (Snoc s as t a u)
  from Snoc.IH [OF Snoc.prems] broker_step_totals [OF Snoc.hyps(2)] show ?case by fastforce
qed simp



section \<open>The message of a consumer\<close>

lemma message_input_ok:
  assumes "decode into_InternalPayload zero_InternalPayload request_body = (payload, None)"
    and "consumer_ok c" and "int64_ok t"
  shows "request_ok (message_input payload event c t)"
proof -
  have "payload_ok payload" using decoded_payload_ok [of request_body] assms(1) by simp
  then show ?thesis
    using assms(2,3) by (simp add: request_ok_def message_input_def payload_ok_def consumer_ok_def)
qed


section \<open>Concrete runs\<close>

lemma calm_now: "all_done w \<Longrightarrow> all_done (snd (time_now w))"
  by (simp add: all_done_def time_now_def case_prod_beta)

lemma calm_publish_messages:
  "all_done w \<Longrightarrow> fst (publish_messages PubSubGoogle_Publish payload ev cs resp w) = write_header 201 resp"
proof (induction cs arbitrary: w)
  case (Cons c cs)
  obtain now w0 where t: "time_now w = (now, w0)" by (cases "time_now w")
  have w0: "all_done w0" using calm_now [OF Cons.prems] t by simp
  let ?p = "json_text (RequestPayload_json (message_input payload ev c (milliseconds now)))"
  obtain w1 where "ask_err (PubSubPublish request_topic ?p (message_attributes request_topic (Attributes (message_opts ev)))) w0
      = (None, w1)" "all_done w1" using calm_ask_err [OF w0] by blast
  with Cons.IH [of w1] t show ?case by (simp add: PubSubGoogle_Publish_def json_Marshal_def)
qed simp

definition sample_broker :: broker where
  "sample_broker = \<lparr>pending = [], service = sample_service_world\<rparr>"

definition sample_pending :: "int \<Rightarrow> Message" where
  "sample_pending t = zero_Message\<lparr>
     msg_Data := Some (json_text (RequestPayload_json (message_input sample_payload sample_event sample_consumer t))),
     msg_Attributes := Some [(''topic'', request_topic), (''max_retries'', ''1'')]\<rparr>"

lemma sample_carried:
  "carries (message_call sample_payload sample_event sample_consumer t) (request_topic, sample_pending t)"
  by (simp add: carries_def message_call_def sample_pending_def zero_Message_def)

text \<open>The sample request publishes one message.\<close>

lemma sample_broker_run:
  "\<exists>t w. broker_run sample_broker [Sent 1] \<lparr>pending = [(request_topic, sample_pending t)], service = w\<rparr>"
proof -
  let ?v = "sample_service_world"
  obtain resp w where p: "pubsub_PublisherEvent MemStore_GetEvent PubSubGoogle_Publish store_published sample_request ?v = (resp, w)"
    by (metis prod.collapse)
  obtain now w0 where n: "time_now ?v = (now, w0)" by (cases "time_now ?v")
  have w0: "all_done w0"
    using calm_now [of ?v] n by (simp add: all_done_def sample_service_world_def calm_store_def)
  have "topicEvents w0 = topicEvents ?v" by (metis n snd_conv time_now_keeps_store)
  then have g: "MemStore_GetEvent ''paid'' w0 = (Inr sample_event, w0)"
    by (simp add: MemStore_GetEvent_def sample_service_world_def)
  have "resp = write_header 201 new_response"
    using p calm_publish_messages [OF w0, of sample_payload sample_event "consumers_of sample_event" new_response]
    by (auto simp: pubsub_PublisherEvent_def n sample_request_decoded InternalPayload_Validate_def g sample_payload_def
        split: prod.splits)
  moreover have "consumers_of sample_event = [sample_consumer]" by (simp add: sample_event_def consumers_of_def)
  moreover have "InternalPayload_Validate sample_payload = None" "ip_EventName sample_payload = ''paid''"
    by (simp_all add: InternalPayload_Validate_def sample_payload_def)
  moreover have "fst (MemStore_GetEvent ''paid'' ?v) = Inr sample_event"
    by (simp add: MemStore_GetEvent_def sample_service_world_def)
  ultimately obtain ts where ts: "length ts = 1" "published w = published ?v @
      map (\<lambda>(c, t). message_call sample_payload sample_event c t) (zip [sample_consumer] ts)"
    using pubsub_PublisherEvent_cases [OF quiet_MemStore quiet_stores(1) p]
    by (auto simp: sample_request_decoded [folded sample_payload_def] MemStore_GetEvent_now split: if_splits)
  then obtain t where "published w = published ?v @ [message_call sample_payload sample_event sample_consumer t]"
    by (auto simp: length_Suc_conv)
  then have "arrived (service sample_broker) w [(request_topic, sample_pending t)]"
    using sample_carried by (auto simp: arrived_def sample_broker_def)
  moreover have "pubsub_PublisherEvent MemStore_GetEvent PubSubGoogle_Publish store_published sample_request
      (service sample_broker) = (resp, w)" using p by (simp add: sample_broker_def)
  ultimately have "broker_step sample_broker (Sent (length [(request_topic, sample_pending t)]))
      \<lparr>pending = pending sample_broker @ [(request_topic, sample_pending t)], service = w\<rparr>"
    by (intro broker_step.Request)
  then have
    "broker_step sample_broker (Sent 1) \<lparr>pending = [(request_topic, sample_pending t)], service = w\<rparr>"
    by (simp add: sample_broker_def)
  from broker_run.Snoc [OF broker_run.Nil this] show ?thesis by auto
qed




end
