(* ===== verification/Taskqueue.thy ===== *)
theory Taskqueue
  imports Broker "HOL-Library.Multiset"
begin

text \<open>
  The task side as a whole: what its API queues, the worker processes until every task is completed or
  archived. The queue is asynq, as its documentation describes it: a task is given to the handler of
  its type; it is completed when the handler returns no error, and otherwise tried again until it has
  been retried as often as its \<open>MaxRetry\<close> says, and then archived. A task also counts as failed when
  its deadline passes or the worker is lost, whatever its handler did.
\<close>

section \<open>One run of the worker\<close>

context outward_effect
begin

lemma logs_Default_effect:
  assumes "logs_Default w = (r, w')"
  shows "effect w' = effect w"
proof (cases "log_once w")
  case True
  with assms show ?thesis by (simp add: logs_Default_def)
next
  case False
  obtain c w1 where c: "Cfg_Get (w\<lparr>log_once := True\<rparr>) = (c, w1)" by (metis prod.collapse)
  have e: "effect w1 = effect w"
    using configured [OF c] from_history [of "w\<lparr>log_once := True\<rparr>" w] by simp
  have s: "effect (w1\<lparr>defaultLogger := l\<rparr>) = effect w1" for l by (rule from_history) simp_all
  show ?thesis using assms False c e s by (cases c) (auto simp: logs_Default_def logs_New_def Let_def)
qed

lemma logs_With_effect:
  assumes "logs_With args w = (r, w')"
  shows "effect w' = effect w"
proof -
  obtain l w1 where l: "logs_Default w = (l, w1)" by (metis prod.collapse)
  show ?thesis
    using assms logs_Default_effect [OF l] by (cases l) (auto simp: logs_With_def on_default_def l)
qed

text \<open>Without a configuration, a logger or random numbers the worker panics before the handler runs.\<close>

lemma logged_task_cases:
  assumes "AsynqLogger h (Some c) t w = (r, w')"
  shows "(\<exists>p. r = Panics p) \<and> effect w' = effect w \<or>
    (\<exists>l w1 w2. effect w1 = effect w \<and> effect w' = effect w2 \<and>
       h (Some (c\<lparr>ctx_Logger := Some (Some l)\<rparr>)) t w1 = (r, w2))"
proof -
  obtain start w0 where t0: "time_now w = (start, w0)" by (cases "time_now w")
  note e0 = asked_time [OF t0]
  obtain i w1 where u: "uuid_New w0 = (i, w1)" by (cases "uuid_New w0")
  note e1 = asked_uuid [OF u]
  show ?thesis
  proof (cases i)
    case (Panics p)
    then show ?thesis using assms e0 e1 by (auto simp: AsynqLogger_def t0 u)
  next
    case (Returns i')
    let ?args = "[''task_type'', task_Type t, ''task_payload'', task_Payload t, ''request_id'', i']"
    obtain lr w2 where l: "logs_With ?args w1 = (lr, w2)" by (metis prod.collapse)
    note e2 = logs_With_effect [OF l]
    consider (panic) p where "lr = Panics p" | (none) "lr = Returns None" | (some) lg where "lr = Returns (Some lg)"
      by (cases lr) auto
    then show ?thesis
    proof cases
      case panic
      then show ?thesis using assms e0 e1 e2 by (auto simp: AsynqLogger_def t0 u Returns l)
    next
      case none
      then show ?thesis using assms e0 e1 e2
        by (auto simp: AsynqLogger_def t0 u Returns l Logger_Info_def log_at_def)
    next
      case (some lg)
      obtain w3 where s: "Logger_Info (Some lg) ''Start processing'' [] w2 = (Returns (), w3)"
        using logged_line by (metis prod.collapse)
      obtain r4 w4 where h: "h (Some (c\<lparr>ctx_Logger := Some (Some lg)\<rparr>)) t w3 = (r4, w4)" by (metis prod.collapse)
      obtain stop w5 where t5: "time_now w4 = (stop, w5)" by (cases "time_now w4")
      have "r = r4 \<and> effect w' = effect w4"
        using assms asked_time [OF t5] some
        by (auto simp: AsynqLogger_def t0 u Returns l s h t5 WithLogger_def with_value_def
            split: run.splits option.splits prod.splits dest!: logged_line logged_error)
      moreover have "effect w3 = effect w" using e0 e1 e2 logged_line [OF s] by simp
      ultimately show ?thesis using h by blast
    qed
  qed
qed

end

text \<open>The handler posts to the consumer named in the task, once, when it succeeds, and nothing else.\<close>

lemma task_delivers:
  fixes w :: "'a log_world_scheme"
  assumes "Handler (GetRequestHandle Notify store_consumed) b w = (e, w')"
  shows "if e = None
    then \<exists>payload hs. AsyncCtx_Payload into_RequestPayload zero_RequestPayload b = Inr payload \<and>
      delivered w' = delivered w @
        [HttpPost (Consumer_GetUrl (rp_Consumer payload)) (json_text (enc_anymap (rp_Data payload))) hs]
    else delivered w' = delivered w"
proof -
  obtain started w0 where t: "time_now w = (started, w0)" by (cases "time_now w")
  have w0: "delivered w0 = delivered w" using deliveries.asked_time [OF t] .
  have ins: "delivered (insert_consumed store_consumed p s ok v) = delivered v" for p s ok and v :: "'a log_world_scheme"
    by (rule insert_consumed_quiet [OF quiet_stores(2)])
  show ?thesis
  proof (cases "AsyncCtx_Payload into_RequestPayload zero_RequestPayload b")
    case (Inl err)
    with assms w0 show ?thesis by (auto simp: GetRequestHandle_def t)
  next
    case (Inr payload)
    show ?thesis
    proof (cases "RequestPayload_Validate payload")
      case (Some err)
      with assms w0 Inr show ?thesis by (auto simp: GetRequestHandle_def t)
    next
      case None
      obtain e1 w1 where n: "Notify (rp_Data payload) (Some (mergeHeaders payload (c_Headers (rp_Consumer payload))))
          (rp_Consumer payload) kind_LongRunning w0 = (e1, w1)" by (metis prod.collapse)
      have "e = map_option (ErrWrap ''fetch consumer'') e1 \<and> delivered w' = delivered w1"
        using assms n Inr None by (auto simp: GetRequestHandle_def t Let_def ins split: option.splits)
      with fetcher.outcome [OF n] Inr w0 show ?thesis by (cases e1) auto
    qed
  qed
qed

definition posts :: "bytes \<Rightarrow> call \<Rightarrow> bool" where
  "posts b p \<longleftrightarrow> (\<exists>payload hs. AsyncCtx_Payload into_RequestPayload zero_RequestPayload b = Inr payload \<and>
     p = HttpPost (Consumer_GetUrl (rp_Consumer payload)) (json_text (enc_anymap (rp_Data payload))) hs)"

lemma worker_run:
  fixes w :: "'a store_world_scheme"
  assumes "(topic, h) \<in> set task_mux" and "h (Some c) t w = (r, w')"
  shows "\<exists>cs. delivered w' = delivered w @ cs \<and> (if r = Returns None then \<exists>p. cs = [p] \<and> posts (task_Payload t) p else cs = [])"
proof -
  let ?inner = "ah_Handler (to_asynq (ToAsynqHandler (GetRequestHandle Notify store_consumed)))"
  have "AsynqLogger (AsynqMetrics ?inner) (Some c) t w = (r, w')"
    using assms by (simp add: task_mux_def task_events_def)
  from deliveries.logged_task_cases [OF this] show ?thesis
  proof (elim disjE exE conjE)
    fix l and w1 w2 :: "'a store_world_scheme"
    assume d1: "delivered w1 = delivered w" "delivered w' = delivered w2"
      and m: "AsynqMetrics ?inner (Some (c\<lparr>ctx_Logger := Some (Some l)\<rparr>)) t w1 = (r, w2)"
    from deliveries.measured_task [OF m] obtain m' and w3 w4 :: "'a store_world_scheme" where
      d2: "delivered w3 = delivered w1" "delivered w2 = delivered w4"
      and i: "?inner (Some (c\<lparr>ctx_Logger := Some (Some l), ctx_Meter := Some m'\<rparr>)) t w3 = (r, w4)" by auto
    obtain e w5 where g: "Handler (GetRequestHandle Notify store_consumed) (task_Payload t) w3 = (e, w5)"
      by (metis prod.collapse)
    from i have "w4 = w5" "r = Returns (map_option (ErrWrap ''handle task'') e)"
      by (auto simp: to_asynq_def ToAsynqHandler_def g split: option.splits)
    with task_delivers [OF g] d1 d2 show ?thesis by (cases e) (auto simp: posts_def)
  qed auto
qed

section \<open>The queue\<close>

text \<open>Of several options of a kind asynq takes the last; without one a task is retried 25 times, and a
  negative number counts as zero.\<close>

definition max_retry :: "asynq_option list \<Rightarrow> nat" where
  "max_retry opts = nat (last (25 # concat (map (\<lambda>x. case x of MaxRetry n \<Rightarrow> [n] | _ \<Rightarrow> []) opts)))"

text \<open>An event that asks for no retries gets three: the option is left out and the default stays.\<close>

lemma max_retry_event:
  "max_retry (NewDefaultOpt @ ToAsynqOptions opt) =
     (if o_MaxRetries opt > 0 then nat (o_MaxRetries opt) else 3)"
  by (auto simp: max_retry_def NewDefaultOpt_def ToAsynqOptions_def split: option.splits)

record queued_task =
  qt_topic :: string
  qt_payload :: bytes
  qt_max :: nat
  qt_retried :: nat

record task_queue =
  tq_waiting :: "queued_task list"
  tq_completed :: "queued_task list"
  tq_archived :: "queued_task list"
  tq_service :: store_world

definition enqueued :: "call \<Rightarrow> queued_task \<Rightarrow> bool" where
  "enqueued c x \<longleftrightarrow> (\<exists>opts. c = AsynqEnqueue (qt_topic x) (qt_payload x) opts \<and>
     qt_max x = max_retry opts \<and> qt_retried x = 0)"

definition enqueued_by :: "store_world \<Rightarrow> store_world \<Rightarrow> queued_task list \<Rightarrow> bool" where
  "enqueued_by v w new \<longleftrightarrow> (\<exists>cs. published w = published v @ cs \<and> list_all2 enqueued cs new)"

text \<open>What happens: a request queues tasks, a task is processed - whether its handler succeeded, whether it
  was lost, and what it posted to consumers -, or the rest of the process does something.\<close>

datatype queue_action = Queued "queued_task list" | Processed queued_task bool bool "call list" | Else

definition after_run :: "bool \<Rightarrow> queued_task \<Rightarrow> queued_task list \<Rightarrow> store_world \<Rightarrow> task_queue \<Rightarrow> task_queue" where
  "after_run succeeded x rest w q =
     (if succeeded then q\<lparr>tq_waiting := rest, tq_completed := tq_completed q @ [x], tq_service := w\<rparr>
      else if qt_retried x < qt_max x
      then q\<lparr>tq_waiting := rest @ [x\<lparr>qt_retried := qt_retried x + 1\<rparr>], tq_service := w\<rparr>
      else q\<lparr>tq_waiting := rest, tq_archived := tq_archived q @ [x], tq_service := w\<rparr>)"

inductive queue_step :: "task_queue \<Rightarrow> queue_action \<Rightarrow> task_queue \<Rightarrow> bool" where
  Request: "PublisherEvent MemStore_GetEvent Task_Publish store_published b (tq_service q) = (resp, w) \<Longrightarrow>
    enqueued_by (tq_service q) w new \<Longrightarrow>
    queue_step q (Queued new) (q\<lparr>tq_waiting := tq_waiting q @ new, tq_service := w\<rparr>)"
| Process: "tq_waiting q = xs @ x # ys \<Longrightarrow> (qt_topic x, h) \<in> set task_mux \<Longrightarrow>
    h (Some c) \<lparr>task_Type = qt_topic x, task_Payload = qt_payload x\<rparr> (tq_service q) = (r, w) \<Longrightarrow>
    queue_step q (Processed x (r = Returns None) lost (drop (length (delivered (tq_service q))) (delivered w)))
      (after_run (r = Returns None \<and> \<not> lost) x (xs @ ys) w q)"
| Other: "queue_step q Else (q\<lparr>tq_service := w\<rparr>)"

inductive queue_run :: "task_queue \<Rightarrow> queue_action list \<Rightarrow> task_queue \<Rightarrow> bool" where
  Nil: "queue_run q [] q"
| Snoc: "queue_run q as r \<Longrightarrow> queue_step r a s \<Longrightarrow> queue_run q (as @ [a]) s"

definition empty_queue :: "store_world \<Rightarrow> task_queue" where
  "empty_queue w = \<lparr>tq_waiting = [], tq_completed = [], tq_archived = [], tq_service = w\<rparr>"

section \<open>The accounts of a run\<close>

fun tasks_queued :: "queue_action \<Rightarrow> queued_task list" where
  "tasks_queued (Queued xs) = xs"
| "tasks_queued _ = []"

fun posted :: "queue_action \<Rightarrow> call list" where
  "posted (Processed x s l cs) = cs"
| "posted _ = []"

fun attempts :: "queue_action \<Rightarrow> nat" where
  "attempts (Processed x s l cs) = 1"
| "attempts _ = 0"

text \<open>The tasks whose handler succeeded, and those of them that count as failed.\<close>

fun handled :: "queue_action \<Rightarrow> queued_task list" where
  "handled (Processed x s l cs) = (if s then [x] else [])"
| "handled _ = []"

fun handled_and_lost :: "queue_action \<Rightarrow> queued_task list" where
  "handled_and_lost (Processed x s l cs) = (if s \<and> l then [x] else [])"
| "handled_and_lost _ = []"

text \<open>The tasks of a list, whatever number of times they were tried.\<close>

definition tasks :: "queued_task list \<Rightarrow> queued_task multiset" where
  "tasks xs = mset (map (\<lambda>x. x\<lparr>qt_retried := 0\<rparr>) xs)"

lemma tasks_simps [simp]:
  "tasks [] = {#}" "tasks (x # xs) = add_mset (x\<lparr>qt_retried := 0\<rparr>) (tasks xs)" "tasks (xs @ ys) = tasks xs + tasks ys"
  by (simp_all add: tasks_def)

definition tries_left :: "queued_task \<Rightarrow> nat" where
  "tries_left x = qt_max x + 1 - qt_retried x"

definition retries_ok :: "queued_task \<Rightarrow> bool" where
  "retries_ok x \<longleftrightarrow> qt_retried x \<le> qt_max x \<and> qt_topic x = request_topic"

text \<open>What is queued comes from the handler of the API, and goes to the topic of the worker.\<close>

lemma enqueued_request:
  assumes "PublisherEvent MemStore_GetEvent Task_Publish store_published b v = (resp, w)"
    and "enqueued_by v w new"
  shows "list_all (\<lambda>x. retries_ok x \<and> qt_retried x = 0) new"
proof -
  have "\<exists>cs. published w = published v @ cs \<and> (\<forall>c\<in>set cs. \<exists>p opts. c = AsynqEnqueue request_topic p opts)"
  proof -
    have "quiet published (MemStore_GetEvent :: store_world get_event)" by (rule quiet_MemStore)
    note out = PublisherEvent_cases [OF this quiet_stores(1) assms(1)]
    obtain payload e where d: "decode into_InternalPayload zero_InternalPayload b = (payload, e)"
      by (cases "decode into_InternalPayload zero_InternalPayload b")
    show ?thesis
    proof (cases "published w = published v")
      case False
      with out have "\<exists>event n. published w = published v @
          map (\<lambda>c. AsynqEnqueue request_topic (task_body payload event c) (NewDefaultOpt @ ToAsynqOptions (Option event)))
            (take n (consumers_of event))"
        unfolding d by (simp split: option.splits if_splits sum.splits) (metis order_refl take_all)
      then show ?thesis by fastforce
    qed simp
  qed
  then obtain cs where cs: "published w = published v @ cs"
    "\<forall>c\<in>set cs. \<exists>p opts. c = AsynqEnqueue request_topic p opts" by blast
  with assms(2) have "list_all2 enqueued cs new" by (auto simp: enqueued_by_def)
  then show ?thesis using cs(2)
    by (induction rule: list_all2_induct) (auto simp: enqueued_def retries_ok_def)
qed

text \<open>The books of one step.\<close>

definition balanced :: "task_queue \<Rightarrow> queue_action list \<Rightarrow> bool" where
  "balanced q as \<longleftrightarrow>
     list_all retries_ok (tq_waiting q) \<and>
     tasks (tq_waiting q) + tasks (tq_completed q) + tasks (tq_archived q) = tasks (concat (map tasks_queued as)) \<and>
     sum_list (map tries_left (tq_waiting q)) + sum_list (map attempts as) \<le>
       sum_list (map (\<lambda>x. qt_max x + 1) (concat (map tasks_queued as))) \<and>
     list_all2 (\<lambda>x. posts (qt_payload x)) (concat (map handled as)) (concat (map posted as)) \<and>
     tasks (concat (map handled as)) = tasks (tq_completed q) + tasks (concat (map handled_and_lost as))"

lemma balanced_step:
  assumes "queue_step q a s" and "balanced q as"
  shows "balanced s (as @ [a])"
  using assms(1)
proof cases
  case (Request b resp w new)
  from enqueued_request [OF Request(3,4)] have "list_all retries_ok new" "sum_list (map tries_left new) =
      sum_list (map (\<lambda>x. qt_max x + 1) new)"
    by (induction new) (auto simp: tries_left_def)
  with Request(1,2) assms(2) show ?thesis by (auto simp: balanced_def ac_simps)
next
  case (Process xs x ys h c r w lost)
  have ok: "retries_ok x" using assms(2) Process(3) by (simp add: balanced_def)
  obtain cs where cs: "delivered w = delivered (tq_service q) @ cs"
      "if r = Returns None then \<exists>p. cs = [p] \<and> posts (qt_payload x) p else cs = []"
    using worker_run [OF Process(4,5)] by (auto cong: if_cong)
  have d: "drop (length (delivered (tq_service q))) (delivered w) = cs" by (simp add: cs(1))
  have t: "tries_left x \<noteq> 0" "qt_retried x < qt_max x \<Longrightarrow> tries_left (x\<lparr>qt_retried := qt_retried x + 1\<rparr>) + 1 = tries_left x"
    "qt_retried x < qt_max x \<Longrightarrow> retries_ok (x\<lparr>qt_retried := qt_retried x + 1\<rparr>)"
    using ok by (auto simp: tries_left_def retries_ok_def)
  show ?thesis
    using assms(2) cs(2) t unfolding Process(1,2) d balanced_def Process(3)
    by (cases "r = Returns None"; cases lost; cases "qt_retried x < qt_max x")
      (auto simp: after_run_def intro!: list_all2_appendI)
next
  case (Other w)
  with assms(2) show ?thesis by (simp add: balanced_def)
qed

lemma balanced_run:
  assumes "queue_run q as s" and "q = empty_queue w"
  shows "balanced s as"
  using assms
proof (induction rule: queue_run.induct)
  case (Nil q)
  then show ?case by (simp add: balanced_def empty_queue_def)
next
  case (Snoc q as r a s)
  then show ?case using balanced_step by blast
qed

lemma waiting_processed:
  assumes "balanced q as" and "tq_waiting q \<noteq> []"
  shows "\<exists>x s l cs q'. queue_step q (Processed x s l cs) q'"
proof -
  obtain x ys where x: "tq_waiting q = [] @ x # ys" using assms(2) by (cases "tq_waiting q") auto
  have "qt_topic x = request_topic" using assms(1) x by (simp add: balanced_def retries_ok_def)
  moreover have "request_topic \<in> set (map fst (task_mux :: (string \<times> unit store_world_scheme asynq_handler) list))"
    by (simp add: topics_agree)
  ultimately obtain h where h: "(qt_topic x, h :: unit store_world_scheme asynq_handler) \<in> set task_mux" by auto
  obtain r w where "h (Some \<lparr>ctx_User = None, ctx_Logger = None, ctx_Meter = None\<rparr>)
      \<lparr>task_Type = qt_topic x, task_Payload = qt_payload x\<rparr> (tq_service q) = (r, w)"
    by (metis prod.collapse)
  from queue_step.Process [OF x h this] show ?thesis by blast
qed


text \<open>The sample request queues one task.\<close>

definition sample_queued :: queued_task where
  "sample_queued = \<lparr>qt_topic = request_topic, qt_payload = task_body sample_payload sample_event sample_consumer,
     qt_max = max_retry (NewDefaultOpt @ ToAsynqOptions (Option sample_event)), qt_retried = 0\<rparr>"

lemma sample_queue_run:
  "\<exists>s. queue_run (empty_queue sample_service_world) [Queued [sample_queued]] s \<and> tq_waiting s = [sample_queued]"
proof -
  let ?v = "sample_service_world"
  let ?c = "AsynqEnqueue request_topic (task_body sample_payload sample_event sample_consumer)
      (NewDefaultOpt @ ToAsynqOptions (Option sample_event))"
  obtain resp w where p: "PublisherEvent MemStore_GetEvent Task_Publish store_published sample_request ?v = (resp, w)"
    by (metis prod.collapse)
  obtain now w0 where n: "time_now ?v = (now, w0)" by (cases "time_now ?v")
  have w0: "all_done w0"
    using calm_now [of ?v] n by (simp add: all_done_def sample_service_world_def calm_store_def)
  have "topicEvents w0 = topicEvents ?v" by (metis n snd_conv time_now_keeps_store)
  then have g: "MemStore_GetEvent ''paid'' w0 = (Inr sample_event, w0)"
    by (simp add: MemStore_GetEvent_def sample_service_world_def)
  have "resp = write_header 202 new_response"
    using p calm_publish_tasks [OF w0, of sample_payload sample_event "consumers_of sample_event" new_response]
    by (auto simp: PublisherEvent_def n sample_request_decoded InternalPayload_Validate_def g sample_payload_def
        split: prod.splits)
  moreover have "consumers_of sample_event = [sample_consumer]" by (simp add: sample_event_def consumers_of_def)
  moreover have "InternalPayload_Validate sample_payload = None" "ip_EventName sample_payload = ''paid''"
    by (simp_all add: InternalPayload_Validate_def sample_payload_def)
  moreover have "fst (MemStore_GetEvent ''paid'' ?v) = Inr sample_event"
    by (simp add: MemStore_GetEvent_def sample_service_world_def)
  ultimately have "published w = published ?v @ [?c]"
    using PublisherEvent_cases [OF quiet_MemStore quiet_stores(1) p]
    by (auto simp: sample_request_decoded [folded sample_payload_def] MemStore_GetEvent_now split: if_splits)
  then have "enqueued_by (tq_service (empty_queue ?v)) w [sample_queued]"
    by (auto simp: enqueued_by_def enqueued_def empty_queue_def sample_queued_def)
  moreover have "PublisherEvent MemStore_GetEvent Task_Publish store_published sample_request
      (tq_service (empty_queue ?v)) = (resp, w)" using p by (simp add: empty_queue_def)
  ultimately have "queue_step (empty_queue ?v) (Queued [sample_queued])
      ((empty_queue ?v)\<lparr>tq_waiting := tq_waiting (empty_queue ?v) @ [sample_queued], tq_service := w\<rparr>)"
    by (intro queue_step.Request)
  from queue_run.Snoc [OF queue_run.Nil this] show ?thesis by (intro exI conjI) (auto simp: empty_queue_def)
qed


end
