(* ===== verification/Insightsday.thy ===== *)
theory Insightsday
  imports Composition "HOL-Library.Multiset"
begin

text \<open>
  The insights as a whole: the metrics that the publishers and the workers store during a day, and what
  the handler of \<open>/api/v1/insights\<close> answers from them. Redis is the sets and sorted sets of its
  documentation: a read returns the members that were added, each once, or fails; nothing expires
  during the day.
\<close>

section \<open>What Redis keeps\<close>

definition is_keep :: "call \<Rightarrow> bool" where
  "is_keep c \<longleftrightarrow> (case c of RedisSAdd k m \<Rightarrow> True | RedisZAdd k s m \<Rightarrow> True | _ \<Rightarrow> False)"

lemma is_keep_simps [simp]:
  "is_keep (RedisSAdd k m)" "is_keep (RedisZAdd k s m)" "\<not> is_keep Now" "\<not> is_keep (RedisExpire k t)"
  "\<not> is_keep (RedisSMembers k)" "\<not> is_keep (RedisZRange k)"
  by (simp_all add: is_keep_def)

abbreviation kept :: "'a world_scheme \<Rightarrow> call list" where
  "kept \<equiv> accepted_of is_keep"

definition set_members :: "call list \<Rightarrow> string \<Rightarrow> string set" where
  "set_members cs k = {m. RedisSAdd k m \<in> set cs}"

definition zset_members :: "call list \<Rightarrow> string \<Rightarrow> string set" where
  "zset_members cs k = {m. \<exists>s. RedisZAdd k s m \<in> set cs}"

definition reads_set :: "reply \<Rightarrow> string set \<Rightarrow> bool" where
  "reads_set r S \<longleftrightarrow> (\<exists>e. r = Failed e) \<or> (\<exists>ts. r = GotTexts ts \<and> distinct ts \<and> set ts = S)"

definition accepted_in :: "(call \<times> reply) list \<Rightarrow> call list" where
  "accepted_in h = map fst (filter (\<lambda>(c, r). err_of r = None) h)"

definition redis_reads :: "'a world_scheme \<Rightarrow> bool" where
  "redis_reads w \<longleftrightarrow> (\<forall>h k. reads_set (answer w h (RedisSMembers k)) (set_members (accepted_in h) k) \<and>
     reads_set (answer w h (RedisZRange k)) (zset_members (accepted_in h) k))"

text \<open>The clock stays within one day of the month.\<close>

definition clock_day :: "nat \<Rightarrow> 'a world_scheme \<Rightarrow> bool" where
  "clock_day d w \<longleftrightarrow> (\<forall>h. day_of_month (case answer w h Now of GotInt t \<Rightarrow> t | _ \<Rightarrow> 0) = d)"

lemma same_answer:
  "answer v = answer w \<Longrightarrow> clock_day d v = clock_day d w" "answer v = answer w \<Longrightarrow> redis_reads v = redis_reads w"
  by (simp_all add: clock_day_def redis_reads_def)

lemma asked_answer:
  "ask_err c w = (e, w') \<Longrightarrow> answer w' = answer w" "time_now w = (t, w') \<Longrightarrow> answer w' = answer w"
  by (auto simp: ask_err_def time_now_def split: prod.splits dest: arg_cong [where f = snd]) (metis ask_answer snd_conv)+

lemma kept_quiet: "ask_err c w = (e, w') \<Longrightarrow> \<not> is_keep c \<Longrightarrow> kept w' = kept w"
  by (simp add: accepted_of_ask_err)

lemma kept_now: "time_now w = (t, w') \<Longrightarrow> kept w' = kept w"
  using accepted_of_now [of is_keep w] by simp

lemma kept_configured: "Cfg_Get w = (r, w') \<Longrightarrow> kept w' = kept w \<and> answer w' = answer w"
  by (auto simp: Cfg_Get_def accepted_of_def accepted_def split: prod.splits)

text \<open>The history only grows.\<close>

abbreviation extends :: "'a world_scheme \<Rightarrow> 'a world_scheme \<Rightarrow> bool" where
  "extends w w' \<equiv> set (history w) \<subseteq> set (history w')"

lemma asked_extends:
  "ask_err c w = (e, w') \<Longrightarrow> extends w w'" "time_now w = (t, w') \<Longrightarrow> extends w w'"
  by (auto simp: ask_err_def time_now_def ask_def Let_def)

lemma configured_extends: "Cfg_Get w = (r, w') \<Longrightarrow> extends w w'"
  by (auto simp: Cfg_Get_def split: prod.splits)

section \<open>What storing a metric keeps\<close>

definition day_key :: "nat \<Rightarrow> string \<Rightarrow> string list \<Rightarrow> string" where
  "day_key d typeEvent values = str_join separator ([insightsPrefix, typeEvent] @ values @ [nat_dec d])"

lemma Store_key_day:
  assumes "Store_key t vs w = (k, w')" and "clock_day d w"
  shows "k = day_key d t vs \<and> kept w' = kept w \<and> answer w' = answer w \<and> extends w w'"
proof -
  obtain now w1 where n: "time_now w = (now, w1)" by (cases "time_now w")
  have "day_of_month now = d"
    using n assms(2) unfolding clock_day_def by (auto simp: time_now_def ask_def Let_def)
  then show ?thesis
    using assms(1) kept_now [OF n] asked_answer(2) [OF n] asked_extends(2) [OF n] by (auto simp: Store_key_def n day_key_def)
qed

definition group_key :: "nat \<Rightarrow> string" where
  "group_key d = day_key d ''group-insights'' []"

text \<open>A refused grouping is in the history; nothing else reports it.\<close>

definition ungrouped :: "nat \<Rightarrow> string \<Rightarrow> 'a world_scheme \<Rightarrow> bool" where
  "ungrouped d key w \<longleftrightarrow> (\<exists>e. (RedisSAdd (group_key d) key, Failed e) \<in> set (history w))"

lemma ungrouped_extends: "ungrouped d key w \<Longrightarrow> extends w w' \<Longrightarrow> ungrouped d key w'"
  by (auto simp: ungrouped_def)

lemma groupInsights_keeps:
  assumes "groupInsights Cfg_Get key w = (r, w')" and "clock_day d w"
  shows "answer w' = answer w \<and> extends w w' \<and>
    (kept w' = kept w \<and> ungrouped d key w' \<or> kept w' = kept w @ [RedisSAdd (group_key d) key])"
proof -
  obtain k w1 where k: "Store_key ''group-insights'' [] w = (k, w1)" by (metis prod.collapse)
  note k' = Store_key_day [OF k assms(2), folded group_key_def]
  obtain e w2 where s: "ask_err (RedisSAdd k key) w1 = (e, w2)" by (metis prod.collapse)
  have s': "answer w2 = answer w1" "kept w2 = kept w1 @ (if e = None then [RedisSAdd k key] else [])" "extends w1 w2"
    using asked_answer(1) [OF s] accepted_of_ask_err [OF s] asked_extends(1) [OF s] by simp_all
  show ?thesis
  proof (cases e)
    case (Some err)
    then have "w' = w2" using assms(1) by (simp add: groupInsights_def k s)
    moreover have "ungrouped d key w2"
      using s Some k' by (auto simp: ungrouped_def ask_err_def ask_def Let_def err_of_def split: reply.splits)
    ultimately show ?thesis using Some k' s' by auto
  next
    case None
    obtain c w3 where c: "Cfg_Get w2 = (c, w3)" by (metis prod.collapse)
    have "answer w' = answer w3 \<and> kept w' = kept w3 \<and> extends w3 w'"
      using assms(1) None asked_extends(1)
      by (fastforce simp: groupInsights_def k s c kept_quiet split: run.splits prod.splits dest: asked_answer)
    with kept_configured [OF c] configured_extends [OF c] k' s' None show ?thesis by auto
  qed
qed

lemma add_metric_keeps:
  assumes "add_metric Cfg_Get key p e1 e2 w = (r, w')"
  shows "answer w' = answer w \<and> extends w w' \<and>
    (kept w' = kept w \<and> r \<noteq> Returns None \<or> (\<exists>j s. p = Inr j \<and> kept w' = kept w @ [RedisZAdd key s (json_text j)]))"
proof (cases p)
  case (Inl e)
  with assms show ?thesis by (auto simp: add_metric_def)
next
  case (Inr j)
  obtain now w1 where n: "time_now w = (now, w1)" by (cases "time_now w")
  obtain e w2 where z: "ask_err (RedisZAdd key (milliseconds now) (json_text j)) w1 = (e, w2)" by (metis prod.collapse)
  have z': "answer w2 = answer w"
    "kept w2 = kept w @ (if e = None then [RedisZAdd key (milliseconds now) (json_text j)] else [])"
    using asked_answer(1) [OF z] accepted_of_ask_err [OF z] asked_answer(2) [OF n] kept_now [OF n] by simp_all
  have x: "extends w w2" using asked_extends(2) [OF n] asked_extends(1) [OF z] by simp
  show ?thesis
  proof (cases e)
    case (Some err)
    then have "w' = w2 \<and> r \<noteq> Returns None" using assms Inr by (auto simp: add_metric_def n z)
    with Some z' x show ?thesis by simp
  next
    case None
    obtain c w3 where c: "Cfg_Get w2 = (c, w3)" by (metis prod.collapse)
    have "answer w' = answer w3 \<and> kept w' = kept w3 \<and> extends w3 w'"
      using assms None Inr asked_extends(1)
      by (fastforce simp: add_metric_def n z c kept_quiet split: run.splits prod.splits option.splits dest: asked_answer)
    with kept_configured [OF c] configured_extends [OF c] z' x None Inr show ?thesis by auto
  qed
qed

type_synonym metric = "ConsumerMetric + PublisherMetric"

fun metric_key :: "nat \<Rightarrow> metric \<Rightarrow> string" where
  "metric_key d (Inl m) = day_key d ''event-consumed'' [if cm_ACK m then ''success'' else ''failure'', cm_TopicName m, cm_ConsumerName m]"
| "metric_key d (Inr m) = day_key d ''event-published'' [if pm_ACK m then ''success'' else ''failure'', pm_TopicName m]"

fun store_metric :: "metric \<Rightarrow> 'a log_world_scheme \<Rightarrow> error option \<times> 'a log_world_scheme" where
  "store_metric (Inl m) w = store_consumed m w"
| "store_metric (Inr m) w = store_published m w"

definition metric_text :: "metric \<Rightarrow> string" where
  "metric_text x = json_text (projr (stored_json x))"

text \<open>A metric is kept when it was added to the sorted set of its key, and found when that key was
  grouped.\<close>

definition saved :: "nat \<Rightarrow> call list \<Rightarrow> metric \<Rightarrow> bool" where
  "saved d cs x \<longleftrightarrow> metric_text x \<in> zset_members cs (metric_key d x)"

definition grouped :: "nat \<Rightarrow> call list \<Rightarrow> metric \<Rightarrow> bool" where
  "grouped d cs x \<longleftrightarrow> metric_key d x \<in> set_members cs (group_key d)"

definition groups :: "nat \<Rightarrow> string \<Rightarrow> call list \<Rightarrow> 'a world_scheme \<Rightarrow> bool" where
  "groups d key gs w \<longleftrightarrow> gs = [] \<and> ungrouped d key w \<or> gs = [RedisSAdd (group_key d) key]"

lemma then_group_keeps:
  assumes "add_metric Cfg_Get key p e1 e2 w = (r, w1)" and "then_group Cfg_Get key (r, w1) = (res, w')" and "clock_day d w"
  shows "answer w' = answer w \<and> extends w w' \<and> (\<exists>zs gs. kept w' = kept w @ zs @ gs \<and> groups d key gs w' \<and>
    (zs = [] \<and> res \<noteq> Returns None \<or> (\<exists>j s. p = Inr j \<and> zs = [RedisZAdd key s (json_text j)])))"
proof -
  note a = add_metric_keeps [OF assms(1)]
  obtain g w2 where g: "groupInsights Cfg_Get key w1 = (g, w2)" by (metis prod.collapse)
  have "clock_day d w1" using a assms(3) same_answer(1) by blast
  from groupInsights_keeps [OF g this] obtain gs where gs: "answer w2 = answer w1" "extends w1 w2" "kept w2 = kept w1 @ gs"
    "groups d key gs w2" by (metis append_Nil2 groups_def)
  have r: "w' = w2" "res = r \<or> (\<exists>p. res = Panics p)"
    using assms(2) by (auto simp: then_group_def g split: run.splits)
  from a have x: "extends w w'" using gs r by blast
  from a show ?thesis
  proof (elim conjE disjE exE)
    assume "kept w1 = kept w" "r \<noteq> Returns None" "answer w1 = answer w"
    with gs r x show ?thesis by (intro conjI exI [of _ "[]"] exI [of _ gs]) auto
  next
    fix j s assume "answer w1 = answer w" "p = Inr j" "kept w1 = kept w @ [RedisZAdd key s (json_text j)]"
    with gs r x show ?thesis by (intro conjI exI [of _ "[RedisZAdd key s (json_text j)]"] exI [of _ gs]) auto
  qed
qed

lemma store_metric_keeps:
  assumes "store_metric x w = (e, w')" and "clock_day d w"
  shows "answer w' = answer w \<and> extends w w' \<and> (\<exists>zs gs. kept w' = kept w @ zs @ gs \<and> groups d (metric_key d x) gs w' \<and>
    (zs = [] \<and> e \<noteq> None \<or> (\<exists>j s. stored_json x = Inr j \<and> zs = [RedisZAdd (metric_key d x) s (metric_text x)])))"
proof (cases x)
  case (Inl m)
  obtain k w1 where k: "Store_key ''event-consumed'' [if cm_ACK m then ''success'' else ''failure'', cm_TopicName m,
      cm_ConsumerName m] w = (k, w1)" by (metis prod.collapse)
  obtain r w2 where a: "add_metric Cfg_Get k (ConsumerMetric_json m) ''failed to save consumed event''
      ''failed to set TTL for consumed event'' w1 = (r, w2)" by (metis prod.collapse)
  obtain res w3 where g: "then_group Cfg_Get k (r, w2) = (res, w3)" by (metis prod.collapse)
  note k' = Store_key_day [OF k assms(2)]
  have "clock_day d w1" using k' assms(2) same_answer(1) by blast
  note out = then_group_keeps [OF a g this]
  have "w' = w3" "e = None \<Longrightarrow> res = Returns None"
    using assms(1) Inl by (auto simp: store_consumed_def run_error_def Store_Consumed_def Let_def k a g split: run.splits)
  moreover have "metric_key d x = k" "stored_json x = ConsumerMetric_json m" using k' Inl by simp_all
  moreover have "metric_text x = json_text j" if "ConsumerMetric_json m = Inr j" for j
    using that Inl by (simp add: metric_text_def)
  ultimately show ?thesis using out k' by (metis (no_types, lifting) subset_trans)
next
  case (Inr m)
  obtain k w1 where k: "Store_key ''event-published'' [if pm_ACK m then ''success'' else ''failure'', pm_TopicName m] w = (k, w1)"
    by (metis prod.collapse)
  obtain r w2 where a: "add_metric Cfg_Get k (PublisherMetric_json m) ''failed to save publisher event''
      ''failed to set TTL for publisher event'' w1 = (r, w2)" by (metis prod.collapse)
  obtain res w3 where g: "then_group Cfg_Get k (r, w2) = (res, w3)" by (metis prod.collapse)
  note k' = Store_key_day [OF k assms(2)]
  have "clock_day d w1" using k' assms(2) same_answer(1) by blast
  note out = then_group_keeps [OF a g this]
  have "w' = w3" "e = None \<Longrightarrow> res = Returns None"
    using assms(1) Inr by (auto simp: store_published_def run_error_def Store_Published_def Let_def k a g split: run.splits)
  moreover have "metric_key d x = k" "stored_json x = PublisherMetric_json m" using k' Inr by simp_all
  moreover have "metric_text x = json_text j" if "PublisherMetric_json m = Inr j" for j
    using that Inr by (simp add: metric_text_def)
  ultimately show ?thesis using out k' by (metis (no_types, lifting) subset_trans)
qed

section \<open>A day of metrics\<close>

text \<open>During a day metrics are stored, each with the error its call returned, and the rest of the process
  does what it does without touching the insights. The duration of a metric is an \<open>int64\<close>.\<close>

inductive metrics_day :: "nat \<Rightarrow> 'a log_world_scheme \<Rightarrow> (metric \<times> error option) list \<Rightarrow> 'a log_world_scheme \<Rightarrow> bool"
  for d w where
  Morning: "metrics_day d w [] w"
| Stored: "metrics_day d w xs v \<Longrightarrow> clock_day d v \<Longrightarrow> int64_ok (TimeDurationMs (stored_sample x)) \<Longrightarrow>
    store_metric x v = (e, u) \<Longrightarrow> metrics_day d w (xs @ [(x, e)]) u"
| Elsewhere: "metrics_day d w xs v \<Longrightarrow> kept u = kept v \<Longrightarrow> extends v u \<Longrightarrow> metrics_day d w xs u"

definition comes_from :: "nat \<Rightarrow> metric set \<Rightarrow> call list \<Rightarrow> bool" where
  "comes_from d X cs \<longleftrightarrow> (\<forall>k. \<forall>t\<in>zset_members cs k. \<exists>x\<in>X. k = metric_key d x \<and> t = metric_text x \<and> stored_ok x)"

lemma zset_members_simps [simp]:
  "zset_members [] k = {}" "zset_members (cs @ cs') k = zset_members cs k \<union> zset_members cs' k"
  "zset_members (RedisZAdd k' s m # cs) k = (if k' = k then {m} else {}) \<union> zset_members cs k"
  "zset_members (RedisSAdd k' m # cs) k = zset_members cs k"
  by (auto simp: zset_members_def)

lemma zset_members_grouped: "groups d k gs w \<Longrightarrow> zset_members gs k' = {}"
  by (auto simp: groups_def)

lemma metrics_day_kept:
  assumes "metrics_day d w xs v" and "kept w = []"
  shows "comes_from d (fst ` set xs) (kept v) \<and> {x. (x, None) \<in> set xs} \<subseteq> Collect (saved d (kept v)) \<and>
    fst ` set xs \<subseteq> {x. grouped d (kept v) x \<or> ungrouped d (metric_key d x) v}"
  using assms(1)
proof induction
  case Morning
  then show ?case by (simp add: comes_from_def assms(2))
next
  case (Stored xs v x e u)
  from store_metric_keeps [OF Stored(4,2)] obtain zs gs where u: "kept u = kept v @ zs @ gs"
    and gs: "groups d (metric_key d x) gs u" and ext: "extends v u"
    and zs: "zs = [] \<and> e \<noteq> None \<or> (\<exists>j s. stored_json x = Inr j \<and> zs = [RedisZAdd (metric_key d x) s (metric_text x)])"
    by blast
  note g = zset_members_grouped [OF gs]
  have new: "stored_ok x \<and> k = metric_key d x \<and> t = metric_text x" if "t \<in> zset_members zs k" for t k
    using that zs Stored(3) by (auto simp: stored_ok_def split: if_splits)
  have com: "comes_from d (fst ` set (xs @ [(x, e)])) (kept u)"
    using Stored.IH new by (fastforce simp: comes_from_def u g)
  have more: "saved d (kept v) y \<Longrightarrow> saved d (kept u) y" "grouped d (kept v) y \<Longrightarrow> grouped d (kept u) y"
    "ungrouped d k v \<Longrightarrow> ungrouped d k u" for y k
    using ungrouped_extends [OF _ ext] by (simp_all add: saved_def grouped_def set_members_def u)
  have one: "e = None \<Longrightarrow> saved d (kept u) x" "grouped d (kept u) x \<or> ungrouped d (metric_key d x) u"
    using zs gs by (auto simp: saved_def groups_def grouped_def set_members_def u)
  have "{y. (y, None) \<in> set (xs @ [(x, e)])} \<subseteq> Collect (saved d (kept u))"
    using Stored.IH more(1) one(1) by auto
  moreover have "fst ` set (xs @ [(x, e)]) \<subseteq> {y. grouped d (kept u) y \<or> ungrouped d (metric_key d y) u}"
    using Stored.IH more(2,3) one(2) by auto
  ultimately show ?case using com by simp
next
  case (Elsewhere xs v u)
  note more = ungrouped_extends [OF _ Elsewhere(3)]
  have "fst ` set xs \<subseteq> {x. grouped d (kept v) x \<or> ungrouped d (metric_key d x) u}"
    using Elsewhere.IH more by blast
  with Elsewhere.IH Elsewhere(2) show ?case by simp
qed

section \<open>Reading the day\<close>

definition sample_in :: "string \<Rightarrow> sample" where
  "sample_in t = fst (unmarshal into_sample zero_sample t)"

lemma sample_in_stored: "stored_ok x \<Longrightarrow> sample_in (metric_text x) = stored_sample x"
  by (simp add: sample_in_def metric_text_def stored_decoded)

lemma read_samples_all:
  assumes "\<forall>t\<in>set ts. snd (unmarshal into_sample zero_sample t) = None"
  shows "read_samples key ts out = (out @ map sample_in ts, None)"
  using assms by (induction ts arbitrary: out) (auto simp: sample_in_def split: prod.splits)

definition last_failed :: "'a world_scheme \<Rightarrow> bool" where
  "last_failed w \<longleftrightarrow> (\<exists>c e. last (history w) = (c, Failed e))"

lemma ask_texts_reads:
  assumes "ask_texts c w = (r, w')" and "reads_set (answer w (history w) c) S" and "\<not> is_keep c"
  shows "answer w' = answer w \<and> kept w' = kept w \<and>
    (case r of Inl e \<Rightarrow> last_failed w' | Inr ts \<Rightarrow> distinct ts \<and> set ts = S)"
proof -
  obtain q where a: "ask c w = (q, w')" using assms(1) by (auto simp: ask_texts_def split: prod.splits)
  have "w' = snd (ask c w)" "q = answer w (history w) c" using a by (auto simp: ask_def Let_def)
  then show ?thesis
    using assms(1,2,3) a by (auto simp: ask_texts_def reads_set_def last_failed_def ask_def Let_def accepted_of_def accepted_def)
qed

lemma accepted_in: "accepted_in (history w) = accepted w"
  by (simp add: accepted_in_def accepted_def)

lemma members_kept [simp]:
  "set_members (accepted w) = set_members (kept w)" "zset_members (accepted w) = zset_members (kept w)"
  by (simp_all add: fun_eq_iff set_members_def zset_members_def accepted_of_def)

lemma read_keys_all:
  assumes "read_keys keys out w = ((ss, e), w')" and "redis_reads w"
    and "\<forall>k. \<forall>t\<in>zset_members (kept w) k. snd (unmarshal into_sample zero_sample t) = None"
  shows "case e of Some _ \<Rightarrow> last_failed w'
    | None \<Rightarrow> \<exists>tss. list_all2 (\<lambda>k ts. distinct ts \<and> set ts = zset_members (kept w) k) keys tss \<and>
        ss = out @ map sample_in (concat tss)"
  using assms
proof (induction keys arbitrary: out w)
  case (Cons k keys)
  obtain r w1 where r: "ask_texts (RedisZRange k) w = (r, w1)" by (metis prod.collapse)
  have "reads_set (answer w (history w) (RedisZRange k)) (zset_members (kept w) k)"
    using Cons.prems(2) by (metis accepted_in members_kept(2) redis_reads_def)
  from ask_texts_reads [OF r this] have w1: "answer w1 = answer w" "kept w1 = kept w"
    and ok: "case r of Inl e \<Rightarrow> last_failed w1 | Inr ts \<Rightarrow> distinct ts \<and> set ts = zset_members (kept w) k"
    by simp_all
  show ?case
  proof (cases r)
    case (Inl err)
    with Cons.prems(1) ok r show ?thesis by auto
  next
    case (Inr ts)
    with ok Cons.prems(3) have "read_samples k ts out = (out @ map sample_in ts, None)"
      by (intro read_samples_all) auto
    with Cons.prems(1) r Inr have "read_keys keys (out @ map sample_in ts) w1 = ((ss, e), w')" by simp
    note rest = Cons.IH [OF this, unfolded w1(2), OF _ Cons.prems(3)]
    have "redis_reads w1" using Cons.prems(2) same_answer(2) [OF w1(1)] by simp
    from rest [OF this] show ?thesis
    proof (cases e)
      case None
      with rest [OF \<open>redis_reads w1\<close>] obtain tss where
        "list_all2 (\<lambda>k ts. distinct ts \<and> set ts = zset_members (kept w) k) keys tss"
        "ss = (out @ map sample_in ts) @ map sample_in (concat tss)" by auto
      with ok Inr None show ?thesis by (auto intro!: exI [of _ "ts # tss"])
    qed simp
  qed
qed simp

lemma distinct_concat:
  assumes "list_all2 (\<lambda>k ts. distinct ts \<and> set ts = M k) keys tss" and "distinct keys"
    and "\<And>k k' t t'. t \<in> M k \<Longrightarrow> t' \<in> M k' \<Longrightarrow> f t = f t' \<Longrightarrow> k = k' \<and> t = t'"
  shows "distinct (map f (concat tss)) \<and> set (concat tss) = (\<Union>k\<in>set keys. M k)"
  using assms(1,2)
proof (induction rule: list_all2_induct)
  case (Cons k keys ts tss)
  then have "inj_on f (set ts)" "f ` set ts \<inter> f ` set (concat tss) = {}"
    using assms(3) by (auto simp: inj_on_def)
  with Cons show ?case by (auto simp: distinct_map)
qed simp

lemma Store_GetAll_day:
  assumes "Store_GetAll v = ((ss, e), v')" and "clock_day d v" and "redis_reads v"
    and "comes_from d X (kept v)" and "inj_on stored_sample X"
  shows "case e of Some _ \<Rightarrow> last_failed v'
    | None \<Rightarrow> distinct ss \<and> set ss = stored_sample ` {x\<in>X. saved d (kept v) x \<and> grouped d (kept v) x \<and> stored_ok x}"
proof -
  obtain k w1 where k: "Store_key ''group-insights'' [] v = (k, w1)" by (metis prod.collapse)
  note k' = Store_key_day [OF k assms(2), folded group_key_def]
  obtain r w2 where r: "ask_texts (RedisSMembers k) w1 = (r, w2)" by (metis prod.collapse)
  have rd: "redis_reads w1" using k' assms(3) same_answer(2) by blast
  then have "reads_set (answer w1 (history w1) (RedisSMembers k)) (set_members (kept w1) k)"
    by (metis accepted_in members_kept(1) redis_reads_def)
  from ask_texts_reads [OF r this] k' have w2: "answer w2 = answer w1" "kept w2 = kept v"
    and ok: "case r of Inl e \<Rightarrow> last_failed w2 | Inr ts \<Rightarrow> distinct ts \<and> set ts = set_members (kept v) (group_key d)"
    by (simp_all split: sum.splits)
  have from_X: "\<exists>x\<in>X. k = metric_key d x \<and> t = metric_text x \<and> stored_ok x" if "t \<in> zset_members (kept v) k" for k t
    using that assms(4) by (simp add: comes_from_def)
  show ?thesis
  proof (cases r)
    case (Inl err)
    with assms(1) ok show ?thesis by (auto simp: Store_GetAll_def k r)
  next
    case (Inr keys)
    have "read_keys keys [] w2 = ((ss, e), v')" using assms(1) Inr by (simp add: Store_GetAll_def k r)
    moreover have "redis_reads w2" using rd w2(1) same_answer(2) by blast
    moreover have "\<forall>k. \<forall>t\<in>zset_members (kept w2) k. snd (unmarshal into_sample zero_sample t) = None"
      using from_X w2(2) by (metis metric_text_def snd_conv stored_decoded)
    ultimately have all: "case e of Some _ \<Rightarrow> last_failed v'
      | None \<Rightarrow> \<exists>tss. list_all2 (\<lambda>k ts. distinct ts \<and> set ts = zset_members (kept v) k) keys tss \<and>
          ss = [] @ map sample_in (concat tss)"
      using read_keys_all [of keys "[]" w2 ss e v', unfolded w2(2)] by (simp add: w2(2))
    show ?thesis
    proof (cases e)
      case None
      with all obtain tss where tss: "list_all2 (\<lambda>k ts. distinct ts \<and> set ts = zset_members (kept v) k) keys tss"
        and ss: "ss = map sample_in (concat tss)" by auto
      have one: "k = k' \<and> t = t'" if "t \<in> zset_members (kept v) k" "t' \<in> zset_members (kept v) k'"
          "sample_in t = sample_in t'" for k k' t t'
        using from_X [OF that(1)] from_X [OF that(2)] that(3) assms(5) by (metis inj_onD sample_in_stored)
      have "distinct keys" "set keys = set_members (kept v) (group_key d)" using ok Inr by simp_all
      with distinct_concat [where f = sample_in, OF tss this(1) one] ss
      have "distinct ss" "set ss = sample_in ` (\<Union>k\<in>set_members (kept v) (group_key d). zset_members (kept v) k)" by simp_all
      moreover have "sample_in ` (\<Union>k\<in>set_members (kept v) (group_key d). zset_members (kept v) k) =
          stored_sample ` {x\<in>X. saved d (kept v) x \<and> grouped d (kept v) x \<and> stored_ok x}" (is "?L = ?R")
      proof
        show "?L \<subseteq> ?R"
          using from_X sample_in_stored by (fastforce simp: saved_def grouped_def)
        show "?R \<subseteq> ?L"
          by (auto simp: saved_def grouped_def simp flip: sample_in_stored)
      qed
      ultimately show ?thesis using None by simp
    qed (use all in simp)
  qed
qed

section \<open>What the insights count\<close>

definition found :: "nat \<Rightarrow> call list \<Rightarrow> metric \<Rightarrow> bool" where
  "found d cs x \<longleftrightarrow> saved d cs x \<and> grouped d cs x \<and> stored_ok x"

lemma totals_of:
  "TotalPublished (Metrics_Insights ms) = size {#s \<in># mset ms. ConsumerName s = []#}"
  "TotalConsumed (Metrics_Insights ms) = size {#s \<in># mset ms. ConsumerName s \<noteq> []#}"
proof -
  obtain i c p where t: "tally_all ms = (i, c, p)" by (metis prod_cases3)
  show "TotalPublished (Metrics_Insights ms) = size {#s \<in># mset ms. ConsumerName s = []#}"
    "TotalConsumed (Metrics_Insights ms) = size {#s \<in># mset ms. ConsumerName s \<noteq> []#}"
    using tally_totals(1,2) [of ms]
    by (simp_all add: Metrics_Insights_def t Let_def count_of_def consumes_def [abs_def] flip: mset_filter)
qed

lemma size_filtered: "size {#s \<in># mset (map g (filter Q ys)). P s#} = length (filter (\<lambda>x. Q x \<and> P (g x)) ys)"
  by (induction ys) simp_all

lemma insights_status: "status_of (fst (GetInsightsHandle (Pair (samples, None)) ())) = 200"
  by (simp add: GetInsightsHandle_def Let_def encode_json_def write_body_def commit_def set_header_def status_of_def
      split: sum.splits)


text \<open>A Redis that keeps what it is given, and a publisher that stores one metric in it.\<close>

definition set_adds :: "string \<Rightarrow> call \<Rightarrow> string list" where
  "set_adds k c = (case c of RedisSAdd k' m \<Rightarrow> if k' = k then [m] else [] | _ \<Rightarrow> [])"

definition zset_adds :: "string \<Rightarrow> call \<Rightarrow> string list" where
  "zset_adds k c = (case c of RedisZAdd k' s m \<Rightarrow> if k' = k then [m] else [] | _ \<Rightarrow> [])"

definition redis_answer :: "(call \<times> reply) list \<Rightarrow> call \<Rightarrow> reply" where
  "redis_answer h c = (case c of
       RedisSMembers k \<Rightarrow> GotTexts (remdups (concat (map (set_adds k) (accepted_in h))))
     | RedisZRange k \<Rightarrow> GotTexts (remdups (concat (map (zset_adds k) (accepted_in h))))
     | _ \<Rightarrow> Done)"

lemma adds_members:
  "set (concat (map (set_adds k) cs)) = set_members cs k"
  "set (concat (map (zset_adds k) cs)) = zset_members cs k"
proof -
  have "m \<in> set (set_adds k c) \<longleftrightarrow> c = RedisSAdd k m" "m \<in> set (zset_adds k c) \<longleftrightarrow> (\<exists>s. c = RedisZAdd k s m)" for m c
    by (cases c; auto simp: set_adds_def zset_adds_def)+
  then show "set (concat (map (set_adds k) cs)) = set_members cs k"
    "set (concat (map (zset_adds k) cs)) = zset_members cs k"
    by (auto simp: set_members_def zset_members_def)
qed

lemma redis_answer_reads:
  assumes "answer w = redis_answer"
  shows "redis_reads w" and "clock_day (day_of_month 0) w"
proof -
  have "reads_set (redis_answer h (RedisSMembers k)) (set_members (accepted_in h) k)"
    "reads_set (redis_answer h (RedisZRange k)) (zset_members (accepted_in h) k)" for h k
    using adds_members by (simp_all add: reads_set_def redis_answer_def del: set_concat)
  then show "redis_reads w" by (simp add: redis_reads_def assms)
  show "clock_day (day_of_month 0) w" by (simp add: clock_day_def redis_answer_def assms)
qed

definition insights_morning :: log_world where
  "insights_morning = calm_log\<lparr>answer := redis_answer\<rparr>"

definition sample_publication :: PublisherMetric where
  "sample_publication = \<lparr>pm_TopicName = ''t'', pm_TimeStarted = \<lparr>unix_nano = 0, zone_min = 0\<rparr>,
     pm_TimeEnded = \<lparr>unix_nano = 0, zone_min = 0\<rparr>, pm_TimeDurationMs = 0, pm_ACK = True\<rparr>"

lemma sample_publication_stored: "fst (store_metric (Inr sample_publication) insights_morning) = None"
proof -
  have "time_ok \<lparr>unix_nano = 0, zone_min = 0\<rparr>"
    by (simp add: time_ok_def wall_clock_def epoch_days_def year_start_def multiples_def)
  then obtain j where "PublisherMetric_json sample_publication = Inr j"
    by (simp add: PublisherMetric_json_def Time_MarshalJSON_def sample_publication_def)
  then show ?thesis
    by (simp add: insights_morning_def calm_log_def store_published_def Store_Published_def run_error_def Store_key_def
        time_now_def ask_def ask_err_def Let_def redis_answer_def err_of_def add_metric_def then_group_def
        groupInsights_def Cfg_Get_def cfg_Get_def sample_cfg_def WQ_IsValid_def)
qed


end
