(* ===== verification/Walk.thy ===== *)
theory Walk
  imports Prelude
begin

text \<open>
  What the developer tools under \<open>deployment/ci\<close> use of \<open>path/filepath\<close>: the parts of a path and
  \<open>Walk\<close>, the traversal of a file tree with a callback. A tree has the entries of every folder in the
  order \<open>Walk\<close> visits them (sorted by name), and shows where the system refuses: an entry that cannot
  be looked at, a file that cannot be read, a folder that cannot be listed. The locale \<open>visitor\<close> is
  what the callbacks of both tools promise; under it a walk is a fold over a listing of the tree.
\<close>

section \<open>Paths\<close>

text \<open>The paths of a walk from \<open>"."\<close>: relative, without \<open>"."\<close> or \<open>".."\<close> inside and without doubled
  slashes, so that \<open>Clean\<close> only removes the slash at the end of a directory.\<close>

abbreviation slash :: char where "slash \<equiv> CHR ''/''"

definition last_part :: "string \<Rightarrow> string" where
  "last_part p = rev (takeWhile (\<lambda>c. c \<noteq> slash) (rev p))"

definition path_Base :: "string \<Rightarrow> string" where
  "path_Base p =
     (if p = [] then ''.''
      else let q = rev (dropWhile (\<lambda>c. c = slash) (rev p)) in if q = [] then ''/'' else last_part q)"

definition path_Ext :: "string \<Rightarrow> string" where
  "path_Ext p =
     (let r = rev (last_part p)
      in if CHR ''.'' \<in> set r then CHR ''.'' # rev (takeWhile (\<lambda>c. c \<noteq> CHR ''.'') r) else [])"

definition path_Dir :: "string \<Rightarrow> string" where
  "path_Dir p =
     (let d = rev (dropWhile (\<lambda>c. c \<noteq> slash) (rev p))
      in if d = [] then ''.''
         else let e = rev (dropWhile (\<lambda>c. c = slash) (rev d)) in if e = [] then ''/'' else e)"

definition path_Join :: "string \<Rightarrow> string \<Rightarrow> string" where
  "path_Join dir name = (if dir = ''.'' then name else dir @ slash # name)"

section \<open>File trees and the walk\<close>

datatype node =
    Lost error
  | Leaf "bytes result"
  | Folder "(string \<times> node) list result"

text \<open>What a callback returns: \<open>nil\<close> is \<open>None\<close>, and \<open>filepath.SkipDir\<close> is a value of its own.\<close>

datatype walk_err = SkipDir | Walk_Err error

text \<open>A callback gets the path, the name and what lies there (\<open>info.IsDir\<close> and \<open>os.ReadFile\<close> are read
  off the node), and the error of the system if it refused.\<close>

type_synonym 's walk_fn = "string \<Rightarrow> string \<Rightarrow> node \<Rightarrow> error option \<Rightarrow> 's \<Rightarrow> walk_err option \<times> 's"

fun is_folder :: "node \<Rightarrow> bool" where
  "is_folder (Folder _) \<longleftrightarrow> True"
| "is_folder _ \<longleftrightarrow> False"

text \<open>The unexported \<open>walk\<close> and its loop over the names of a folder. \<open>SkipDir\<close> for a folder skips it,
  for a file the rest of its folder.\<close>

function walk :: "'s walk_fn \<Rightarrow> string \<Rightarrow> string \<Rightarrow> node \<Rightarrow> 's \<Rightarrow> walk_err option \<times> 's"
  and walk_names :: "'s walk_fn \<Rightarrow> string \<Rightarrow> (string \<times> node) list \<Rightarrow> 's \<Rightarrow> walk_err option \<times> 's" where
  "walk fn path name (Lost e) s = fn path name (Lost e) (Some e) s"
| "walk fn path name (Leaf c) s = fn path name (Leaf c) None s"
| "walk fn path name (Folder (Inl e)) s = fn path name (Folder (Inl e)) (Some e) s"
| "walk fn path name (Folder (Inr ns)) s =
     (case fn path name (Folder (Inr ns)) None s of
        (Some r, s1) \<Rightarrow> (Some r, s1)
      | (None, s1) \<Rightarrow> walk_names fn path ns s1)"
| "walk_names fn path [] s = (None, s)"
| "walk_names fn path ((name, node) # ns) s =
     (case walk fn (path_Join path name) name node s of
        (None, s1) \<Rightarrow> walk_names fn path ns s1
      | (Some SkipDir, s1) \<Rightarrow>
          (case node of Leaf _ \<Rightarrow> (Some SkipDir, s1) | _ \<Rightarrow> walk_names fn path ns s1)
      | (Some (Walk_Err e), s1) \<Rightarrow> (Some (Walk_Err e), s1))"
  by pat_completeness auto

termination
  by (relation "measure (\<lambda>x. case x of
       Inl (_, _, _, node, _) \<Rightarrow> size node
     | Inr (_, _, ns, _) \<Rightarrow> size_list (size_prod (\<lambda>_. 0) size) ns)") auto

text \<open>\<open>filepath.Walk\<close>\<close>

definition filepath_Walk :: "'s walk_fn \<Rightarrow> string \<Rightarrow> node \<Rightarrow> 's \<Rightarrow> error option \<times> 's" where
  "filepath_Walk fn root node s =
     (case walk fn root (path_Base root) node s of
        (Some (Walk_Err e), s1) \<Rightarrow> (Some e, s1)
      | (_, s1) \<Rightarrow> (None, s1))"

section \<open>The listing of a tree\<close>

text \<open>The entries a walk shows to a callback that skips some folders, in order, and the first refusal
  of the system, which ends the walk.\<close>

type_synonym entry = "string \<times> string \<times> node"

function scan :: "(string \<Rightarrow> bool) \<Rightarrow> string \<Rightarrow> string \<Rightarrow> node \<Rightarrow> entry list \<times> error option"
  and scan_names :: "(string \<Rightarrow> bool) \<Rightarrow> string \<Rightarrow> (string \<times> node) list \<Rightarrow> entry list \<times> error option" where
  "scan skip path name (Lost e) = ([], Some e)"
| "scan skip path name (Leaf c) = ([(path, name, Leaf c)], None)"
| "scan skip path name (Folder (Inl e)) = ([], Some e)"
| "scan skip path name (Folder (Inr ns)) =
     (if skip name then ([(path, name, Folder (Inr ns))], None)
      else case scan_names skip path ns of (es, r) \<Rightarrow> ((path, name, Folder (Inr ns)) # es, r))"
| "scan_names skip path [] = ([], None)"
| "scan_names skip path ((name, node) # ns) =
     (case scan skip (path_Join path name) name node of
        (es, Some e) \<Rightarrow> (es, Some e)
      | (es, None) \<Rightarrow> (case scan_names skip path ns of (fs, r) \<Rightarrow> (es @ fs, r)))"
  by pat_completeness auto

termination
  by (relation "measure (\<lambda>x. case x of
       Inl (_, _, _, node) \<Rightarrow> size node
     | Inr (_, _, ns) \<Rightarrow> size_list (size_prod (\<lambda>_. 0) size) ns)") auto

text \<open>What lies in a tree outside the skipped folders, and where: the listing without its order.\<close>

inductive located :: "(string \<Rightarrow> bool) \<Rightarrow> string \<Rightarrow> string \<Rightarrow> node \<Rightarrow> entry \<Rightarrow> bool"
  for skip where
  here: "located skip path name node (path, name, node)"
| inside: "\<not> skip name \<Longrightarrow> (m, y) \<in> set ns \<Longrightarrow> located skip (path_Join path m) m y e
    \<Longrightarrow> located skip path name (Folder (Inr ns)) e"

inductive_simps located_simps [simp]:
  "located skip path name (Lost e) x"
  "located skip path name (Leaf c) x"
  "located skip path name (Folder (Inl e)) x"

inductive_simps located_folder: "located skip path name (Folder (Inr ns)) x"

text \<open>A walk without a refusal lists all of it.\<close>

lemma scan_located:
  "scan skip path name node = (es, None) \<Longrightarrow> set es = {e. located skip path name node e}"
  "scan_names skip path ns = (es, None) \<Longrightarrow>
     set es = {e. \<exists>m y. (m, y) \<in> set ns \<and> located skip (path_Join path m) m y e}"
proof (induction skip path name node and skip path ns arbitrary: es and es
    rule: scan_scan_names.induct)
  case (4 skip path name ns)
  then show ?case by (auto simp: located_folder split: if_splits prod.splits)
next
  case (6 skip path name node ns)
  then show ?case by (auto split: prod.splits option.splits) blast+
qed auto

text \<open>A walk meets no refusal exactly when nothing it comes to is lost or cannot be listed.\<close>

fun refused_node :: "node \<Rightarrow> bool" where
  "refused_node (Lost _) \<longleftrightarrow> True"
| "refused_node (Folder (Inl _)) \<longleftrightarrow> True"
| "refused_node _ \<longleftrightarrow> False"

definition readable :: "(string \<Rightarrow> bool) \<Rightarrow> string \<Rightarrow> string \<Rightarrow> node \<Rightarrow> bool" where
  "readable skip path name node \<longleftrightarrow> (\<forall>p n x. located skip path name node (p, n, x) \<longrightarrow> \<not> refused_node x)"

lemma readable_simps [simp]:
  "\<not> readable skip path name (Lost e)" "readable skip path name (Leaf c)"
  "\<not> readable skip path name (Folder (Inl e))"
  "readable skip path name (Folder (Inr ns)) \<longleftrightarrow>
     skip name \<or> (\<forall>m y. (m, y) \<in> set ns \<longrightarrow> readable skip (path_Join path m) m y)"
  by (simp_all add: readable_def located_folder) (cases "skip name"; auto; blast)

lemma scan_readable:
  "snd (scan skip path name node) = None \<longleftrightarrow> readable skip path name node"
  "snd (scan_names skip path ns) = None \<longleftrightarrow>
     (\<forall>m y. (m, y) \<in> set ns \<longrightarrow> readable skip (path_Join path m) m y)"
  by (induction skip path name node and skip path ns rule: scan_scan_names.induct)
    (auto split: prod.splits option.splits)

text \<open>A tree as file systems have them: the names in a folder are different, not empty, not \<open>"."\<close> and
  without slashes. Then no path is listed twice.\<close>

definition name_ok :: "string \<Rightarrow> bool" where
  "name_ok m \<longleftrightarrow> m \<noteq> [] \<and> m \<noteq> ''.'' \<and> slash \<notin> set m"

function tidy :: "node \<Rightarrow> bool" and tidy_names :: "(string \<times> node) list \<Rightarrow> bool" where
  "tidy (Lost e) \<longleftrightarrow> True"
| "tidy (Leaf c) \<longleftrightarrow> True"
| "tidy (Folder (Inl e)) \<longleftrightarrow> True"
| "tidy (Folder (Inr ns)) \<longleftrightarrow> tidy_names ns"
| "tidy_names [] \<longleftrightarrow> True"
| "tidy_names ((m, y) # ns) \<longleftrightarrow> name_ok m \<and> m \<notin> fst ` set ns \<and> tidy y \<and> tidy_names ns"
  by pat_completeness auto

termination
  by (relation "measure (\<lambda>x. case x of
       Inl node \<Rightarrow> size node | Inr ns \<Rightarrow> size_list (size_prod (\<lambda>_. 0) size) ns)") auto

lemma tidy_namesD: "tidy_names ns \<Longrightarrow> (m, y) \<in> set ns \<Longrightarrow> name_ok m \<and> tidy y"
  by (induction ns) auto

lemma path_Join_not_dot: "name_ok m \<Longrightarrow> path_Join path m \<noteq> ''.''"
  by (auto simp: path_Join_def name_ok_def append_eq_Cons_conv)

lemma located_under:
  "located skip path name node e \<Longrightarrow> tidy node \<Longrightarrow> path \<noteq> ''.'' \<Longrightarrow>
     fst e = path \<or> (\<exists>t. fst e = path @ slash # t)"
proof (induction rule: located.induct)
  case (inside name m y ns path e)
  then have "path_Join path m \<noteq> ''.''" and "tidy y"
    by (auto dest: tidy_namesD path_Join_not_dot)
  with inside show ?case by (auto simp: path_Join_def)
qed simp

text \<open>The first step of a path below a folder.\<close>

definition step_below :: "string \<Rightarrow> string \<Rightarrow> string" where
  "step_below dir p = takeWhile (\<lambda>c. c \<noteq> slash) (if dir = ''.'' then p else drop (length dir + 1) p)"

lemma step_below_located:
  assumes "located skip (path_Join path m) m y e" and "tidy y" and "name_ok m"
  shows "step_below path (fst e) = m" and "fst e \<noteq> path"
proof -
  have m: "takeWhile (\<lambda>c. c \<noteq> slash) (m @ slash # t) = m" "takeWhile (\<lambda>c. c \<noteq> slash) m = m" for t
    using assms(3) by (auto simp: name_ok_def takeWhile_append takeWhile_eq_all_conv)
  from located_under [OF assms(1,2) path_Join_not_dot [OF assms(3)]]
  consider "fst e = path_Join path m" | t where "fst e = path_Join path m @ slash # t" by auto
  then show "step_below path (fst e) = m"
    by cases (simp_all add: step_below_def path_Join_def m)
  from located_under [OF assms(1,2) path_Join_not_dot [OF assms(3)]]
  show "fst e \<noteq> path"
    using assms(3) by (auto simp: path_Join_def name_ok_def append_eq_Cons_conv split: if_splits)
qed

lemma scan_distinct:
  "scan skip path name node = (es, None) \<Longrightarrow> tidy node \<Longrightarrow> distinct (map fst es)"
  "scan_names skip path ns = (es, None) \<Longrightarrow> tidy_names ns \<Longrightarrow> distinct (map fst es)"
proof (induction skip path name node and skip path ns arbitrary: es and es
    rule: scan_scan_names.induct)
  case (4 skip path name ns)
  show ?case
  proof (cases "skip name")
    case False
    with "4.prems" obtain fs where fs: "scan_names skip path ns = (fs, None)"
      and es: "es = (path, name, Folder (Inr ns)) # fs" by (auto split: prod.splits)
    have "fst e \<noteq> path" if "e \<in> set fs" for e
      using that "4.prems"(2) scan_located(2) [OF fs] by (auto dest: tidy_namesD step_below_located(2))
    with 4 False fs es show ?thesis by auto
  qed (use 4 in auto)
next
  case (6 skip path name node ns)
  then obtain fs gs where fs: "scan skip (path_Join path name) name node = (fs, None)"
    and gs: "scan_names skip path ns = (gs, None)" and es: "es = fs @ gs"
    by (auto split: prod.splits option.splits)
  have "fst e \<noteq> fst e'" if "e \<in> set fs" and "e' \<in> set gs" for e e'
  proof -
    from that(1) have "step_below path (fst e) = name"
      using "6.prems"(2) scan_located(1) [OF fs] by (auto dest: step_below_located(1))
    moreover from that(2) obtain m y where "(m, y) \<in> set ns" and "step_below path (fst e') = m"
      using "6.prems"(2) scan_located(2) [OF gs] by (auto dest: tidy_namesD step_below_located(1))
    moreover from this(1) "6.prems"(2) have "m \<noteq> name" by (auto intro: rev_image_eqI)
    ultimately show ?thesis by auto
  qed
  with 6 fs gs es show ?case by fastforce
qed simp_all

section \<open>Where an entry lies\<close>

lemma last_part_Join:
  assumes "slash \<notin> set m"
  shows "last_part (d @ slash # m) = m" and "last_part m = m"
proof -
  have 1: "takeWhile (\<lambda>c. c \<noteq> slash) (rev m @ slash # rev d) = rev m"
    using assms by (subst takeWhile_append2) auto
  show "last_part (d @ slash # m) = m" unfolding last_part_def rev_append rev.simps append_assoc append.simps 1
    by simp
  have 2: "takeWhile (\<lambda>c. c \<noteq> slash) (rev m) = rev m"
    using assms by (subst takeWhile_eq_all_conv) auto
  show "last_part m = m" unfolding last_part_def 2 by simp
qed

definition no_slash_end :: "string \<Rightarrow> bool" where
  "no_slash_end d \<longleftrightarrow> d \<noteq> [] \<and> last d \<noteq> slash"

lemma strip_slashes: "no_slash_end p \<Longrightarrow> rev (dropWhile (\<lambda>c. c = slash) (rev p)) = p"
  by (cases p rule: rev_cases) (auto simp: no_slash_end_def)

lemma name_okD: "name_ok m \<Longrightarrow> slash \<notin> set m \<and> no_slash_end m"
  by (metis last_in_set name_ok_def no_slash_end_def)

lemma path_parts_Join:
  assumes "name_ok m" and "d = ''.'' \<or> no_slash_end d"
  shows "path_Base (path_Join d m) = m" and "path_Dir (path_Join d m) = d"
    and "no_slash_end (path_Join d m)"
proof -
  have m: "slash \<notin> set m" "no_slash_end m" using assms(1) by (auto dest: name_okD)
  then have dm: "no_slash_end (d @ slash # m)" by (auto simp: no_slash_end_def)
  show "no_slash_end (path_Join d m)" using m dm by (simp add: path_Join_def)
  show "path_Base (path_Join d m) = m"
  proof (cases "d = ''.''")
    case True
    then show ?thesis using m strip_slashes [OF m(2)] last_part_Join(2) [OF m(1)]
      by (simp add: path_Base_def path_Join_def no_slash_end_def)
  next
    case False
    have "path_Base (d @ slash # m) = m"
      unfolding path_Base_def Let_def strip_slashes [OF dm] last_part_Join(1) [OF m(1)] by simp
    with False show ?thesis by (simp add: path_Join_def)
  qed
  have drop: "dropWhile (\<lambda>c. c \<noteq> slash) (rev m @ xs) = dropWhile (\<lambda>c. c \<noteq> slash) xs" for xs
    using m(1) by (subst dropWhile_append2) auto
  show "path_Dir (path_Join d m) = d"
  proof (cases "d = ''.''")
    case True
    then show ?thesis using drop [of "[]"] by (simp add: path_Dir_def path_Join_def)
  next
    case False
    then have d: "no_slash_end d" using assms(2) by blast
    have "rev (dropWhile (\<lambda>c. c \<noteq> slash) (rev (d @ slash # m))) = d @ [slash]"
      using drop [of "slash # rev d"] by simp
    moreover have "rev (dropWhile (\<lambda>c. c = slash) (rev (d @ [slash]))) = d"
      using strip_slashes [OF d] by simp
    moreover have "d \<noteq> []" using d by (simp add: no_slash_end_def)
    ultimately have "path_Dir (d @ slash # m) = d" unfolding path_Dir_def Let_def by simp
    with False show ?thesis by (simp add: path_Join_def)
  qed
qed

text \<open>Every entry but the root lies in a folder of the tree that is not skipped.\<close>

lemma located_parent:
  assumes "located skip path name node e" and "tidy node" and "path = ''.'' \<or> no_slash_end path"
    and "path = ''.'' \<or> path_Base path = name"
  shows "e = (path, name, node) \<or> (\<exists>d dn ns m y. e = (path_Join d m, m, y) \<and> name_ok m \<and>
    (d = ''.'' \<or> no_slash_end d \<and> path_Base d = dn) \<and> \<not> skip dn \<and>
    located skip path name node (d, dn, Folder ns))"
  using assms
proof (induction rule: located.induct)
  case (inside name m y ns path e)
  let ?p = "path_Join path m"
  have ok: "name_ok m" "tidy y" using inside by (auto dest: tidy_namesD)
  note p = path_parts_Join [OF ok(1) inside.prems(2)]
  have up: "located skip path name (Folder (Inr ns)) x" if "located skip ?p m y x" for x
    using inside.hyps that located.inside by blast
  from inside.IH p ok consider "e = (?p, m, y)"
    | d dn ns' m' y' where "e = (path_Join d m', m', y')" "name_ok m'"
      "d = ''.'' \<or> no_slash_end d \<and> path_Base d = dn" "\<not> skip dn"
      "located skip ?p m y (d, dn, Folder ns')" by blast
  then show ?case
  proof cases
    case 1
    then show ?thesis
      using ok inside.hyps(1) inside.prems located.here [of skip path name "Folder (Inr ns)"] by blast
  next
    case 2
    then show ?thesis using up by blast
  qed
qed simp

section \<open>Visitors\<close>

text \<open>What a callback promises: it skips the folders \<open>skip\<close> names and no file, hands an error of the
  system on, and otherwise only notes what it sees.\<close>

locale visitor =
  fixes visit :: "'s walk_fn"
    and skip :: "string \<Rightarrow> bool"
    and record_entry :: "entry \<Rightarrow> 's \<Rightarrow> 's"
  assumes folder: "visit path name (Folder r) None s =
      (if skip name then Some SkipDir else None, record_entry (path, name, Folder r) s)"
    and leaf: "visit path name (Leaf c) None s = (None, record_entry (path, name, Leaf c) s)"
    and refused: "visit path name node (Some e) s = (Some (Walk_Err e), s)"
begin

lemma walk_scan_skip:
  "sk = skip \<Longrightarrow> walk visit path name node s =
     ((case snd (scan sk path name node) of
         Some e \<Rightarrow> Some (Walk_Err e)
       | None \<Rightarrow> if is_folder node \<and> sk name then Some SkipDir else None),
      fold record_entry (fst (scan sk path name node)) s)"
  "sk = skip \<Longrightarrow> walk_names visit path ns s =
     (map_option Walk_Err (snd (scan_names sk path ns)),
      fold record_entry (fst (scan_names sk path ns)) s)"
proof (induction sk path name node and sk path ns arbitrary: s and s rule: scan_scan_names.induct)
  case (4 sk path name ns)
  then show ?case by (auto simp: folder split: prod.splits option.splits)
next
  case (6 sk path name node ns)
  then show ?case by (cases node) (auto split: prod.splits option.splits sum.splits)
qed (simp_all add: folder leaf refused)

lemmas walk_scan = walk_scan_skip [OF refl]

lemma Walk_scan:
  "filepath_Walk visit root node s =
     (snd (scan skip root (path_Base root) node),
      fold record_entry (fst (scan skip root (path_Base root) node)) s)"
  by (simp add: filepath_Walk_def walk_scan split: option.splits)

end

end
