(* ===== verification/Buildtools.thy ===== *)
theory Buildtools
  imports Walk Environment "HOL-Library.Multiset"
begin

text \<open>
  The developer tools under \<open>deployment/ci\<close>: \<open>validation_pkg\<close>, the check of the names of packages and
  folders that the continuous integration runs, and \<open>gen_mocks\<close>, which finds the files with
  interfaces and hands them to five workers over a channel of 100 places. Both walk the source tree;
  their callbacks are \<open>visitor\<close>s.
\<close>

section \<open>The package check (validation_pkg/main.go)\<close>

definition skipDirs :: "string \<Rightarrow> bool" where
  "skipDirs name \<longleftrightarrow> name \<in> set [''vendor'', ''docs'', ''mocks'', ''tmp'', ''.git'', ''specs'', ''deployment'',
     ''.vscode'', ''.idea'', ''examples'']"

fun first_package :: "string list \<Rightarrow> string" where
  "first_package [] = []"
| "first_package (l # ls) =
     (let line = trim_space l
      in if has_prefix ''package '' line then trim_prefix ''package '' line else first_package ls)"

definition extractPackage :: "bytes \<Rightarrow> string" where
  "extractPackage content = first_package (str_split (CHR 0x0A) content)"

text \<open>What the tool prints, by what the line says.\<close>

datatype report =
    Wrong_package string string string
  | Unreadable string error
  | Duplicated string "string list"
  | No_problem

record validation =
  folders :: "string list gomap"
  hasError :: bool
  printed :: "report list"

definition say :: "report \<Rightarrow> validation \<Rightarrow> validation" where
  "say r v = v\<lparr>printed := printed v @ [r]\<rparr>"

definition add_folder :: "string \<Rightarrow> string \<Rightarrow> validation \<Rightarrow> validation" where
  "add_folder name path v =
     v\<lparr>folders := go_put name ((case go_get (folders v) name of None \<Rightarrow> [] | Some ps \<Rightarrow> ps) @ [path]) (folders v)\<rparr>"

definition check_file :: "string \<Rightarrow> bytes result \<Rightarrow> validation \<Rightarrow> validation" where
  "check_file path file v =
     (if path_Ext path \<noteq> ''.go'' then v
      else if has_suffix ''_test.go'' (path_Base path) then v
      else case file of
             Inl err \<Rightarrow> say (Unreadable path err) v
           | Inr content \<Rightarrow>
               (let pkg = extractPackage content
                in if pkg = ''main'' then v
                   else let folderName = path_Base (path_Dir path)
                        in if pkg \<noteq> [] \<and> folderName \<noteq> ''.'' \<and> pkg \<noteq> folderName
                           then (say (Wrong_package pkg folderName path) v)\<lparr>hasError := True\<rparr>
                           else v))"

definition validation_visit :: "validation walk_fn" where
  "validation_visit path name node err v =
     (case err of
        Some e \<Rightarrow> (Some (Walk_Err e), v)
      | None \<Rightarrow>
          (case node of
             Folder _ \<Rightarrow>
               if skipDirs name then (Some SkipDir, v)
               else (None, if name \<noteq> ''.'' then add_folder name path v else v)
           | Leaf file \<Rightarrow> (None, check_file path file v)
           | Lost _ \<Rightarrow> (None, check_file path (Inl (ErrText ''not found'')) v)))"

fun check_duplicates :: "string list gomap \<Rightarrow> validation \<Rightarrow> validation" where
  "check_duplicates [] v = v"
| "check_duplicates ((name, paths) # fs) v =
     check_duplicates fs
       (if length paths > 1 then (say (Duplicated name paths) v)\<lparr>hasError := True\<rparr> else v)"

text \<open>\<open>main\<close>: the exit status and what was printed. The error of the walk is dropped.\<close>

definition validation_main :: "node \<Rightarrow> nat \<times> report list" where
  "validation_main root =
     (let v = snd (filepath_Walk validation_visit ''.'' root
                \<lparr>folders = [], hasError = False, printed = []\<rparr>);
          v1 = check_duplicates (folders v) v
      in if hasError v1 then (1, printed v1) else (0, printed (say No_problem v1)))"

section \<open>What the check finds\<close>

definition wrong_package :: "string \<Rightarrow> bytes result \<Rightarrow> bool" where
  "wrong_package path file \<longleftrightarrow>
     path_Ext path = ''.go'' \<and> \<not> has_suffix ''_test.go'' (path_Base path) \<and>
     path_Base (path_Dir path) \<noteq> ''.'' \<and>
     (case file of
        Inl _ \<Rightarrow> False
      | Inr content \<Rightarrow> extractPackage content \<notin> {[], ''main'', path_Base (path_Dir path)})"

definition named_folder :: "entry \<Rightarrow> bool" where
  "named_folder e \<longleftrightarrow> (case e of (p, n, x) \<Rightarrow> is_folder x \<and> \<not> skipDirs n \<and> n \<noteq> ''.'')"

definition wrong_entry :: "entry \<Rightarrow> bool" where
  "wrong_entry e \<longleftrightarrow> (case e of (p, n, x) \<Rightarrow> case x of Leaf file \<Rightarrow> wrong_package p file | _ \<Rightarrow> False)"

definition validation_note :: "entry \<Rightarrow> validation \<Rightarrow> validation" where
  "validation_note e v =
     (case e of (path, name, node) \<Rightarrow>
        (case node of
           Folder _ \<Rightarrow> if named_folder e then add_folder name path v else v
         | Leaf file \<Rightarrow> check_file path file v
         | Lost _ \<Rightarrow> v))"

interpretation validator: visitor validation_visit skipDirs validation_note
  by unfold_locales (auto simp: validation_visit_def validation_note_def named_folder_def)

lemma check_file_effect [simp]:
  "hasError (check_file p file v) \<longleftrightarrow> hasError v \<or> wrong_package p file"
  "folders (check_file p file v) = folders v"
  by (auto simp: check_file_def wrong_package_def say_def Let_def split: sum.splits)

lemma validation_note_effect [simp]:
  "hasError (validation_note e v) \<longleftrightarrow> hasError v \<or> wrong_entry e"
  "folders (validation_note e v) =
     (if named_folder e then folders (add_folder (fst (snd e)) (fst e) v) else folders v)"
  by (cases e; cases "snd (snd e)";
      auto simp: validation_note_def wrong_entry_def named_folder_def add_folder_def)+

lemma hasError_fold:
  "hasError (fold validation_note es v) \<longleftrightarrow> hasError v \<or> (\<exists>e\<in>set es. wrong_entry e)"
  by (induction es arbitrary: v) auto

text \<open>The map of the folders: the paths of every name, in the order of the walk.\<close>

definition paths_named :: "string \<Rightarrow> entry list \<Rightarrow> string list" where
  "paths_named n es = map fst (filter (\<lambda>e. named_folder e \<and> fst (snd e) = n) es)"

definition folder_paths :: "string list gomap \<Rightarrow> string \<Rightarrow> string list" where
  "folder_paths m n = (case go_get m n of None \<Rightarrow> [] | Some ps \<Rightarrow> ps)"

lemma folders_fold:
  "gomap_ok (folders v) \<Longrightarrow> gomap_ok (folders (fold validation_note es v))"
  "folder_paths (folders (fold validation_note es v)) n = folder_paths (folders v) n @ paths_named n es"
  by (induction es arbitrary: v)
    (auto simp: add_folder_def folder_paths_def paths_named_def gomap_simps split: option.splits)

lemma check_duplicates_hasError:
  "hasError (check_duplicates fs v) \<longleftrightarrow> hasError v \<or> (\<exists>(n, ps)\<in>set fs. length ps > 1)"
  by (induction fs v rule: check_duplicates.induct) (auto simp: say_def)

lemma duplicated_folder:
  assumes "gomap_ok m"
  shows "(\<exists>(n, ps)\<in>set m. length ps > 1) \<longleftrightarrow> (\<exists>n. length (folder_paths m n) > 1)"
proof -
  have m: "(n, ps) \<in> set m \<longleftrightarrow> go_get m n = Some ps" for n ps
    using assms by (auto simp: gomap_ok_def)
  show ?thesis
  proof
    assume "\<exists>(n, ps)\<in>set m. length ps > 1"
    then obtain n ps where "go_get m n = Some ps" and "length ps > 1" using m by auto
    then show "\<exists>n. length (folder_paths m n) > 1" by (auto simp: folder_paths_def intro: exI [of _ n])
  next
    assume "\<exists>n. length (folder_paths m n) > 1"
    then obtain n where n: "length (folder_paths m n) > 1" by blast
    then obtain ps where "go_get m n = Some ps" by (auto simp: folder_paths_def split: option.splits)
    with n m [of n ps] show "\<exists>(n, ps)\<in>set m. length ps > 1"
      by (auto simp: folder_paths_def intro: bexI [of _ "(n, ps)"])
  qed
qed

text \<open>The exit status by the listing of the walk, whether or not the walk got to its end.\<close>

lemma validation_listing:
  assumes "es = fst (scan skipDirs ''.'' ''.'' root)"
  shows "fst (validation_main root) = 0 \<longleftrightarrow>
    (\<forall>e\<in>set es. \<not> wrong_entry e) \<and> (\<forall>n. length (paths_named n es) \<le> 1)"
proof -
  have dot: "path_Base ''.'' = ''.''" by (simp add: path_Base_def last_part_def)
  let ?v = "fold validation_note es \<lparr>folders = [], hasError = False, printed = []\<rparr>"
  have paths: "folder_paths (folders ?v) n = paths_named n es" for n
    using folders_fold(2) [of es _ n] by (simp add: folder_paths_def)
  have "gomap_ok (folders ?v)" by (simp add: folders_fold(1))
  from duplicated_folder [OF this]
  have "hasError (check_duplicates (folders ?v) ?v) \<longleftrightarrow>
      (\<exists>e\<in>set es. wrong_entry e) \<or> (\<exists>n. length (paths_named n es) > 1)"
    by (simp only: check_duplicates_hasError hasError_fold paths) simp
  then show ?thesis
    by (auto simp: validation_main_def validator.Walk_scan dot assms Let_def not_le not_less)
qed

lemma paths_named_unique:
  assumes "distinct (map fst es)"
  shows "length (paths_named n es) \<le> 1 \<longleftrightarrow>
    (\<forall>d\<in>set es. \<forall>e\<in>set es. named_folder d \<and> named_folder e \<and> fst (snd d) = n \<and> fst (snd e) = n
       \<longrightarrow> fst d = fst e)" (is "_ \<longleftrightarrow> ?R")
proof -
  have d: "distinct (paths_named n es)"
    using assms by (simp add: paths_named_def distinct_map_filter)
  have s: "set (paths_named n es) = fst ` {e \<in> set es. named_folder e \<and> fst (snd e) = n}"
    by (auto simp: paths_named_def)
  have "length (paths_named n es) \<le> 1 \<longleftrightarrow> (\<forall>x\<in>set (paths_named n es). \<forall>y\<in>set (paths_named n es). x = y)"
    using d by (cases "paths_named n es"; cases "tl (paths_named n es)") auto
  then show ?thesis unfolding s by blast
qed

lemma same_key:
  "(\<forall>n. \<forall>d\<in>E. \<forall>e\<in>E. P d \<and> P e \<and> f d = n \<and> f e = n \<longrightarrow> g d = g e) \<longleftrightarrow>
    (\<forall>d\<in>E. \<forall>e\<in>E. P d \<and> P e \<and> f d = f e \<longrightarrow> g d = g e)" (is "?L \<longleftrightarrow> ?R")
proof
  assume L: ?L
  show ?R
  proof (intro ballI impI)
    fix d e assume "d \<in> E" and "e \<in> E" and "P d \<and> P e \<and> f d = f e"
    with L [rule_format, of d e "f e"] show "g d = g e" by blast
  qed
next
  assume R: ?R
  show ?L
  proof (intro allI ballI impI)
    fix n d e assume "d \<in> E" and "e \<in> E" and "P d \<and> P e \<and> f d = n \<and> f e = n"
    with R [rule_format, of d e] show "g d = g e" by simp
  qed
qed

text \<open>The check passes exactly when every file that says so belongs to the package of its folder and no
  two folders have one name, in a tree that can be read.\<close>

lemma validation_correct:
  assumes "readable skipDirs ''.'' ''.'' root" and "tidy root"
    and there: "\<And>e. e \<in> E \<longleftrightarrow> located skipDirs ''.'' ''.'' root e"
  shows "fst (validation_main root) = 0 \<longleftrightarrow>
    (\<forall>e\<in>E. \<not> wrong_entry e) \<and>
    (\<forall>d\<in>E. \<forall>e\<in>E. named_folder d \<and> named_folder e \<and> fst (snd d) = fst (snd e) \<longrightarrow> fst d = fst e)"
proof -
  obtain es where es: "scan skipDirs ''.'' ''.'' root = (es, None)"
    using assms(1) scan_readable(1) by (metis prod.collapse)
  then have E: "set es = E" using scan_located(1) [OF es] there by auto
  have "distinct (map fst es)" using scan_distinct(1) [OF es assms(2)] .
  note unique = paths_named_unique [OF this, unfolded E]
  from es have "es = fst (scan skipDirs ''.'' ''.'' root)" by simp
  from validation_listing [OF this, unfolded E unique] show ?thesis
    unfolding same_key [of E named_folder "\<lambda>e. fst (snd e)"] .
qed

text \<open>A tree with two packages, an ignored folder and a program.\<close>

definition demo_tree :: node where
  "demo_tree = Folder (Inr
     [(''cmd'', Folder (Inr [(''main.go'', Leaf (Inr ''package main''))])),
      (''docs'', Folder (Inr [(''x.go'', Leaf (Inr ''package y''))])),
      (''fetcher'', Folder (Inr [(''base.go'', Leaf (Inr (''package fetcher'' @ [CHR 0x0A] @ ''type A interface {'')))])),
      (''task'', Folder (Inr [(''base.go'', Leaf (Inr (''package task'' @ [CHR 0x0A] @ ''type B interface {'')))]))])"

text \<open>Claim C40: the package check that the continuous integration runs. In a source tree that can be read
  the tool exits with 0 exactly when every Go file outside the ignored folders that is no test, belongs to a
  package other than main and lies below the root has the name of its folder as package, and no two
  folders have one name.\<close>

theorem validation_passes:
  assumes "readable skipDirs ''.'' ''.'' root" and "tidy root"
  shows "fst (validation_main root) = 0 \<longleftrightarrow>
    (\<forall>e. located skipDirs ''.'' ''.'' root e \<longrightarrow> \<not> wrong_entry e) \<and>
    (\<forall>d e. located skipDirs ''.'' ''.'' root d \<and> located skipDirs ''.'' ''.'' root e \<and>
       named_folder d \<and> named_folder e \<and> fst (snd d) = fst (snd e) \<longrightarrow> fst d = fst e)"
  using validation_correct [OF assms, of "{e. located skipDirs ''.'' ''.'' root e}"] by blast

lemma demo_tree_ok:
  "readable skipDirs ''.'' ''.'' demo_tree" "tidy demo_tree" "fst (validation_main demo_tree) = 0"
proof -
  show "readable skipDirs ''.'' ''.'' demo_tree" "tidy demo_tree"
    by (auto simp: demo_tree_def skipDirs_def name_ok_def)
  show "fst (validation_main demo_tree) = 0" by code_simp
qed

theorem validation_passes_witness:
  "readable skipDirs ''.'' ''.'' demo_tree \<and> tidy demo_tree \<and> fst (validation_main demo_tree) = 0 \<and>
   \<not> (\<exists>e. located skipDirs ''.'' ''.'' demo_tree e \<and> wrong_entry e)"
  using validation_passes [OF demo_tree_ok(1,2)] demo_tree_ok by blast

section \<open>The mock generator (gen_mocks/main.go)\<close>

text \<open>The tool keeps its own list of folders and its own reading of the package clause.\<close>

definition gen_skipDirs :: "string \<Rightarrow> bool" where
  "gen_skipDirs name \<longleftrightarrow> name \<in> set [''vendor'', ''docs'', ''mocks'', ''tmp'', ''.git'', ''specs'',
     ''deployment'', ''.vscode'', ''.idea'', ''examples'']"

fun gen_first_package :: "string list \<Rightarrow> string" where
  "gen_first_package [] = []"
| "gen_first_package (l # ls) =
     (let line = trim_space l
      in if has_prefix ''package '' line then trim_prefix ''package '' line else gen_first_package ls)"

definition gen_extractPackage :: "bytes \<Rightarrow> string" where
  "gen_extractPackage content = gen_first_package (str_split (CHR 0x0A) content)"

lemma tools_agree: "gen_skipDirs = skipDirs" "gen_extractPackage = extractPackage"
proof -
  have "gen_first_package ls = first_package ls" for ls
    by (induction ls) (simp_all add: Let_def)
  then show "gen_extractPackage = extractPackage"
    by (simp add: fun_eq_iff gen_extractPackage_def extractPackage_def)
qed (simp add: fun_eq_iff gen_skipDirs_def skipDirs_def)

text \<open>\<open>strings.Contains\<close>, and \<open>strings.ReplaceAll\<close> with nothing in the place.\<close>

fun str_contains :: "string \<Rightarrow> string \<Rightarrow> bool" where
  "str_contains p [] \<longleftrightarrow> p = []"
| "str_contains p (c # s) \<longleftrightarrow> has_prefix p (c # s) \<or> str_contains p s"

fun remove_all :: "string \<Rightarrow> string \<Rightarrow> string" where
  "remove_all p [] = []"
| "remove_all p (c # s) =
     (if p \<noteq> [] \<and> has_prefix p (c # s) then remove_all p (drop (length p - 1) s) else c # remove_all p s)"

lemma str_contains_iff: "str_contains p s \<longleftrightarrow> (\<exists>a b. s = a @ p @ b)"
proof (induction s)
  case (Cons c s)
  show ?case
  proof
    assume "str_contains p (c # s)"
    then consider b where "c # s = [] @ p @ b" | a b where "c # s = (c # a) @ p @ b"
      using Cons.IH by (auto simp: has_prefix_iff)
    then show "\<exists>a b. c # s = a @ p @ b" by cases blast+
  next
    assume "\<exists>a b. c # s = a @ p @ b"
    then obtain a b where "c # s = a @ p @ b" by blast
    then have "has_prefix p (c # s) \<or> (\<exists>a b. s = a @ p @ b)"
      by (cases a) (auto simp: has_prefix_iff)
    then show "str_contains p (c # s)" using Cons.IH by auto
  qed
qed simp

record FileInfo =
  fi_Path :: string
  fi_Pkg :: string
  fi_FileName :: string

text \<open>The callback sends the files with an interface; what it sends is kept in order, the channel comes
  below. What is printed is left out.\<close>

definition mock_file :: "string \<Rightarrow> bytes result \<Rightarrow> FileInfo list" where
  "mock_file path file =
     (if path_Ext path \<noteq> ''.go'' then []
      else case file of
             Inl err \<Rightarrow> []
           | Inr content \<Rightarrow>
               if str_contains ''interface {'' content
               then [\<lparr>fi_Path = path, fi_Pkg = gen_extractPackage content,
                      fi_FileName = remove_all ''.go'' (path_Base path)\<rparr>]
               else [])"

definition mocks_visit :: "FileInfo list walk_fn" where
  "mocks_visit path name node err found =
     (case err of
        Some e \<Rightarrow> (Some (Walk_Err e), found)
      | None \<Rightarrow>
          (case node of
             Folder _ \<Rightarrow> if gen_skipDirs name then (Some SkipDir, found) else (None, found)
           | Leaf file \<Rightarrow> (None, found @ mock_file path file)
           | Lost e \<Rightarrow> (None, found @ mock_file path (Inl e))))"

definition found_files :: "node \<Rightarrow> FileInfo list" where
  "found_files root = snd (filepath_Walk mocks_visit ''.'' root [])"

definition mocks_of :: "entry \<Rightarrow> FileInfo list" where
  "mocks_of e = (case e of (p, n, x) \<Rightarrow> case x of Leaf file \<Rightarrow> mock_file p file | _ \<Rightarrow> [])"

interpretation generator: visitor mocks_visit gen_skipDirs "\<lambda>e found. found @ mocks_of e"
  by unfold_locales (auto simp: mocks_visit_def mocks_of_def)

lemma found_files_listing:
  "found_files root = concat (map mocks_of (fst (scan gen_skipDirs ''.'' ''.'' root)))"
proof -
  have dot: "path_Base ''.'' = ''.''" by (simp add: path_Base_def last_part_def)
  have "fold (\<lambda>e found. found @ mocks_of e) es s = s @ concat (map mocks_of es)" for es s
    by (induction es arbitrary: s) auto
  then show ?thesis by (simp add: found_files_def generator.Walk_scan dot)
qed

text \<open>In a tree that can be read it finds the files with an interface outside the skipped folders, each
  once.\<close>

lemma found_files_exactly:
  assumes "readable gen_skipDirs ''.'' ''.'' root" and "tidy root"
  shows "f \<in> set (found_files root) \<longleftrightarrow>
      (\<exists>p n file. located gen_skipDirs ''.'' ''.'' root (p, n, Leaf file) \<and> f \<in> set (mock_file p file))"
    and "distinct (map fi_Path (found_files root))"
proof -
  obtain es where es: "scan gen_skipDirs ''.'' ''.'' root = (es, None)"
    using assms(1) scan_readable(1) by (metis prod.collapse)
  have mocks: "map fi_Path (mocks_of e) \<in> {[], [fst e]}" for e
    by (cases e; cases "snd (snd e)") (auto simp: mocks_of_def mock_file_def split: sum.splits)
  have "distinct (map fi_Path (concat (map mocks_of xs)))
      \<and> set (map fi_Path (concat (map mocks_of xs))) \<subseteq> fst ` set xs"
    if "distinct (map fst xs)" for xs
    using that
  proof (induction xs)
    case (Cons x xs)
    let ?rest = "map fi_Path (concat (map mocks_of xs))"
    have rest: "distinct ?rest" "fst x \<notin> set ?rest" "set ?rest \<subseteq> fst ` set xs"
      using Cons by auto
    consider "map fi_Path (mocks_of x) = []" | "map fi_Path (mocks_of x) = [fst x]"
      using mocks [of x] by blast
    then have "distinct (map fi_Path (mocks_of x) @ ?rest)
        \<and> set (map fi_Path (mocks_of x) @ ?rest) \<subseteq> fst ` set (x # xs)"
      using rest by cases (simp only: distinct_append distinct.simps set_append list.set, blast)+
    then show ?case by simp
  qed simp
  with scan_distinct(1) [OF es assms(2)] es show "distinct (map fi_Path (found_files root))"
    by (simp add: found_files_listing)
  show "f \<in> set (found_files root) \<longleftrightarrow>
      (\<exists>p n file. located gen_skipDirs ''.'' ''.'' root (p, n, Leaf file) \<and> f \<in> set (mock_file p file))"
    using scan_located(1) [OF es] es
    by (auto simp: found_files_listing mocks_of_def split: node.splits)
qed

end
