(* ===== verification/Mocks.thy ===== *)
theory Mocks
  imports Buildtools
begin

text \<open>
  The concurrent part of \<open>deployment/ci/gen_mocks/main.go\<close>: a goroutine that walks the tree and sends
  the found files over a channel with 100 places, five workers that take them and run \<open>mockgen\<close>, and
  \<open>main\<close>, which waits for all of them. Every order in which the goroutines may run is a run of the
  step relation; a file handed directly to a waiting worker is a send followed by a take. The commands
  write below \<open>./mocks\<close>, which the walk skips, so that what it finds does not depend on them.
\<close>

section \<open>One file\<close>

definition myPkg :: "FileInfo \<Rightarrow> string" where
  "myPkg f = ''mock'' @ fi_Pkg f"

definition folderDir :: "FileInfo \<Rightarrow> string" where
  "folderDir f = ''./mocks'' @ ''/'' @ myPkg f"

definition completeDest :: "FileInfo \<Rightarrow> string" where
  "completeDest f = ''./mocks'' @ ''/'' @ myPkg f @ ''/mock_'' @ fi_FileName f @ ''.go''"

definition mock_calls :: "FileInfo \<Rightarrow> call list" where
  "mock_calls f =
     [Other ''os.Mkdir'' [folderDir f, ''0755''],
      Other ''go'' [''run'', ''go.uber.org/mock/mockgen@latest'', ''-source='' @ fi_Path f,
        ''-destination='' @ completeDest f, ''-package='' @ myPkg f]]"

text \<open>The body of the loop of a worker. The outcome of the command is only printed.\<close>

definition generate :: "FileInfo \<Rightarrow> 'a world_scheme \<Rightarrow> 'a world_scheme" where
  "generate f w = fold tell (mock_calls f) w"

lemma calls_generate: "calls (generate f w) = calls w @ mock_calls f"
  by (simp add: generate_def mock_calls_def tell_def)

section \<open>The goroutines\<close>

datatype worker = Waiting | Generating FileInfo | Finished

record 'w pipeline =
  unsent :: "FileInfo list"
  fileCh :: "FileInfo list"
  closed :: bool
  workers :: "worker list"
  pl_world :: 'w

definition numWorkers :: nat where "numWorkers = 5"

definition capacity :: nat where "capacity = 100"

definition gen_start :: "FileInfo list \<Rightarrow> 'w \<Rightarrow> 'w pipeline" where
  "gen_start fs w = \<lparr>unsent = fs, fileCh = [], closed = False,
     workers = replicate numWorkers Waiting, pl_world = w\<rparr>"

text \<open>A worker that finds the channel empty and closed ends; one that finds it empty waits. What a worker
  does for a file happens at the end of it.\<close>

inductive gen_step :: "'a world_scheme pipeline \<Rightarrow> 'a world_scheme pipeline \<Rightarrow> bool" where
  send: "unsent p = f # fs \<Longrightarrow> length (fileCh p) < capacity
    \<Longrightarrow> gen_step p (p\<lparr>unsent := fs, fileCh := fileCh p @ [f]\<rparr>)"
| close: "unsent p = [] \<Longrightarrow> \<not> closed p \<Longrightarrow> gen_step p (p\<lparr>closed := True\<rparr>)"
| take: "i < length (workers p) \<Longrightarrow> workers p ! i = Waiting \<Longrightarrow> fileCh p = f # fs
    \<Longrightarrow> gen_step p (p\<lparr>fileCh := fs, workers := (workers p)[i := Generating f]\<rparr>)"
| finish: "i < length (workers p) \<Longrightarrow> workers p ! i = Generating f
    \<Longrightarrow> gen_step p (p\<lparr>workers := (workers p)[i := Waiting], pl_world := generate f (pl_world p)\<rparr>)"
| stop: "i < length (workers p) \<Longrightarrow> workers p ! i = Waiting \<Longrightarrow> fileCh p = [] \<Longrightarrow> closed p
    \<Longrightarrow> gen_step p (p\<lparr>workers := (workers p)[i := Finished]\<rparr>)"

inductive gen_run :: "nat \<Rightarrow> 'a world_scheme pipeline \<Rightarrow> 'a world_scheme pipeline \<Rightarrow> bool" where
  start: "gen_run 0 p p"
| step: "gen_run n p q \<Longrightarrow> gen_step q r \<Longrightarrow> gen_run (Suc n) p r"

text \<open>\<open>main\<close> returns when the walk has ended and all workers have.\<close>

definition gen_ended :: "'w pipeline \<Rightarrow> bool" where
  "gen_ended p \<longleftrightarrow> closed p \<and> (\<forall>x\<in>set (workers p). x = Finished)"

section \<open>Nothing is lost and nothing is done twice\<close>

definition in_hand :: "worker \<Rightarrow> FileInfo list" where
  "in_hand x = (case x of Generating f \<Rightarrow> [f] | _ \<Rightarrow> [])"

text \<open>The files that are still to be generated, wherever they are.\<close>

definition pending :: "'w pipeline \<Rightarrow> FileInfo multiset" where
  "pending p = mset (unsent p) + mset (fileCh p) + mset (concat (map in_hand (workers p)))"

text \<open>\<open>done\<close> are the files generated so far, in the order of their commands.\<close>

definition gen_ok :: "FileInfo list \<Rightarrow> 'a world_scheme \<Rightarrow> FileInfo list \<Rightarrow> 'a world_scheme pipeline \<Rightarrow> bool" where
  "gen_ok fs w gs p \<longleftrightarrow>
     pending p + mset gs = mset fs \<and> calls (pl_world p) = calls w @ concat (map mock_calls gs) \<and>
     length (fileCh p) \<le> capacity \<and> length (workers p) = numWorkers \<and> (closed p \<longrightarrow> unsent p = []) \<and>
     (Finished \<in> set (workers p) \<longrightarrow> closed p \<and> fileCh p = [])"

lemma mset_in_hand_update:
  assumes "i < length ws"
  shows "mset (concat (map in_hand (ws[i := x]))) + mset (in_hand (ws ! i)) =
    mset (concat (map in_hand ws)) + mset (in_hand x)"
  using assms
proof (induction ws arbitrary: i)
  case (Cons y ws)
  then show ?case by (cases i) (auto simp: ac_simps)
qed simp

lemma gen_ok_start: "gen_ok fs w [] (gen_start fs w)"
  by (auto simp: gen_ok_def gen_start_def pending_def in_hand_def numWorkers_def capacity_def)

lemma gen_ok_step:
  assumes "gen_step p q" and "gen_ok fs w gs p"
  shows "\<exists>gs'. gen_ok fs w gs' q"
  using assms
proof cases
  case (send f us)
  with assms(2) have "gen_ok fs w gs q" by (auto simp: gen_ok_def pending_def)
  then show ?thesis ..
next
  case close
  with assms(2) have "gen_ok fs w gs q" by (auto simp: gen_ok_def pending_def)
  then show ?thesis ..
next
  case (take i f us)
  with mset_in_hand_update [of i "workers p" "Generating f"] assms(2) have "gen_ok fs w gs q"
    by (auto simp: gen_ok_def pending_def in_hand_def dest: set_update_subset_insert [THEN subsetD])
  then show ?thesis ..
next
  case (finish i f)
  with mset_in_hand_update [of i "workers p" Waiting, symmetric] assms(2) have "gen_ok fs w (gs @ [f]) q"
    by (auto simp: gen_ok_def pending_def in_hand_def calls_generate
        dest: set_update_subset_insert [THEN subsetD])
  then show ?thesis ..
next
  case (stop i)
  with mset_in_hand_update [of i "workers p" Finished] assms(2) have "gen_ok fs w gs q"
    by (auto simp: gen_ok_def pending_def in_hand_def dest: set_update_subset_insert [THEN subsetD])
  then show ?thesis ..
qed

lemma gen_ok_run: "gen_run n (gen_start fs w) p \<Longrightarrow> \<exists>gs. gen_ok fs w gs p"
proof (induction n "gen_start fs w" p rule: gen_run.induct)
  case start
  show ?case using gen_ok_start by blast
next
  case (step n q r)
  then show ?case using gen_ok_step by blast
qed

section \<open>Every run ends, and never in a deadlock\<close>

definition work_of :: "worker \<Rightarrow> nat" where
  "work_of x = (case x of Waiting \<Rightarrow> 1 | Generating _ \<Rightarrow> 2 | Finished \<Rightarrow> 0)"

definition work_left :: "'w pipeline \<Rightarrow> nat" where
  "work_left p = 3 * length (unsent p) + 2 * length (fileCh p) + (if closed p then 0 else 1) +
     sum_list (map work_of (workers p))"

lemma work_update:
  "i < length ws \<Longrightarrow> sum_list (map work_of (ws[i := x])) + work_of (ws ! i) =
     sum_list (map work_of ws) + work_of x"
proof (induction ws arbitrary: i)
  case (Cons y ws)
  then show ?case by (cases i) auto
qed simp

lemma gen_step_work: "gen_step p q \<Longrightarrow> work_left q < work_left p"
proof (induction rule: gen_step.induct)
  case (take i p f fs)
  then show ?case using work_update [of i "workers p" "Generating f"]
    by (simp add: work_left_def work_of_def)
next
  case (finish i p f)
  then show ?case using work_update [of i "workers p" Waiting]
    by (simp add: work_left_def work_of_def)
next
  case (stop i p)
  then show ?case using work_update [of i "workers p" Finished]
    by (simp add: work_left_def work_of_def)
qed (auto simp: work_left_def)

lemma gen_run_work: "gen_run n p q \<Longrightarrow> n + work_left q \<le> work_left p"
  by (induction rule: gen_run.induct) (auto dest!: gen_step_work)

lemma gen_step_unless_ended:
  assumes "gen_ok fs w gs p" and "\<not> gen_ended p"
  shows "\<exists>q. gen_step p q"
proof -
  consider (closed) "closed p" | (unclosed) "unsent p = []" "\<not> closed p"
    | (room) "unsent p \<noteq> []" "length (fileCh p) < capacity"
    | (full) "unsent p \<noteq> []" "capacity \<le> length (fileCh p)" by linarith
  then show ?thesis
  proof cases
    case closed
    with assms(2) obtain i where i: "i < length (workers p)" "workers p ! i \<noteq> Finished"
      by (auto simp: gen_ended_def in_set_conv_nth)
    then show ?thesis
      using closed gen_step.take [of i p] gen_step.finish [of i p] gen_step.stop [of i p]
      by (cases "workers p ! i"; cases "fileCh p") blast+
  next
    case unclosed
    then show ?thesis using gen_step.close by blast
  next
    case room
    then show ?thesis using gen_step.send by (cases "unsent p") blast+
  next
    case full
    then obtain f us where ch: "fileCh p = f # us" by (cases "fileCh p") (auto simp: capacity_def)
    have "0 < length (workers p)" and "Finished \<notin> set (workers p)"
      using assms(1) ch by (auto simp: gen_ok_def numWorkers_def)
    then have "0 < length (workers p)" and "workers p ! 0 \<noteq> Finished"
      by (metis nth_mem)+
    then show ?thesis
      using ch gen_step.take [of 0 p] gen_step.finish [of 0 p] by (cases "workers p ! 0") blast+
  qed
qed

text \<open>The files found by the walk, however the goroutines are scheduled: a run has at most \<open>3n + 6\<close>
  steps, where it cannot go on \<open>main\<close> has returned, and then the commands run are those of the found
  files, each once, in some order.\<close>

lemma all_mocks_generated:
  assumes "gen_run k (gen_start fs w) p"
  shows "k \<le> 3 * length fs + 6"
    and "(\<nexists>q. gen_step p q) \<Longrightarrow> gen_ended p \<and>
      (\<exists>gs. mset gs = mset fs \<and> calls (pl_world p) = calls w @ concat (map mock_calls gs))"
proof -
  have "work_left (gen_start fs w) = 3 * length fs + 6"
    by (simp add: work_left_def gen_start_def work_of_def numWorkers_def sum_list_replicate)
  with gen_run_work [OF assms] show "k \<le> 3 * length fs + 6" by simp
  obtain gs where ok: "gen_ok fs w gs p" using gen_ok_run [OF assms] ..
  assume "\<nexists>q. gen_step p q"
  with gen_step_unless_ended [OF ok] have ended: "gen_ended p" by blast
  then have "concat (map in_hand (workers p)) = []" and "workers p \<noteq> []"
    using ok by (auto simp: gen_ended_def in_hand_def gen_ok_def numWorkers_def)
  with ended have "Finished \<in> set (workers p)" by (cases "workers p") (auto simp: gen_ended_def)
  with ok ended \<open>concat (map in_hand (workers p)) = []\<close> have "pending p = {#}"
    by (auto simp: gen_ok_def gen_ended_def pending_def)
  with ok ended show "gen_ended p \<and>
      (\<exists>gs. mset gs = mset fs \<and> calls (pl_world p) = calls w @ concat (map mock_calls gs))"
    by (auto simp: gen_ok_def)
qed

section \<open>No mock overwrites another\<close>

text \<open>A file the package check looks at, below the root, whose name has \<open>.go\<close> only at its end.\<close>

definition checked_file :: "FileInfo \<Rightarrow> bool" where
  "checked_file f \<longleftrightarrow>
     path_Base (fi_Path f) = fi_FileName f @ ''.go'' \<and> \<not> has_suffix ''_test.go'' (path_Base (fi_Path f)) \<and>
     path_Dir (fi_Path f) \<noteq> ''.'' \<and> fi_Pkg f \<notin> {[], ''main''}"

lemma checked_file_folder:
  assumes "readable skipDirs ''.'' ''.'' root" and "tidy root" and "fst (validation_main root) = 0"
    and "f \<in> set (found_files root)" and "checked_file f"
  obtains d ns where "fi_Path f = path_Join d (fi_FileName f @ ''.go'')"
    and "located skipDirs ''.'' ''.'' root (d, fi_Pkg f, Folder ns)"
    and "named_folder (d, fi_Pkg f, Folder ns)" and "slash \<notin> set (fi_Pkg f)"
proof -
  obtain p n c where at: "located skipDirs ''.'' ''.'' root (p, n, Leaf c)"
    and f: "f \<in> set (mock_file p c)"
    using assms(1,2,4) found_files_exactly(1) [of root f] by (auto simp: tools_agree)
  then obtain content where src: "c = Inr content" and p: "fi_Path f = p"
    and pkg: "fi_Pkg f = extractPackage content" and ext: "path_Ext p = ''.go''"
    by (auto simp: mock_file_def tools_agree split: if_splits sum.splits)
  have dir: "path_Dir p \<noteq> ''.''" using assms(5) p by (simp add: checked_file_def)
  moreover have "path_Dir ''.'' = ''.''" by (simp add: path_Dir_def)
  ultimately obtain d dn ns where up: "p = path_Join d n" "name_ok n" "d = ''.'' \<or> no_slash_end d \<and> path_Base d = dn"
    "\<not> skipDirs dn" and d: "located skipDirs ''.'' ''.'' root (d, dn, Folder ns)"
    using located_parent [OF at assms(2)] by auto
  have parts: "path_Base p = n" "path_Dir p = d"
    using path_parts_Join [of n d] up by auto
  with dir have "d \<noteq> ''.''" by simp
  then have dn: "path_Base d = dn" and "name_ok dn"
    using up(3) located_parent [OF d assms(2)] path_parts_Join(1) by auto
  then have dn_ok: "dn \<noteq> ''.''" "slash \<notin> set dn" by (auto simp: name_ok_def)
  have "\<not> wrong_entry (p, n, Leaf c)"
    using validation_correct [OF assms(1,2), of "{e. located skipDirs ''.'' ''.'' root e}"] assms(3) at by simp
  then have "fi_Pkg f = dn"
    using assms(5) ext dn dn_ok
    by (auto simp: wrong_entry_def wrong_package_def src parts pkg p checked_file_def)
  then show ?thesis
    using that [of d ns] p parts(1) up d dn_ok assms(5)
    by (auto simp: named_folder_def checked_file_def)
qed

lemma slash_free_prefix:
  "x @ slash # y = x' @ slash # y' \<Longrightarrow> slash \<notin> set x \<Longrightarrow> slash \<notin> set x' \<Longrightarrow> x = x' \<and> y = y'"
  by (induction x arbitrary: x') (auto simp: Cons_eq_append_conv)

text \<open>In a tree that passes the package check no mock of such a file overwrites that of another.\<close>

lemma mocks_not_overwritten:
  assumes "readable skipDirs ''.'' ''.'' root" and "tidy root" and "fst (validation_main root) = 0"
    and "f \<in> set (found_files root)" and "checked_file f"
    and "g \<in> set (found_files root)" and "checked_file g"
    and "completeDest f = completeDest g"
  shows "f = g"
proof -
  obtain d ns where f: "fi_Path f = path_Join d (fi_FileName f @ ''.go'')" "slash \<notin> set (fi_Pkg f)"
    "located skipDirs ''.'' ''.'' root (d, fi_Pkg f, Folder ns)" "named_folder (d, fi_Pkg f, Folder ns)"
    using checked_file_folder [OF assms(1-5)] by metis
  obtain e ms where g: "fi_Path g = path_Join e (fi_FileName g @ ''.go'')" "slash \<notin> set (fi_Pkg g)"
    "located skipDirs ''.'' ''.'' root (e, fi_Pkg g, Folder ms)" "named_folder (e, fi_Pkg g, Folder ms)"
    using checked_file_folder [OF assms(1-3) assms(6,7)] by metis
  have "fi_Pkg f @ slash # ''mock_'' @ fi_FileName f @ ''.go'' = fi_Pkg g @ slash # ''mock_'' @ fi_FileName g @ ''.go''"
    using assms(8) by (simp add: completeDest_def myPkg_def)
  then have "fi_Pkg f = fi_Pkg g" and name: "fi_FileName f = fi_FileName g"
    using slash_free_prefix f(2) g(2) by (metis, metis append_same_eq same_append_eq)
  with f(3,4) g(3,4) have "d = e"
    using validation_correct [OF assms(1,2), of "{e. located skipDirs ''.'' ''.'' root e}"] assms(3) by fastforce
  then have "fi_Path f = fi_Path g" by (simp add: f(1) g(1) name)
  moreover have "distinct (map fi_Path (found_files root))"
    using found_files_exactly(2) assms(1,2) by (simp add: tools_agree)
  ultimately show ?thesis using assms(4,6) by (auto simp: distinct_map dest: inj_onD)
qed

section \<open>The generator as a whole\<close>

text \<open>Claim C39: the mock generator. However its walk and its five workers are scheduled, a run has at most
  \<open>3n + 6\<close> steps for \<open>n\<close> found files; when no goroutine can go on, the tool has returned - no deadlock
  - and the commands it ran are those of the found files, each file once, in some order.\<close>

theorem mocks_generated:
  assumes "gen_run k (gen_start (found_files root) w) p"
  shows "k \<le> 3 * length (found_files root) + 6 \<and>
    ((\<nexists>q. gen_step p q) \<longrightarrow> gen_ended p \<and>
      (\<exists>gs. mset gs = mset (found_files root) \<and>
        calls (pl_world p) = calls w @ concat (map mock_calls gs)))"
  using all_mocks_generated [OF assms] by blast

definition demo_world :: world where
  "demo_world = \<lparr>history = [], answer = (\<lambda>_ _. Done)\<rparr>"

definition small_tree :: node where
  "small_tree = Folder (Inr [(''a'', Folder (Inr [(''b.go'', Leaf (Inr ''interface {''))]))])"

definition small_file :: FileInfo where
  "small_file = \<lparr>fi_Path = ''a/b.go'', fi_Pkg = [], fi_FileName = ''b''\<rparr>"

lemma small_tree_found: "found_files small_tree = [small_file]" by code_simp

definition after :: "FileInfo list \<Rightarrow> FileInfo list \<Rightarrow> bool \<Rightarrow> worker list \<Rightarrow> world \<Rightarrow> world pipeline" where
  "after us ch c ws w = \<lparr>unsent = us, fileCh = ch, closed = c, workers = ws, pl_world = w\<rparr>"

lemma small_run:
  "gen_run 9 (gen_start [small_file] demo_world)
     (after [] [] True (replicate 5 Finished) (generate small_file demo_world))"
proof -
  let ?f = small_file and ?w = demo_world and ?v = "generate small_file demo_world"
  have "gen_run 0 (gen_start [?f] ?w) (after [?f] [] False (replicate 5 Waiting) ?w)"
    by (simp add: gen_start_def after_def numWorkers_def gen_run.start)
  note 0 = this
  have 1: "gen_step (after [?f] [] False (replicate 5 Waiting) ?w) (after [] [?f] False (replicate 5 Waiting) ?w)"
    using gen_step.send [of "after [?f] [] False (replicate 5 Waiting) ?w" ?f "[]"]
    by (simp add: after_def capacity_def)
  have 2: "gen_step (after [] [?f] False (replicate 5 Waiting) ?w)
      (after [] [] False (Generating ?f # replicate 4 Waiting) ?w)"
    using gen_step.take [of 0 "after [] [?f] False (replicate 5 Waiting) ?w" ?f "[]"]
    by (simp add: after_def eval_nat_numeral)
  have 3: "gen_step (after [] [] False (Generating ?f # replicate 4 Waiting) ?w)
      (after [] [] False (replicate 5 Waiting) ?v)"
    using gen_step.finish [of 0 "after [] [] False (Generating ?f # replicate 4 Waiting) ?w" ?f]
    by (simp add: after_def eval_nat_numeral)
  have 4: "gen_step (after [] [] False (replicate 5 Waiting) ?v) (after [] [] True (replicate 5 Waiting) ?v)"
    using gen_step.close [of "after [] [] False (replicate 5 Waiting) ?v"] by (simp add: after_def)
  have 5: "gen_step (after [] [] True (replicate i Finished @ replicate (Suc j) Waiting) ?v)
      (after [] [] True (replicate (Suc i) Finished @ replicate j Waiting) ?v)" for i j
    using gen_step.stop [of i "after [] [] True (replicate i Finished @ replicate (Suc j) Waiting) ?v"]
    by (simp add: after_def nth_append list_update_append replicate_app_Cons_same)
  have "gen_run 4 (gen_start [?f] ?w) (after [] [] True (replicate 0 Finished @ replicate 5 Waiting) ?v)"
    using 0 1 2 3 4 by (simp add: eval_nat_numeral) (blast intro: gen_run.step)
  then have "gen_run (4 + i) (gen_start [?f] ?w)
      (after [] [] True (replicate i Finished @ replicate (5 - i) Waiting) ?v)" if "i \<le> 5" for i
    using that
  proof (induction i)
    case (Suc i)
    then have i: "5 - i = Suc (5 - Suc i)" by simp
    have "gen_run (4 + i) (gen_start [?f] ?w)
        (after [] [] True (replicate i Finished @ replicate (5 - i) Waiting) ?v)"
      using Suc by simp
    from gen_run.step [OF this [unfolded i] 5] show ?case by (simp only: add_Suc_right)
  qed simp
  from this [of 5] show ?thesis by simp
qed

theorem mocks_generated_witness:
  "\<exists>gs. mset gs = {#small_file#} \<and>
    calls (pl_world (after [] [] True (replicate 5 Finished) (generate small_file demo_world))) =
      concat (map mock_calls gs)"
proof -
  let ?p = "after [] [] True (replicate 5 Finished) (generate small_file demo_world)"
  have "gen_run 9 (gen_start (found_files small_tree) demo_world) ?p"
    using small_run by (simp only: small_tree_found)
  moreover have "\<nexists>q. gen_step ?p q" by (auto elim!: gen_step.cases simp: after_def)
  ultimately have "gen_ended ?p \<and> (\<exists>gs. mset gs = mset (found_files small_tree) \<and>
      calls (pl_world ?p) = calls demo_world @ concat (map mock_calls gs))"
    using mocks_generated by blast
  then show ?thesis by (simp add: small_tree_found calls_def demo_world_def)
qed

end
