(* ===== verification/Loadtest.thy ===== *)
theory Loadtest
  imports Services
begin

text \<open>
  \<open>cmd/loadtest/loadtest.go\<close>: the requests of the load test, for the fake data the library makes up, and
  what the servers of the program make of them.
\<close>

definition loadtest_payload :: "string \<Rightarrow> string \<Rightarrow> string \<Rightarrow> bytes" where
  "loadtest_payload userId email name =
     str_join [CHR 0x0A]
       [''{'',
        ''  \"event_name\": \"user.created\",'',
        ''  \"data\": {'',
        ''    \"userId\": \"'' @ userId @ ''\",'',
        ''    \"email\": \"'' @ email @ ''\",'',
        ''    \"name\": \"'' @ name @ ''\"'',
        ''  }'',
        ''}'']"

record loadtest_target =
  tgt_Method :: string
  tgt_URL :: string
  tgt_Body :: bytes
  tgt_Header :: header

definition createTargeter :: "string \<Rightarrow> string \<Rightarrow> string \<Rightarrow> loadtest_target" where
  "createTargeter userId name email =
     \<lparr>tgt_Method = ''POST'', tgt_URL = ''http://localhost:8080/event/publisher'',
      tgt_Body = loadtest_payload userId email name,
      tgt_Header = [(''Content-Type'', [''application/json''])]\<rparr>"

text \<open>The request a server sees: the path is what follows the host of the URL.\<close>

definition path_of_url :: "string \<Rightarrow> string" where
  "path_of_url url = CHR ''/'' # str_join ''/'' (drop 3 (str_split (CHR ''/'') url))"

definition loadtest_request :: "loadtest_target \<Rightarrow> request" where
  "loadtest_request t =
     \<lparr>req_Method = tgt_Method t, req_Path = path_of_url (tgt_URL t), req_Query = [],
      req_Header = tgt_Header t, req_RemoteAddr = [], req_Body = tgt_Body t, req_PathValues = [],
      req_ctx = ctx_Background\<rparr>"

lemma loadtest_path:
  "req_Path (loadtest_request (createTargeter u n e)) = ''/event/publisher''"
  "req_Method (loadtest_request (createTargeter u n e)) = ''POST''"
  by (simp_all add: loadtest_request_def createTargeter_def path_of_url_def)

text \<open>No server of the program has a route for it: every request of the load test is answered 404,
  whatever the world.\<close>

lemma loadtest_not_found:
  assumes "routes \<in> {metrics_route m # task_routes @ [health_route], metrics_route m # pubsub_routes @ [health_route],
    metrics_route m # backoffice_routes parse_uuid}"
  shows "mux_serve routes (loadtest_request (createTargeter u n e)) resp w =
    (Returns (http_error ''404 page not found'' 404 resp), w)"
proof -
  let ?r = "loadtest_request (createTargeter u n e)"
  have "match_path (snd (split_pattern p)) (req_Path ?r) = None" if "p \<in> hh_Path ` set routes" for p
    using that assms unfolding loadtest_path
    by (auto simp: metrics_route_def task_routes_def pubsub_routes_def backoffice_routes_def health_route_def
        route_def route_run_def split_pattern_def str_split2_def match_path_def wildcard_def has_prefix_def
        has_suffix_def)
  then have "\<forall>h\<in>set routes. match_path (snd (split_pattern (hh_Path h))) (req_Path ?r) = None" by blast
  moreover from this have "find (\<lambda>h. route_matches (hh_Path h) ?r) routes = None"
    by (auto simp: find_None_iff route_matches_def split: prod.splits)
  ultimately show ?thesis by (simp add: mux_serve_def)
qed

end
