(* ===== verification/Spec2Isabelle.thy ===== *)
theory Spec2Isabelle
  imports Json JsonStruct Http Topicutils Telemetry Intertime Gotime Base64 Cfg Pubadapter Domain Metrics Interstore
    Storests Fetcher Asyncadapter Taskapp Archived Pubsubapp Queryparser
    Backofficeapp Lifecycle Logs Requests Auth Middleware Services Composition
    Frames Catalog System Broker Taskqueue Insightsday Walk Buildtools Mocks Loadtest
begin

text \<open>
  A verification development for gqueue, a service that takes events over HTTP and delivers them to
  registered consumers through asynq (Redis) or Google Pub/Sub.

  \<^bold>\<open>The program.\<close> The backoffice (\<open>internal/app/backofficeapp\<close>) registers, archives, lists and removes
  events with their consumers in a PostgreSQL table (\<open>internal/interstore\<close>). The task and Pub/Sub
  services load the table into a memory store, refreshed every minute; their HTTP handlers
  (\<open>internal/app/taskapp\<close>, \<open>pubsubapp\<close>) look an event up and publish one message per consumer
  (\<open>pkg/pubadapter\<close>); their workers (\<open>pkg/asyncadapter\<close>) take the messages and post the data to
  the consumer (\<open>internal/fetcher\<close>), retrying or dead-lettering on the Pub/Sub side. Both sides record
  metrics in Redis (\<open>internal/storests\<close>), which the backoffice aggregates (\<open>internal/domain/metric.go\<close>).
  \<open>cmd/setup\<close> and \<open>cmd/api\<close> wire the parts into servers and workers.

  \<^bold>\<open>How it is modelled.\<close> A function of the program is a function of its arguments and, where it acts,
  of a world (\<^theory_text>\<open>Environment\<close>): the world holds the history of the calls to everything that is not
  under src/ (clock, queues, Redis, SQL statements, HTTP client, meter, UUIDs, creation of instruments),
  and answers each call by an arbitrary function of the history, so a theorem holds for every
  behaviour of these services unless it states a hypothesis. States of the program extend the record:
  \<open>log_world\<close> (configuration, default logger), \<open>db_world\<close> (the table), \<open>store_world\<close> (the memory
  store). Errors are values of \<open>error\<close> with the chain \<open>errors.Is\<close> walks; a panic is \<open>Panics\<close> of the type
  \<open>run\<close>. Go maps are association lists, nil maps and pointers \<open>None\<close>.

  \<^bold>\<open>Theories.\<close>
  \<^item> \<^theory_text>\<open>Prelude\<close>: strings, maps, errors, strconv. \<^theory_text>\<open>Json\<close>, \<^theory_text>\<open>JsonStruct\<close>: the JSON texts, the
    parser with its fuel (the length of the text, which \<open>p_value_text\<close> shows to be enough for every
    printed text) and decoding into structs with what it keeps. \<^theory_text>\<open>Base64\<close>, \<^theory_text>\<open>Gotime\<close>, \<^theory_text>\<open>Http\<close>: byte
    slices, times in RFC 3339, headers and response writers.
  \<^item> \<^theory_text>\<open>Cfg\<close> (\<open>internal/cfg\<close>), \<^theory_text>\<open>Logs\<close> (\<open>pkg/logs\<close>), \<^theory_text>\<open>Telemetry\<close> (\<open>pkg/telemetry\<close>), \<^theory_text>\<open>Topicutils\<close>
    (\<open>pkg/topicutils\<close>), \<^theory_text>\<open>Intertime\<close> (\<open>pkg/intertime\<close>), \<^theory_text>\<open>Queryparser\<close> (\<open>pkg/queryparser\<close>), \<^theory_text>\<open>Auth\<close>
    (\<open>pkg/auth/basic.go\<close>), \<^theory_text>\<open>Requests\<close> (contexts: \<open>pkg/ctxlogger\<close>, \<open>pkg/telemetry/context.go\<close>,
    \<open>pkg/auth/ctx.go\<close>; the auditor of \<open>pkg/httpclient\<close>; \<open>pkg/httpadapter\<close>; the routes of
    \<open>http.ServeMux\<close>).
  \<^item> \<^theory_text>\<open>Domain\<close> (\<open>internal/domain\<close>: events, options, consumers), \<^theory_text>\<open>Metrics\<close> (\<open>metric.go\<close>),
    \<^theory_text>\<open>Interstore\<close> (\<open>internal/interstore\<close>, \<open>cmd/setup/memstore\<close>), \<^theory_text>\<open>Storests\<close>, \<^theory_text>\<open>Pubadapter\<close>, \<^theory_text>\<open>Fetcher\<close>
    (also \<open>pkg/httpclient\<close>, \<open>internal/notifyopt\<close>), \<^theory_text>\<open>Asyncadapter\<close>.
  \<^item> \<^theory_text>\<open>Taskapp\<close>, \<^theory_text>\<open>Archived\<close> (archived tasks and their cache), \<^theory_text>\<open>Pubsubapp\<close>, \<^theory_text>\<open>Backofficeapp\<close> (with
    \<open>internal/app/health\<close>): the handlers. \<^theory_text>\<open>Lifecycle\<close>: registering, removing and archiving an event seen
    from the publishing side.
  \<^item> \<^theory_text>\<open>Middleware\<close> (\<open>cmd/setup/middleware\<close>), \<^theory_text>\<open>Services\<close> (the rest of \<open>cmd/setup\<close>, \<open>cmd/api\<close>),
    \<^theory_text>\<open>Composition\<close>: what holds of the wired services. \<^theory_text>\<open>Frames\<close>: what every operation leaves alone.
  \<^item> \<^theory_text>\<open>Catalog\<close>: the abstract specification, a machine over what may be published, what was removed and
    what every process serves. \<^theory_text>\<open>System\<close>: any number of processes that share the database, as a step
    relation with one rule per handler, worker, load and restart, and its refinement of the catalog.
    \<^theory_text>\<open>Broker\<close>: the messages of Pub/Sub, from the API over retries to the dead letters. \<^theory_text>\<open>Taskqueue\<close>:
    the tasks of asynq, from the API to the end of their retries. \<^theory_text>\<open>Insightsday\<close>: the metrics of a day,
    from their writers over Redis to the answer of the backoffice.
  \<^item> \<^theory_text>\<open>Walk\<close> (\<open>path/filepath\<close>: paths, file trees, \<open>Walk\<close>), \<^theory_text>\<open>Buildtools\<close> (\<open>deployment/ci\<close>: the package
    check and what the mock generator finds), \<^theory_text>\<open>Mocks\<close> (its goroutines as a step relation, one rule per
    action), \<^theory_text>\<open>Loadtest\<close> (the requests of \<open>cmd/loadtest\<close>).

  \<^bold>\<open>Interfaces.\<close> Each is a locale with the laws its clients use, interpreted on the model's own
  definitions where they are: \<open>publisher\<close> (what is published when no error is reported; the asynq and
  Pub/Sub publishers and the strategy over them) and its extension \<open>timed_publisher\<close>, \<open>notifier\<close> (what an
  accepted notification delivered; \<open>Notify\<close>), \<open>persistent_store\<close> (what loading the memory store relies
  on; PostgreSQL), \<open>outward_effect\<close> (the observations that logging, metrics, insights and
  configuration leave alone; deliveries, publications and the stores), \<open>simulation\<close> (a machine that
  implements another and inherits its invariants; the system and the catalog), \<open>visitor\<close> (a callback of
  \<open>filepath.Walk\<close>, under which a walk is a fold over a listing; the callbacks of both tools).

  \<^bold>\<open>What is shown.\<close>
  \<^item> The way of an event: the HTTP handlers answer with the status their checks and calls decide and queue
    exactly the consumers of the event in order, through the server with its routes and middleware too;
    a registered event is published, a removed or archived one is not; a queued task, run by the worker,
    posts the data to its consumer and succeeds exactly when the consumer accepts it.
  \<^item> The system: every step of the processes is a step of the catalog; in every reachable state only
    validated events are served, a 202 of the task API has queued something, and a removed name stays
    removed.
  \<^item> Messages of Pub/Sub: what becomes of a message, the bound on its retries and on all deliveries it
    causes, that no delivery panics, the cases where it is lost
    (end of the context, a retried envelope no handler can read, dead letters with the memory store).
  \<^item> Tasks of asynq: none is lost or invented, together they are processed no more often than their
    retries allow, and the consumers reached are those of the tasks whose handler succeeded. asynq itself,
    which picks a waiting task, retries and archives, is the relation \<open>queue_step\<close>, after its
    documentation.
  \<^item> The stores: uniqueness of names and identifiers as an invariant of the table, an event read back after
    it was stored, the memory store as a view of the table, the refresh loop keeping the last good copy.
  \<^item> Data: round trips of options, durations, of the credentials in a header and of the message of
    an archived task; validation; the rules of topic names and the injectivity of subscription names;
    ranges and truncation of query parameters.
  \<^item> Insights: totals, requests per minute, and that the percentiles are those of one sample; the answer of
    the backoffice counts each metric of a day once, where Redis keeps what it was given for the day
    (\<open>redis_reads\<close>) and the clock stays within it (\<open>clock_day\<close>).
  \<^item> Archived tasks: the listings are the tasks whose message can be read, in order, while nothing writes to
    Redis meanwhile (\<open>steady\<close>).
  \<^item> Wrappers: CORS headers, the balance of the task gauge, the routes of the backoffice, the order of the
    shutdown, the bound of the Pub/Sub worker on its own shutdown.
  \<^item> Tools: the package check passes exactly the trees it means to; the mock generator ends under every
    schedule of its six goroutines, with every found file generated once, and in a checked tree no mock
    overwrites another; the load test reaches no route of the program.

  \<^bold>\<open>Bounds and assumptions.\<close> Integers of the code are 64-bit; where a conversion or a counter could leave
  the range it is in a hypothesis (\<open>int64_ok\<close>) or in the definition. \<open>encoding/json\<close> and
  \<open>otelprom\<close> print map keys sorted, here they keep the order of the list. Go lets the iteration over a map run
  in any order; theorems hold for every list. The local time zone of the task service is UTC. The log
  lines of the handlers are left out, and so is a panic of the configuration inside the deferred
  insights, after it was read successfully at the start. Request paths are clean. A response is written
  to a connection that takes it: the write timeout of the servers (200 ms for the publishing services) is
  a field of the server only. Goroutines that share nothing but the stores are the calls that start them;
  the refresh loop and the subscriptions are functions of their own.

  \<^bold>\<open>Not modelled.\<close> \<open>PublisherStrategy\<close> is modelled but no service uses it. Out of scope are the generated
  mocks, the attack and the report of the load test (the library vegeta), the example consumer, the MongoDB
  store (commented out) and the test helper \<open>pkg/asyncadapter/tester.go\<close>. The walks of the tools are over a
  tree that does not change meanwhile and has no symbolic links.
\<close>

end
